(* ===== verification/Prelude.thy ===== *)
theory Prelude
  imports Complex_Main "HOL-Library.Log_Nat" "HOL-Library.Multiset"
begin

text \<open>
  Shared vocabulary of the development.

  \<^item> Results: a Python call that may raise is a value of \<open>'e + 'a\<close>, \<open>Inl\<close> the exception.
    \<open>rbind\<close> sequences two such calls, \<open>rguard\<close> is an early \<open>raise\<close>, and \<open>rmapM\<close> runs a call
    over a list, stopping at the first exception as the Python loop does.
  \<^item> Text: \<open>str_strip\<close>, \<open>str_lower\<close> and \<open>str_upper\<close> on ASCII strings, and \<open>str_or\<close> for the
    idiom \<open>(value or default)\<close>.
  \<^item> Decimals: a Python \<open>Decimal\<close> is a \<^typ>\<open>rat\<close>; \<open>ctx28\<close> is the rounding that the default
    context applies to every arithmetic result (28 significant digits, ties to even), and
    \<open>half_up\<close>, \<open>half_even\<close> are the two quantizing modes the code names.
  \<^item> Lists: first match and maximum by key as Python's \<open>next\<close> and \<open>max\<close> compute them.
\<close>

named_theorems res_simps "rewriting of results and early exits"
named_theorems dec_simps "rewriting of decimal rounding"

section \<open>Results\<close>

definition rbind :: "'e + 'a \<Rightarrow> ('a \<Rightarrow> 'e + 'b) \<Rightarrow> 'e + 'b" where
  "rbind m f = (case m of Inl e \<Rightarrow> Inl e | Inr x \<Rightarrow> f x)"

definition rguard :: "bool \<Rightarrow> 'e \<Rightarrow> 'e + unit" where
  "rguard ok e = (if ok then Inr () else Inl e)"

fun rmapM :: "('a \<Rightarrow> 'e + 'b) \<Rightarrow> 'a list \<Rightarrow> 'e + 'b list" where
  "rmapM f [] = Inr []"
| "rmapM f (x # xs) = rbind (f x) (\<lambda>y. rbind (rmapM f xs) (\<lambda>ys. Inr (y # ys)))"

fun rfold :: "('a \<Rightarrow> 's \<Rightarrow> 'e + 's) \<Rightarrow> 'a list \<Rightarrow> 's \<Rightarrow> 'e + 's" where
  "rfold f [] s = Inr s"
| "rfold f (x # xs) s = rbind (f x s) (rfold f xs)"

lemma rbind_Inl [simp, res_simps]: "rbind (Inl e) f = Inl e"
  by (simp add: rbind_def)

lemma rbind_Inr [simp, res_simps]: "rbind (Inr x) f = f x"
  by (simp add: rbind_def)

lemma rbind_eq_Inr [res_simps]:
  "rbind m f = Inr y \<longleftrightarrow> (\<exists>x. m = Inr x \<and> f x = Inr y)"
  by (cases m) auto

lemma rbind_eq_Inl [res_simps]:
  "rbind m f = Inl e \<longleftrightarrow> m = Inl e \<or> (\<exists>x. m = Inr x \<and> f x = Inl e)"
  by (cases m) auto

lemma rbind_assoc: "rbind (rbind m f) g = rbind m (\<lambda>x. rbind (f x) g)"
  by (cases m) auto

lemma rguard_True [simp, res_simps]: "rguard True e = Inr ()"
  by (simp add: rguard_def)

lemma rguard_False [simp, res_simps]: "rguard False e = Inl e"
  by (simp add: rguard_def)

lemma rguard_Inr [simp, res_simps]: "rguard b e = Inr u \<longleftrightarrow> b"
  by (simp add: rguard_def)

lemma rguard_Inl [simp, res_simps]: "rguard b e = Inl e' \<longleftrightarrow> \<not> b \<and> e' = e"
  by (auto simp: rguard_def)

lemma rmapM_Inr_iff:
  "rmapM f xs = Inr ys \<longleftrightarrow> list_all2 (\<lambda>x y. f x = Inr y) xs ys"
  by (induction xs arbitrary: ys) (auto simp: res_simps list_all2_Cons1)

lemma rmapM_length: "rmapM f xs = Inr ys \<Longrightarrow> length ys = length xs"
  by (simp add: rmapM_Inr_iff list_all2_lengthD)

lemma rfold_invariant:
  assumes "rfold f xs s = Inr s'" "P s"
    and "\<And>x s s'. x \<in> set xs \<Longrightarrow> P s \<Longrightarrow> f x s = Inr s' \<Longrightarrow> P s'"
  shows "P s'"
  using assms
proof (induction xs arbitrary: s)
  case (Cons x xs)
  then obtain t where t: "f x s = Inr t" "rfold f xs t = Inr s'"
    by (auto simp: res_simps)
  have "P t"
    using Cons.prems(2,3) t(1) by auto
  then show ?case
    using Cons.IH [OF t(2)] Cons.prems(3) by auto
qed simp

lemma mult_le_iff_le_div:
  fixes c k w :: int
  assumes "0 < k"
  shows "c * k \<le> w \<longleftrightarrow> c \<le> w div k"
proof
  assume "c * k \<le> w"
  with zdiv_mono1 [OF this assms] assms show "c \<le> w div k" by simp
next
  assume "c \<le> w div k"
  then have "c * k \<le> w div k * k" using assms by (intro mult_right_mono) auto
  moreover have "w div k * k + w mod k = w" "0 \<le> w mod k" using assms by simp_all
  ultimately show "c * k \<le> w" by linarith
qed

section \<open>Text\<close>

definition ascii_lower :: "char \<Rightarrow> char" where
  "ascii_lower c = (let n = (of_char c :: nat) in
     if 65 \<le> n \<and> n \<le> 90 then char_of (n + 32) else c)"

definition ascii_upper :: "char \<Rightarrow> char" where
  "ascii_upper c = (let n = (of_char c :: nat) in
     if 97 \<le> n \<and> n \<le> 122 then char_of (n - 32) else c)"

definition is_space :: "char \<Rightarrow> bool" where
  "is_space c = (let n = (of_char c :: nat) in n = 32 \<or> (9 \<le> n \<and> n \<le> 13) \<or> (28 \<le> n \<and> n \<le> 31))"

definition str_strip :: "string \<Rightarrow> string" where
  "str_strip s = rev (dropWhile is_space (rev (dropWhile is_space s)))"

definition str_lower :: "string \<Rightarrow> string" where
  "str_lower s = map ascii_lower s"

definition str_upper :: "string \<Rightarrow> string" where
  "str_upper s = map ascii_upper s"

text \<open>\<open>value or default\<close>: a missing value and the empty string are both falsy.\<close>

definition str_or :: "string option \<Rightarrow> string \<Rightarrow> string" where
  "str_or v d = (case v of None \<Rightarrow> d | Some s \<Rightarrow> if s = [] then d else s)"

definition norm_lower :: "string option \<Rightarrow> string \<Rightarrow> string" where
  "norm_lower v d = str_lower (str_strip (str_or v d))"

lemma norm_lower_None [simp]: "norm_lower None d = norm_lower (Some d) d"
  by (simp add: norm_lower_def str_or_def)

section \<open>Decimal rounding\<close>

text \<open>\<open>ROUND_HALF_UP\<close> (ties away from zero) and \<open>ROUND_HALF_EVEN\<close> to an integer.\<close>

definition half_up :: "rat \<Rightarrow> int" where
  "half_up x = (if 0 \<le> x then \<lfloor>x + 1/2\<rfloor> else - \<lfloor>- x + 1/2\<rfloor>)"

definition half_even :: "rat \<Rightarrow> int" where
  "half_even x = (let f = \<lfloor>x\<rfloor>; r = x - of_int f in
     if r < 1/2 then f else if 1/2 < r then f + 1 else if even f then f else f + 1)"

lemma half_up_of_int [simp, dec_simps]: "half_up (of_int n) = n"
proof -
  have "\<lfloor>of_int m + (1/2 :: rat)\<rfloor> = m" for m
    by linarith
  from this [of n] this [of "- n"] show ?thesis
    by (simp add: half_up_def)
qed

lemma half_even_of_int [simp, dec_simps]: "half_even (of_int n) = n"
  by (simp add: half_even_def)

lemma half_up_error: "\<bar>of_int (half_up x) - x\<bar> \<le> 1/2"
proof -
  have "\<bar>of_int \<lfloor>y + 1/2\<rfloor> - y\<bar> \<le> 1/2" for y :: rat
    by linarith
  from this [of x] this [of "- x"] show ?thesis
    by (auto simp: half_up_def abs_minus_commute add.commute)
qed

lemma half_even_bounds: "x - 1/2 \<le> of_int (half_even x)" "of_int (half_even x) \<le> x + 1/2"
  unfolding half_even_def Let_def by (simp_all split: if_splits) linarith+

lemma half_even_error: "\<bar>of_int (half_even x) - x\<bar> \<le> 1/2"
  using half_even_bounds [of x] by linarith

lemma half_up_mono: "x \<le> y \<Longrightarrow> half_up x \<le> half_up y"
proof -
  assume le: "x \<le> y"
  consider "0 \<le> x" | "x < 0" "0 \<le> y" | "y < 0"
    by linarith
  then show ?thesis
  proof cases
    case 1
    with le show ?thesis by (simp add: half_up_def floor_mono)
  next
    case 2
    then have "- \<lfloor>- x + 1/2\<rfloor> \<le> \<lfloor>y + 1/2\<rfloor>"
      by linarith
    with 2 show ?thesis by (simp add: half_up_def not_le)
  next
    case 3
    with le have "\<lfloor>- y + 1/2\<rfloor> \<le> \<lfloor>- x + 1/2\<rfloor>"
      by (intro floor_mono) simp
    with 3 le show ?thesis by (simp add: half_up_def)
  qed
qed

lemma half_even_mono:
  assumes "x \<le> y"
  shows "half_even x \<le> half_even y"
proof (cases "\<lfloor>x\<rfloor> = \<lfloor>y\<rfloor>")
  case True
  with assms show ?thesis
    by (auto simp: half_even_def Let_def)
next
  case False
  with assms have "\<lfloor>x\<rfloor> + 1 \<le> \<lfloor>y\<rfloor>"
    using floor_mono [OF assms] by linarith
  moreover have "half_even x \<le> \<lfloor>x\<rfloor> + 1" "\<lfloor>y\<rfloor> \<le> half_even y"
    by (auto simp: half_even_def Let_def)
  ultimately show ?thesis by linarith
qed

lemma half_up_0 [simp]: "half_up 0 = 0" and half_even_0 [simp]: "half_even 0 = 0"
  using half_up_of_int [of 0] half_even_of_int [of 0] by simp_all

lemma half_up_nonneg: "0 \<le> x \<Longrightarrow> 0 \<le> half_up x"
  using half_up_mono [of 0 x] by simp

lemma half_even_nonneg: "0 \<le> x \<Longrightarrow> 0 \<le> half_even x"
  using half_even_mono [of 0 x] by simp

lemma half_up_uminus: "half_up (- x) = - half_up x"
proof -
  have half: "\<lfloor>1/2 :: rat\<rfloor> = 0"
    by linarith
  show ?thesis
    by (cases "x = 0") (auto simp: half_up_def half)
qed

subsection \<open>The default context: 28 significant digits\<close>

text \<open>
  \<open>adjusted x\<close> is the exponent of the leading digit of a positive \<open>x\<close>, i.e. the power of ten
  with \<open>10 powi adjusted x \<le> x < 10 powi (adjusted x + 1)\<close>. Every result of \<open>+\<close>, \<open>*\<close> and \<open>/\<close>
  on Decimals is the exact result rounded to 28 significant digits.
\<close>

definition adjusted :: "rat \<Rightarrow> int" where
  "adjusted x = (if 1 \<le> x then int (floorlog 10 (nat \<lfloor>x\<rfloor>)) - 1
                 else - int (floorlog 10 (nat (\<lceil>1 / x\<rceil> - 1))))"

definition ulp28 :: "rat \<Rightarrow> rat" where
  "ulp28 x = 10 powi (adjusted x - 27)"

definition ctx28 :: "rat \<Rightarrow> rat" where
  "ctx28 x = (if x = 0 then 0
     else if 0 < x then of_int (half_even (x / ulp28 x)) * ulp28 x
     else - (of_int (half_even (- x / ulp28 (- x))) * ulp28 (- x)))"

definition dadd :: "rat \<Rightarrow> rat \<Rightarrow> rat" where "dadd x y = ctx28 (x + y)"
definition dmul :: "rat \<Rightarrow> rat \<Rightarrow> rat" where "dmul x y = ctx28 (x * y)"
definition ddiv :: "rat \<Rightarrow> rat \<Rightarrow> rat" where "ddiv x y = ctx28 (x / y)"

lemma floorlog10_bounds:
  assumes "0 < n"
  shows "10 ^ (floorlog 10 n - 1) \<le> n" "n < 10 ^ floorlog 10 n" "0 < floorlog 10 n"
  using assms floorlog_bounds [of n 10] by (auto simp: floorlog_def)

lemma adjusted_bounds:
  assumes "0 < x"
  shows "10 powi adjusted x \<le> x" "x < 10 powi (adjusted x + 1)"
proof -
  have "10 powi adjusted x \<le> x \<and> x < 10 powi (adjusted x + 1)"
  proof (cases "1 \<le> x")
    case True
    define n where "n = nat \<lfloor>x\<rfloor>"
    have n: "0 < n" "of_nat n \<le> x" "x < of_nat n + 1"
      using True unfolding n_def by (auto simp: of_nat_nat) linarith+
    note b = floorlog10_bounds [OF n(1)]
    have lo: "(10::rat) ^ (floorlog 10 n - 1) \<le> of_nat n"
      using b(1) by (metis of_nat_le_iff of_nat_numeral of_nat_power)
    have "of_nat n + (1::rat) \<le> of_nat (10 ^ floorlog 10 n)"
      using b(2) by (metis Suc_leI of_nat_Suc of_nat_le_iff add.commute)
    then have hi: "of_nat n + 1 \<le> (10::rat) ^ floorlog 10 n"
      by simp
    have e: "adjusted x + 1 = int (floorlog 10 n)" "adjusted x = int (floorlog 10 n - 1)"
      using True b(3) by (simp_all add: adjusted_def n_def)
    show ?thesis
      unfolding e(1) unfolding e(2) power_int_of_nat using lo hi n by linarith
  next
    case False
    define n where "n = nat (\<lceil>1 / x\<rceil> - 1)"
    from False assms have inv: "1 < 1 / x" by simp
    have n: "0 < n" "of_nat n < 1 / x" "1 / x \<le> of_nat n + 1"
      using inv unfolding n_def by (auto simp: of_nat_nat) linarith+
    note b = floorlog10_bounds [OF n(1)]
    let ?k = "floorlog 10 n"
    have lo: "(10::rat) ^ (?k - 1) \<le> of_nat n"
      using b(1) by (metis of_nat_le_iff of_nat_numeral of_nat_power)
    have "of_nat n + (1::rat) \<le> of_nat (10 ^ ?k)"
      using b(2) by (metis Suc_leI of_nat_Suc of_nat_le_iff add.commute)
    then have hi: "1 / x \<le> 10 ^ ?k"
      using n(3) by simp
    have e: "adjusted x + 1 = - int (?k - 1)" "adjusted x = - int ?k"
      using False b(3) by (simp_all add: adjusted_def n_def)
    have "inverse ((10::rat) ^ ?k) \<le> x"
      using hi assms by (simp add: field_simps)
    moreover have "x < inverse ((10::rat) ^ (?k - 1))"
    proof -
      have "(10::rat) ^ (?k - 1) < inverse x"
        using le_less_trans [OF lo n(2)] by (simp add: inverse_eq_divide)
      from less_imp_inverse_less [OF this] show ?thesis by simp
    qed
    ultimately show ?thesis
      unfolding e(1) unfolding e(2) by (simp add: power_int_minus)
  qed
  then show "10 powi adjusted x \<le> x" "x < 10 powi (adjusted x + 1)" by auto
qed

lemma ulp28_pos [simp]: "0 < ulp28 x"
  by (simp add: ulp28_def)

lemma ctx28_0 [simp, dec_simps]: "ctx28 0 = 0"
  by (simp add: ctx28_def)

lemma ctx28_uminus [dec_simps]: "ctx28 (- x) = - ctx28 x"
  by (auto simp: ctx28_def)

text \<open>The coefficient of a positive decimal lies in \<open>[10^27, 10^28]\<close> after rounding.\<close>

lemma ulp28_scale:
  assumes "0 < x"
  shows "10 ^ 27 \<le> x / ulp28 x" "x / ulp28 x < 10 ^ 28"
proof -
  have p: "(10::rat) powi adjusted x = 10 ^ 27 * ulp28 x"
    "(10::rat) powi (adjusted x + 1) = 10 ^ 28 * ulp28 x"
    by (simp_all add: ulp28_def power_int_diff power_int_add)
  show "10 ^ 27 \<le> x / ulp28 x"
    using adjusted_bounds(1) [OF assms] unfolding p by (simp add: pos_le_divide_eq)
  show "x / ulp28 x < 10 ^ 28"
    using adjusted_bounds(2) [OF assms] unfolding p by (simp add: pos_divide_less_eq)
qed

lemma half_even_le_int: "x \<le> of_int n \<Longrightarrow> half_even x \<le> n"
  using half_even_mono [of x "of_int n"] by simp

lemma int_le_half_even: "of_int n \<le> x \<Longrightarrow> n \<le> half_even x"
  using half_even_mono [of "of_int n" x] by simp

lemma ctx28_bounds:
  assumes "0 < x"
  shows "10 powi adjusted x \<le> ctx28 x" "ctx28 x \<le> 10 powi (adjusted x + 1)"
proof -
  have p: "(10::rat) powi adjusted x = of_int (10 ^ 27) * ulp28 x"
    "(10::rat) powi (adjusted x + 1) = of_int (10 ^ 28) * ulp28 x"
    by (simp_all add: ulp28_def power_int_diff power_int_add)
  have "10 ^ 27 \<le> half_even (x / ulp28 x)" "half_even (x / ulp28 x) \<le> 10 ^ 28"
    using ulp28_scale [OF assms] by (auto intro!: int_le_half_even half_even_le_int)
  then show "10 powi adjusted x \<le> ctx28 x" "ctx28 x \<le> 10 powi (adjusted x + 1)"
    using assms unfolding p ctx28_def by (simp_all only: of_int_le_iff mult_le_cancel_right ulp28_pos) auto
qed

lemma adjusted_mono:
  assumes "0 < x" "x \<le> y"
  shows "adjusted x \<le> adjusted y"
proof (rule ccontr)
  assume "\<not> adjusted x \<le> adjusted y"
  then have "(10::rat) powi (adjusted y + 1) \<le> 10 powi adjusted x"
    by (intro power_int_increasing) auto
  with adjusted_bounds(1) [of x] adjusted_bounds(2) [of y] assms show False by linarith
qed

lemma ctx28_pos: "0 < x \<Longrightarrow> 0 < ctx28 x"
  using ctx28_bounds(1) [of x] less_le_trans [of 0 "10 powi adjusted x" "ctx28 x"] by simp

lemma ctx28_nonneg: "0 \<le> x \<Longrightarrow> 0 \<le> ctx28 x"
  using ctx28_pos [of x] by (cases "x = 0") auto

lemma ctx28_mono_pos:
  assumes "0 < x" "x \<le> y"
  shows "ctx28 x \<le> ctx28 y"
proof (cases "adjusted x = adjusted y")
  case True
  then have "ulp28 x = ulp28 y" by (simp add: ulp28_def)
  moreover have "half_even (x / ulp28 y) \<le> half_even (y / ulp28 y)"
    using assms by (intro half_even_mono divide_right_mono) (auto simp: less_imp_le)
  ultimately show ?thesis
    using assms by (simp add: ctx28_def mult_right_mono less_imp_le)
next
  case False
  then have "adjusted x + 1 \<le> adjusted y"
    using adjusted_mono [OF assms] by simp
  then have "(10::rat) powi (adjusted x + 1) \<le> 10 powi adjusted y"
    by (intro power_int_increasing) auto
  with ctx28_bounds(2) [of x] ctx28_bounds(1) [of y] assms show ?thesis by linarith
qed

lemma ctx28_mono:
  assumes "x \<le> y"
  shows "ctx28 x \<le> ctx28 y"
proof -
  consider "0 < x" | "x \<le> 0" "0 \<le> y" | "y < 0"
    by linarith
  then show ?thesis
  proof cases
    case 1
    show ?thesis using 1 assms by (rule ctx28_mono_pos)
  next
    case 2
    then show ?thesis
      using ctx28_nonneg [of "- x"] ctx28_nonneg [of y] by (simp add: ctx28_uminus)
  next
    case 3
    with assms show ?thesis
      using ctx28_mono_pos [of "- y" "- x"] by (simp add: ctx28_uminus)
  qed
qed

text \<open>A value that already has at most 28 significant digits is left alone.\<close>

lemma ctx28_exact_pos:
  assumes "0 < x" "x = of_int m * 10 powi e" "m < 10 ^ 28"
  shows "ctx28 x = x"
proof -
  let ?p = "(10::rat) powi e"
  have "(10::rat) powi adjusted x < 10 powi (28 + e)"
  proof -
    have "0 < ?p" by simp
    then have "x < of_int (10 ^ 28) * ?p"
      unfolding assms(2) using assms(3) by (intro mult_strict_right_mono) (simp_all only: of_int_less_iff)
    also have "\<dots> = 10 powi (28 + e)" by (simp add: power_int_add)
    finally show ?thesis using adjusted_bounds(1) [OF assms(1)] by linarith
  qed
  then have "adjusted x < 28 + e"
    using power_int_increasing [of "28 + e" "adjusted x" "10::rat"] by linarith
  then have d: "0 \<le> e - (adjusted x - 27)" by simp
  then obtain k where k: "e = adjusted x - 27 + int k"
    by (metis add.commute diff_add_cancel nonneg_int_cases)
  have "?p = 10 ^ k * ulp28 x"
    by (simp add: k ulp28_def power_int_add)
  then have eq: "of_int (m * 10 ^ k) * ulp28 x = x"
    using assms(2) by simp
  then have "x / ulp28 x = of_int (m * 10 ^ k)"
    by (metis nonzero_mult_div_cancel_right ulp28_pos less_irrefl)
  note eq this
  then show ?thesis
    using assms(1) eq by (simp only: ctx28_def half_even_of_int) simp
qed

lemma ctx28_exact:
  assumes "x = of_int m * 10 powi e" "\<bar>m\<bar> < 10 ^ 28"
  shows "ctx28 x = x"
proof -
  consider "x = 0" | "0 < x" | "0 < - x" by linarith
  then show ?thesis
  proof cases
    case 2
    with assms show ?thesis by (intro ctx28_exact_pos [of x m e]) auto
  next
    case 3
    with assms have "ctx28 (- x) = - x"
      by (intro ctx28_exact_pos [of _ "- m" e]) auto
    then show ?thesis by (simp add: ctx28_uminus)
  qed simp
qed

lemma ctx28_of_int: "\<bar>m\<bar> < 10 ^ 28 \<Longrightarrow> ctx28 (of_int m) = of_int m"
  by (rule ctx28_exact [of _ m 0]) auto

lemma ctx28_cents: "\<bar>m\<bar> < 10 ^ 28 \<Longrightarrow> ctx28 (of_int m / 100) = of_int m / 100"
  by (rule ctx28_exact [of _ m "-2"]) (auto simp: power_int_minus)

text \<open>Rounding to the context is idempotent and keeps order and sign through the operations.\<close>

lemma ctx28_idem [simp]: "ctx28 (ctx28 x) = ctx28 x"
proof -
  have pos: "ctx28 (ctx28 x) = ctx28 x" if x: "0 < x" for x
  proof -
    let ?h = "half_even (x / ulp28 x)"
    have e: "ctx28 x = of_int ?h * 10 powi (adjusted x - 27)" using x by (simp add: ctx28_def ulp28_def)
    have "10 ^ 27 \<le> ?h" "?h \<le> 10 ^ 28"
      using ulp28_scale [OF x] by (auto intro!: int_le_half_even half_even_le_int)
    then consider "\<bar>?h\<bar> < 10 ^ 28" | "?h = 10 ^ 28" by fastforce
    then show ?thesis
    proof cases
      case 2
      then have "ctx28 x = of_int 1 * 10 powi (adjusted x + 1)"
        unfolding e by (simp add: power_int_diff power_int_add)
      then show ?thesis by (intro ctx28_exact [of _ 1 "adjusted x + 1"]) auto
    qed (use e in \<open>auto intro: ctx28_exact\<close>)
  qed
  consider "x = 0" | "0 < x" | "0 < - x" by linarith
  then show ?thesis
  proof cases
    case 3
    from pos [OF this] show ?thesis by (simp add: ctx28_uminus)
  qed (use pos in auto)
qed

lemma dadd_mono: "a \<le> b \<Longrightarrow> c \<le> d \<Longrightarrow> dadd a c \<le> dadd b d"
  by (simp add: dadd_def ctx28_mono add_mono)

lemma dmul_mono: "a \<le> b \<Longrightarrow> c \<le> d \<Longrightarrow> 0 \<le> b \<Longrightarrow> 0 \<le> c \<Longrightarrow> dmul a c \<le> dmul b d"
  by (simp add: dmul_def ctx28_mono mult_mono)

lemma ddiv_mono: "a \<le> b \<Longrightarrow> 0 < c \<Longrightarrow> ddiv a c \<le> ddiv b c"
  by (simp add: ddiv_def ctx28_mono divide_right_mono)

lemma dadd_nonneg: "0 \<le> a \<Longrightarrow> 0 \<le> b \<Longrightarrow> 0 \<le> dadd a b"
  by (simp add: dadd_def ctx28_nonneg)

lemma dmul_nonneg: "0 \<le> a \<Longrightarrow> 0 \<le> b \<Longrightarrow> 0 \<le> dmul a b"
  by (simp add: dmul_def ctx28_nonneg)

lemma ddiv_nonneg: "0 \<le> a \<Longrightarrow> 0 < b \<Longrightarrow> 0 \<le> ddiv a b"
  by (simp add: ddiv_def ctx28_nonneg)

section \<open>Money\<close>

text \<open>\<open>quantize(Decimal("0.01"))\<close> in the two modes, as a number of cents and as a Decimal.\<close>

definition cents_up :: "rat \<Rightarrow> int" where
  "cents_up x = half_up (x * 100)"

definition cents_even :: "rat \<Rightarrow> int" where
  "cents_even x = half_even (x * 100)"

definition of_cents :: "int \<Rightarrow> rat" where
  "of_cents c = of_int c / 100"

lemma cents_up_of_cents [simp, dec_simps]: "cents_up (of_cents c) = c"
  by (simp add: cents_up_def of_cents_def)

lemma cents_even_of_cents [simp, dec_simps]: "cents_even (of_cents c) = c"
  by (simp add: cents_even_def of_cents_def)

lemma of_cents_mono [simp]: "of_cents a \<le> of_cents b \<longleftrightarrow> a \<le> b"
  by (simp add: of_cents_def divide_right_mono field_simps)

lemma of_cents_less [simp]: "of_cents a < of_cents b \<longleftrightarrow> a < b"
  by (simp add: of_cents_def divide_strict_right_mono field_simps)

lemma of_cents_0 [simp]: "of_cents 0 = 0" and of_cents_inj [simp]: "of_cents a = of_cents b \<longleftrightarrow> a = b"
  by (simp_all add: of_cents_def)

lemma of_cents_nonneg [simp]: "0 \<le> of_cents a \<longleftrightarrow> 0 \<le> a" and of_cents_pos [simp]: "0 < of_cents a \<longleftrightarrow> 0 < a"
  by (simp_all add: of_cents_def)

lemma cents_up_mono: "x \<le> y \<Longrightarrow> cents_up x \<le> cents_up y"
  by (simp add: cents_up_def half_up_mono)

lemma cents_even_mono: "x \<le> y \<Longrightarrow> cents_even x \<le> cents_even y"
  by (simp add: cents_even_def half_even_mono)

lemma cents_up_nonneg: "0 \<le> x \<Longrightarrow> 0 \<le> cents_up x"
  by (simp add: cents_up_def half_up_nonneg)

lemma cents_even_nonneg: "0 \<le> x \<Longrightarrow> 0 \<le> cents_even x"
  by (simp add: cents_even_def half_even_nonneg)

lemma cents_up_error: "\<bar>of_cents (cents_up x) - x\<bar> \<le> 1/200"
  using half_up_error [of "x * 100"] by (simp add: cents_up_def of_cents_def abs_le_iff field_simps)

lemma cents_even_error: "\<bar>of_cents (cents_even x) - x\<bar> \<le> 1/200"
  using half_even_error [of "x * 100"] by (simp add: cents_even_def of_cents_def abs_le_iff field_simps)

section \<open>First match in a list\<close>

lemma find_append:
  "List.find P (xs @ ys) = (case List.find P xs of None \<Rightarrow> List.find P ys | Some x \<Rightarrow> Some x)"
  by (induction xs) auto

text \<open>\<^verbatim>\<open>value.quantize(Decimal("0.01"), rounding=ROUND_HALF_UP)\<close>.\<close>

definition money :: "rat \<Rightarrow> rat" where "money x = of_cents (cents_up x)"

lemma money_mono: "x \<le> y \<Longrightarrow> money x \<le> money y"
  by (simp add: money_def cents_up_mono)

lemma money_nonneg: "0 \<le> x \<Longrightarrow> 0 \<le> money x"
  by (simp add: money_def cents_up_nonneg)

lemma money_of_cents [simp]: "money (of_cents c) = of_cents c" and money_idem [simp]: "money (money x) = money x"
  by (simp_all add: money_def)

lemma money_0 [simp]: "money 0 = 0"
  using money_of_cents [of 0] by simp

text \<open>Membership in a filtered map.\<close>

lemma in_map_filter: "y \<in> set (List.map_filter f xs) \<longleftrightarrow> (\<exists>x \<in> set xs. f x = Some y)"
  by (induction xs) (auto simp: List.map_filter_simps split: option.splits)

end
