(* ===== verification/Calendar.thy ===== *)
theory Calendar
  imports Prelude
begin

text \<open>
  The part of Python's \<^verbatim>\<open>datetime\<close> and \<^verbatim>\<open>calendar\<close> modules that the program's time code uses:
  the proleptic Gregorian date, its ordinal (\<^verbatim>\<open>date.toordinal\<close>, day 1 is 0001-01-01), the inverse
  (\<^verbatim>\<open>date.fromordinal\<close>), \<^verbatim>\<open>calendar.monthrange\<close>, \<^verbatim>\<open>date.weekday\<close> and \<^verbatim>\<open>date + timedelta\<close> with its
  \<open>OverflowError\<close>. The lemmas show that ordinals and dates are in bijection and that the date
  order is the ordinal order.
\<close>

datatype date = Date (year: int) (month: int) (day: int)

instantiation date :: linorder
begin

definition less_eq_date :: "date \<Rightarrow> date \<Rightarrow> bool" where
  "less_eq_date a b = (year a < year b \<or> year a = year b \<and>
     (month a < month b \<or> month a = month b \<and> day a \<le> day b))"

definition less_date :: "date \<Rightarrow> date \<Rightarrow> bool" where
  "less_date a b = (year a < year b \<or> year a = year b \<and>
     (month a < month b \<or> month a = month b \<and> day a < day b))"

instance
  by standard (auto simp: less_eq_date_def less_date_def date.expand)

end

definition leap :: "int \<Rightarrow> bool" where
  "leap y = (y mod 4 = 0 \<and> (y mod 100 \<noteq> 0 \<or> y mod 400 = 0))"

definition month_days :: "int \<Rightarrow> int \<Rightarrow> int" where
  "month_days y m = (if m = 2 then (if leap y then 29 else 28)
     else if m = 4 \<or> m = 6 \<or> m = 9 \<or> m = 11 then 30 else 31)"

definition valid_date :: "date \<Rightarrow> bool" where
  "valid_date d = (1 \<le> month d \<and> month d \<le> 12 \<and> 1 \<le> day d \<and> day d \<le> month_days (year d) (month d))"

text \<open>Days of a year before each month, and of the calendar before a year.\<close>

definition days_before_month :: "bool \<Rightarrow> int \<Rightarrow> int" where
  "days_before_month lp m =
     (if m \<le> 1 then 0 else if m = 2 then 31
      else (if lp then 1 else 0) +
        (if m = 3 then 59 else if m = 4 then 90 else if m = 5 then 120 else if m = 6 then 151
         else if m = 7 then 181 else if m = 8 then 212 else if m = 9 then 243
         else if m = 10 then 273 else if m = 11 then 304 else if m = 12 then 334 else 365))"

definition days_before_year :: "int \<Rightarrow> int" where
  "days_before_year y = (y - 1) * 365 + (y - 1) div 4 - (y - 1) div 100 + (y - 1) div 400"

definition toordinal :: "date \<Rightarrow> int" where
  "toordinal d = days_before_year (year d) + days_before_month (leap (year d)) (month d) + day d"

text \<open>The month that holds the zero-based day \<open>r\<close> of a year.\<close>

definition month_of :: "bool \<Rightarrow> int \<Rightarrow> int" where
  "month_of lp r = (let b = days_before_month lp in
     if r < b 2 then 1 else if r < b 3 then 2 else if r < b 4 then 3 else if r < b 5 then 4
     else if r < b 6 then 5 else if r < b 7 then 6 else if r < b 8 then 7 else if r < b 9 then 8
     else if r < b 10 then 9 else if r < b 11 then 10 else if r < b 12 then 11 else 12)"

definition year_day :: "int \<Rightarrow> int \<Rightarrow> date" where
  "year_day y r = (let m = month_of (leap y) r in Date y m (r - days_before_month (leap y) m + 1))"

text \<open>
  \<^verbatim>\<open>date.fromordinal\<close>: whole 400-year cycles, then centuries, four-year cycles and years; the last
  day of a leap cycle overflows its year digit and is 31 December.
\<close>

definition fromordinal :: "int \<Rightarrow> date" where
  "fromordinal n =
     (let n0 = n - 1; n400 = n0 div 146097; r400 = n0 mod 146097;
          n100 = r400 div 36524; r100 = r400 mod 36524;
          n4 = r100 div 1461; r4 = r100 mod 1461;
          n1 = r4 div 365; r1 = r4 mod 365;
          y = n400 * 400 + n100 * 100 + n4 * 4 + n1 + 1
      in if n1 = 4 \<or> n100 = 4 then Date (y - 1) 12 31 else year_day y r1)"

definition year_length :: "int \<Rightarrow> int" where
  "year_length y = (if leap y then 366 else 365)"

lemma century_dvd:
  fixes y :: int
  shows "y mod 100 = 0 \<Longrightarrow> y mod 4 = 0" "y mod 400 = 0 \<Longrightarrow> y mod 100 = 0"
proof -
  have "(4::int) dvd 100" "(100::int) dvd 400" by simp_all
  then show "y mod 100 = 0 \<Longrightarrow> y mod 4 = 0" "y mod 400 = 0 \<Longrightarrow> y mod 100 = 0"
    by (metis dvd_trans mod_eq_0_iff_dvd)+
qed

lemma days_before_year_Suc: "days_before_year (y + 1) = days_before_year y + year_length y"
proof -
  have s: "(z + 1) div k = z div k + (if (z + 1) mod k = 0 then 1 else 0)" if "0 < k" for z k :: int
  proof -
    define q r where "q = z div k" and "r = z mod k"
    have z: "z = k * q + r" and r: "0 \<le> r" "r < k"
      using that by (simp_all add: q_def r_def)
    show ?thesis
    proof (cases "r + 1 = k")
      case True
      then have "z + 1 = k * (q + 1)" using z by (simp add: algebra_simps)
      then show ?thesis using that by (simp add: q_def)
    next
      case False
      with r have lt: "r + 1 < k" by simp
      have e: "z + 1 = k * q + (r + 1)" using z by simp
      have "(z + 1) div k = q" "(z + 1) mod k = r + 1"
        using lt r by (intro int_div_pos_eq [OF e] int_mod_pos_eq [OF e]; simp)+
      then show ?thesis using r by (simp add: q_def)
    qed
  qed
  note m = century_dvd [of y]
  have d: "y div 4 = (y - 1) div 4 + (if y mod 4 = 0 then 1 else 0)"
    "y div 100 = (y - 1) div 100 + (if y mod 100 = 0 then 1 else 0)"
    "y div 400 = (y - 1) div 400 + (if y mod 400 = 0 then 1 else 0)"
    using s [of 4 "y - 1"] s [of 100 "y - 1"] s [of 400 "y - 1"]
    by (simp_all only: diff_add_cancel zero_less_numeral)
  define A B C where "A = (y - 1) div 4" and "B = (y - 1) div 100" and "C = (y - 1) div 400"
  define p q r where "p = (y mod 4 = 0)" and "q = (y mod 100 = 0)" and "r = (y mod 400 = 0)"
  note abbr = A_def [symmetric] B_def [symmetric] C_def [symmetric] p_def [symmetric] q_def [symmetric] r_def [symmetric]
  have "days_before_year (y + 1) = y * 365 + y div 4 - y div 100 + y div 400"
    by (simp only: days_before_year_def add_diff_cancel_right')
  also have "\<dots> = (y - 1) * 365 + A - B + C + (if p \<and> (\<not> q \<or> r) then 366 else 365)"
    unfolding d abbr using m unfolding abbr by auto
  finally show ?thesis
    by (simp only: days_before_year_def year_length_def leap_def abbr)
qed

lemma days_before_year_mono_aux: "days_before_year y + year_length y \<le> days_before_year (y + 1 + int k)"
proof (induction k)
  case 0
  show ?case by (simp add: days_before_year_Suc)
next
  case (Suc k)
  have "days_before_year (y + 1 + int (Suc k)) = days_before_year (y + 1 + int k) + year_length (y + 1 + int k)"
    using days_before_year_Suc [of "y + 1 + int k"] by (simp add: add.assoc add.commute add.left_commute)
  with Suc show ?case by (simp add: year_length_def)
qed

lemma days_before_year_less: "a < b \<Longrightarrow> days_before_year a + year_length a \<le> days_before_year b"
  using days_before_year_mono_aux [of a "nat (b - a - 1)"] by simp

lemma month_cases:
  fixes m :: int
  assumes "1 \<le> m" "m \<le> 12"
  obtains "m = 1" | "m = 2" | "m = 3" | "m = 4" | "m = 5" | "m = 6" | "m = 7" | "m = 8" | "m = 9"
    | "m = 10" | "m = 11" | "m = 12"
proof -
  have "m = 1 \<or> m = 2 \<or> m = 3 \<or> m = 4 \<or> m = 5 \<or> m = 6 \<or> m = 7 \<or> m = 8 \<or> m = 9 \<or> m = 10 \<or> m = 11 \<or> m = 12"
    using assms by presburger
  then show thesis using that by blast
qed

lemma days_before_month_Suc:
  assumes "1 \<le> m" "m < 12"
  shows "days_before_month (leap y) (m + 1) = days_before_month (leap y) m + month_days y m"
  by (rule month_cases [of m]) (use assms in \<open>simp_all add: days_before_month_def month_days_def\<close>)

lemma days_before_month_12: "days_before_month (leap y) 12 + 31 = year_length y"
  by (simp add: days_before_month_def year_length_def)

lemma month_days_bounds: "28 \<le> month_days y m" "month_days y m \<le> 31"
  by (simp_all add: month_days_def)

lemma days_before_month_less:
  assumes "1 \<le> m" "m < m'" "m' \<le> 12"
  shows "days_before_month (leap y) m + month_days y m \<le> days_before_month (leap y) m'"
proof -
  have "1 \<le> m'" "m \<le> 12" using assms by simp_all
  then show ?thesis
    using month_cases [OF assms(1)] assms(2,3)
    by - (rule month_cases [OF assms(1) \<open>m \<le> 12\<close>]; rule month_cases [OF \<open>1 \<le> m'\<close> assms(3)];
        simp add: days_before_month_def month_days_def)
qed

lemma month_end_in_year:
  assumes "1 \<le> m" "m \<le> 12"
  shows "days_before_month (leap y) m + month_days y m \<le> year_length y"
  by (rule month_cases [OF assms]) (simp_all add: days_before_month_def month_days_def year_length_def)

lemma days_before_month_nonneg: "0 \<le> days_before_month lp m"
  by (simp add: days_before_month_def)

text \<open>A valid date lies inside its year and its month.\<close>

lemma toordinal_year:
  assumes "valid_date d"
  shows "days_before_year (year d) < toordinal d" "toordinal d \<le> days_before_year (year d) + year_length (year d)"
  using assms month_end_in_year [of "month d" "year d"] days_before_month_nonneg [of "leap (year d)" "month d"]
  by (auto simp: valid_date_def toordinal_def)

lemma toordinal_strict_mono:
  assumes "valid_date a" "valid_date b" "a < b"
  shows "toordinal a < toordinal b"
proof -
  from assms(3) consider "year a < year b" | "year a = year b" "month a < month b"
    | "year a = year b" "month a = month b" "day a < day b"
    by (auto simp: less_date_def)
  then show ?thesis
  proof cases
    case 1
    with days_before_year_less [OF 1] toordinal_year [OF assms(1)] toordinal_year [OF assms(2)]
    show ?thesis by linarith
  next
    case 2
    with assms(1,2) days_before_month_less [of "month a" "month b" "year b"] show ?thesis
      by (auto simp: valid_date_def toordinal_def)
  next
    case 3
    then show ?thesis by (simp add: toordinal_def)
  qed
qed

lemma toordinal_less_iff:
  assumes "valid_date a" "valid_date b"
  shows "toordinal a < toordinal b \<longleftrightarrow> a < b"
  using toordinal_strict_mono [OF assms] toordinal_strict_mono [OF assms(2,1)]
  by (metis less_irrefl less_linear less_trans)

lemma toordinal_inj:
  "valid_date a \<Longrightarrow> valid_date b \<Longrightarrow> toordinal a = toordinal b \<Longrightarrow> a = b"
  using toordinal_less_iff [of a b] toordinal_less_iff [of b a] by (metis less_irrefl linorder_neqE)

section \<open>The inverse\<close>

lemma month_of_correct:
  assumes "0 \<le> r" "r < year_length y"
  defines "m \<equiv> month_of (leap y) r"
  shows "1 \<le> m" "m \<le> 12" "days_before_month (leap y) m \<le> r"
    "r < days_before_month (leap y) m + month_days y m"
  using assms unfolding m_def month_of_def Let_def year_length_def
  by (cases "leap y"; simp add: days_before_month_def month_days_def split: if_splits)+

lemma year_day_correct:
  assumes "0 \<le> r" "r < year_length y"
  shows "valid_date (year_day y r)" "toordinal (year_day y r) = days_before_year y + r + 1"
    "year (year_day y r) = y"
  using month_of_correct [OF assms]
  by (auto simp: year_day_def Let_def valid_date_def toordinal_def)

lemma mod_zero_small:
  fixes v k :: int
  assumes "0 < v" "v \<le> k"
  shows "v mod k = 0 \<longleftrightarrow> v = k"
  using assms by (cases "v = k") auto

lemma december_31:
  "valid_date (Date y 12 31)" "toordinal (Date y 12 31) = days_before_year y + year_length y"
  using days_before_month_12 [of y] by (simp_all add: valid_date_def month_days_def toordinal_def)

lemma days_before_year_digits:
  assumes "0 \<le> b" "b \<le> 3" "0 \<le> c" "c \<le> 24" "0 \<le> d" "d \<le> (3::int)"
  shows "days_before_year (a * 400 + b * 100 + c * 4 + d + 1) = 146097 * a + 36524 * b + 1461 * c + 365 * d"
    "leap (a * 400 + b * 100 + c * 4 + d + 1) \<longleftrightarrow> d = 3 \<and> (c \<noteq> 24 \<or> b = 3)"
proof -
  let ?z = "a * 400 + b * 100 + c * 4 + d"
  have q: "?z div 4 = a * 100 + b * 25 + c" "?z div 100 = a * 4 + b" "?z div 400 = a"
    using assms int_div_pos_eq [of ?z 4 "a * 100 + b * 25 + c" d]
      int_div_pos_eq [of ?z 100 "a * 4 + b" "c * 4 + d"]
      int_div_pos_eq [of ?z 400 a "b * 100 + c * 4 + d"] by simp_all
  show "days_before_year (?z + 1) = 146097 * a + 36524 * b + 1461 * c + 365 * d"
    by (simp add: days_before_year_def q)
  have e: "?z + 1 = (d + 1) + 4 * (a * 100 + b * 25 + c)"
    "?z + 1 = (c * 4 + d + 1) + 100 * (a * 4 + b)"
    "?z + 1 = (b * 100 + c * 4 + d + 1) + 400 * a"
    by simp_all
  have m: "(?z + 1) mod 4 = 0 \<longleftrightarrow> d = 3"
    unfolding e(1) mod_mult_self2 using assms mod_zero_small [of "d + 1" 4] by simp
  have v: "c * 4 + d + 1 = 100 \<longleftrightarrow> d = 3 \<and> c = 24"
    "b * 100 + c * 4 + d + 1 = 400 \<longleftrightarrow> d = 3 \<and> c = 24 \<and> b = 3"
    using assms by presburger+
  have m2: "(?z + 1) mod 100 = 0 \<longleftrightarrow> d = 3 \<and> c = 24"
    unfolding e(2) mod_mult_self2 using assms mod_zero_small [of "c * 4 + d + 1" 100] v(1) by simp
  have m3: "(?z + 1) mod 400 = 0 \<longleftrightarrow> d = 3 \<and> c = 24 \<and> b = 3"
    unfolding e(3) mod_mult_self2 using assms mod_zero_small [of "b * 100 + c * 4 + d + 1" 400] v(2) by simp
  show "leap (?z + 1) \<longleftrightarrow> d = 3 \<and> (c \<noteq> 24 \<or> b = 3)"
    unfolding leap_def m m2 m3 by auto
qed

lemma fromordinal_correct: "valid_date (fromordinal n)" "toordinal (fromordinal n) = n"
proof -
  define n0 where "n0 = n - 1"
  define a r400 where "a = n0 div 146097" and "r400 = n0 mod 146097"
  define b r100 where "b = r400 div 36524" and "r100 = r400 mod 36524"
  define c r4 where "c = r100 div 1461" and "r4 = r100 mod 1461"
  define d r1 where "d = r4 div 365" and "r1 = r4 mod 365"
  note defs = a_def r400_def b_def r100_def c_def r4_def d_def r1_def
  have n0: "n0 = 146097 * a + r400" "r400 = 36524 * b + r100" "r100 = 1461 * c + r4" "r4 = 365 * d + r1"
    by (simp_all add: defs)
  have rng: "0 \<le> r400" "r400 < 146097" "0 \<le> r100" "r100 < 36524" "0 \<le> r4" "r4 < 1461" "0 \<le> r1" "r1 < 365"
    by (simp_all add: defs)
  have b: "0 \<le> b" "b \<le> 4" and c: "0 \<le> c" "c \<le> 24" and d: "0 \<le> d" "d \<le> 4"
    using n0 rng by linarith+
  let ?y = "a * 400 + b * 100 + c * 4 + d + 1"
  have f: "fromordinal n = (if d = 4 \<or> b = 4 then Date (?y - 1) 12 31 else year_day ?y r1)"
    by (simp add: fromordinal_def Let_def n0_def [symmetric] defs)
  have "valid_date (fromordinal n) \<and> toordinal (fromordinal n) = n"
  proof (cases "d = 4 \<or> b = 4")
    case False
    then have bd: "b \<le> 3" "d \<le> 3" using b d by simp_all
    note dg = days_before_year_digits [OF b(1) bd(1) c d(1) bd(2), of a]
    have "r1 < year_length ?y" using rng by (simp add: year_length_def)
    note yd = year_day_correct [OF rng(7) this]
    show ?thesis
      using False yd n0 dg(1) by (simp add: f n0_def)
  next
    case True
    then consider "b = 4" | "b \<le> 3" "d = 4" using b by linarith
    then show ?thesis
    proof cases
      case 1
      then have z: "r100 = 0" "c = 0" "r4 = 0" "d = 0" "r1 = 0"
        using n0 rng b c d by linarith+
      have y: "?y - 1 = a * 400 + 3 * 100 + 24 * 4 + 3 + 1" by (simp add: 1 z)
      have "days_before_year (?y - 1) + year_length (?y - 1) = n"
        unfolding y using days_before_year_digits [of 3 24 3 a] 1 z n0 n0_def by (simp add: year_length_def)
      with True december_31 [of "?y - 1"] show ?thesis by (simp only: f if_True)
    next
      case 2
      then have r: "r1 = 0" "r4 = 1460" using n0 rng by linarith+
      have bc: "c \<noteq> 24 \<or> b = 3" using 2 n0 rng r by linarith
      have y: "?y - 1 = a * 400 + b * 100 + c * 4 + 3 + 1" by (simp add: 2)
      have "days_before_year (?y - 1) + year_length (?y - 1) = n"
        unfolding y using days_before_year_digits [OF b(1) 2(1) c, of 3 a] bc r n0 n0_def
        by (simp add: year_length_def)
      with True december_31 [of "?y - 1"] show ?thesis by (simp only: f if_True)
    qed
  qed
  then show "valid_date (fromordinal n)" "toordinal (fromordinal n) = n" by auto
qed

declare fromordinal_correct [simp]

lemma fromordinal_toordinal [simp]: "valid_date d \<Longrightarrow> fromordinal (toordinal d) = d"
  by (rule toordinal_inj) simp_all

lemma fromordinal_less_iff [simp]: "fromordinal a < fromordinal b \<longleftrightarrow> a < b"
  using toordinal_less_iff [of "fromordinal a" "fromordinal b"] by simp

lemma fromordinal_inj [simp]: "fromordinal a = fromordinal b \<longleftrightarrow> a = b"
  by (metis fromordinal_correct(2))

section \<open>The supported range, weekdays and day arithmetic\<close>

definition max_ordinal :: int where "max_ordinal = 3652059"

datatype time_error =
    TemporalResolutionError string
  | TimeOverflow
  | DateValueError

text \<open>\<^verbatim>\<open>date(y, m, d)\<close>: a \<open>ValueError\<close> outside years 1 to 9999.\<close>

definition mk_date :: "int \<Rightarrow> int \<Rightarrow> int \<Rightarrow> time_error + date" where
  "mk_date y m d = (if 1 \<le> y \<and> y \<le> 9999 \<and> valid_date (Date y m d) then Inr (Date y m d)
     else Inl DateValueError)"

text \<open>\<^verbatim>\<open>d + timedelta(days=k)\<close>.\<close>

definition add_days :: "date \<Rightarrow> int \<Rightarrow> time_error + date" where
  "add_days d k = (let n = toordinal d + k in
     if 1 \<le> n \<and> n \<le> max_ordinal then Inr (fromordinal n) else Inl TimeOverflow)"

text \<open>\<^verbatim>\<open>date.weekday()\<close>: Monday is 0.\<close>

definition weekday :: "date \<Rightarrow> int" where
  "weekday d = (toordinal d + 6) mod 7"

lemma add_days_Inr: "add_days d k = Inr e \<longleftrightarrow>
    e = fromordinal (toordinal d + k) \<and> 1 \<le> toordinal d + k \<and> toordinal d + k \<le> max_ordinal"
  by (auto simp: add_days_def Let_def)

lemma weekday_bounds: "0 \<le> weekday d" "weekday d < 7"
  by (simp_all add: weekday_def)

lemma month_index_less:
  fixes y y' m m' :: int
  assumes "y * 12 + m < y' * 12 + m'" "1 \<le> m" "m \<le> 12" "1 \<le> m'" "m' \<le> 12"
  shows "Date y m d < Date y' m' d'"
  using assms by (auto simp: less_date_def)

end
