(* ===== verification/Temporal.thy ===== *)
theory Temporal
  imports Calendar
begin

text \<open>
  The canonical temporal resolver, \<^verbatim>\<open>app/utils/canonical_temporal_resolver.py\<close>.

  An aware timestamp is its UTC instant, in microseconds since 0001-01-01T00:00Z; a wall time is
  the same count on a naive local clock. \<^verbatim>\<open>pytz\<close> is not part of the repository: a time zone is the
  record \<open>tzinfo\<close> of the four things the code asks of it, and \<open>lawful_tz\<close> states what the theorems assume of
  a class's zone. The class table and the zone database are the record \<open>time_env\<close>.
  Keyword arguments are the record \<open>kwargs\<close>; an absent argument is \<open>None\<close> and a value of the wrong
  Python type has a constructor of its own, because the code tests for it.
\<close>

type_synonym instant = int
type_synonym wall = int

datatype timestamp = Aware instant | Naive wall

datatype wall_kind = UniqueTime | AmbiguousTime | NonExistentTime

record tzinfo =
  zone :: string
  utcoffset :: "instant \<Rightarrow> int"
  tz_localize :: "wall \<Rightarrow> bool \<Rightarrow> instant"
  kind_of_wall :: "wall \<Rightarrow> wall_kind"

definition second_us :: int where "second_us = 1000000"
definition day_us :: int where "day_us = 86400 * second_us"

definition local_wall :: "tzinfo \<Rightarrow> instant \<Rightarrow> wall" where
  "local_wall tz i = i + utcoffset tz i"

definition wall_date :: "wall \<Rightarrow> date" where
  "wall_date w = fromordinal (w div day_us + 1)"

definition wall_time :: "wall \<Rightarrow> int" where
  "wall_time w = w mod day_us"

text \<open>\<^verbatim>\<open>datetime.combine(d, t)\<close> with \<open>t\<close> in microseconds after midnight.\<close>

definition combine :: "date \<Rightarrow> int \<Rightarrow> wall" where
  "combine d t = (toordinal d - 1) * day_us + t"

definition local_date :: "tzinfo \<Rightarrow> instant \<Rightarrow> date" where
  "local_date tz i = wall_date (local_wall tz i)"

text \<open>\<^verbatim>\<open>tz.localize(datetime.combine(d, time.min))\<close>, as an instant.\<close>

definition midnight :: "tzinfo \<Rightarrow> date \<Rightarrow> instant" where
  "midnight tz d = tz_localize tz (combine d 0) False"

text \<open>
  What the theorems assume of a zone. Localizing a wall time that exists exactly once gives the instant at which
  the local clock reads it, as pytz documents. A class-local day starts at its localized midnight: instants before it
  have an earlier local date, instants from it on have that date or a later one. The second clause is not a promise of
  pytz: it restricts the theorems to zones whose clock is never put back over a local midnight. Zones such as Havana and
  the Azores do that every year and others (Toronto, Paris, Tokyo) did on past dates; for those dates nothing is claimed.
\<close>

definition lawful_tz :: "tzinfo \<Rightarrow> bool" where
  "lawful_tz tz = ((\<forall>w b. kind_of_wall tz w = UniqueTime \<longrightarrow> local_wall tz (tz_localize tz w b) = w)
     \<and> (\<forall>d i. valid_date d \<longrightarrow> (midnight tz d \<le> i \<longleftrightarrow> d \<le> local_date tz i)))"

section \<open>Keyword arguments and results\<close>

datatype pydate = PDate date | PDatetime timestamp | PNotDate
datatype pyint = PInt int | PBool bool | PNotInt
datatype pytime = PTime int | PTimeAware | PNotTime

record kwargs =
  kw_candidate :: "timestamp option"
  kw_reference :: "timestamp option"
  kw_start_boundary :: "timestamp option"
  kw_end_boundary :: "timestamp option"
  kw_start :: "timestamp option"
  kw_target :: "timestamp option"
  kw_timestamp :: "timestamp option"
  kw_evaluation_date :: "pydate option"
  kw_anchor_date :: "pydate option"
  kw_date :: "pydate option"
  kw_time :: "pytime option"
  kw_period :: "string option"
  kw_cadence :: "string option"
  kw_overflow :: "string option"
  kw_index :: "pyint option"
  kw_days :: "pyint option"
  kw_elapsed_seconds :: "pyint option"
  kw_intervals :: "(timestamp option \<times> timestamp option) list"

definition no_kwargs :: kwargs where
  "no_kwargs = \<lparr>kw_candidate = None, kw_reference = None, kw_start_boundary = None, kw_end_boundary = None,
     kw_start = None, kw_target = None, kw_timestamp = None, kw_evaluation_date = None,
     kw_anchor_date = None, kw_date = None, kw_time = None, kw_period = None, kw_cadence = None,
     kw_overflow = None, kw_index = None, kw_days = None, kw_elapsed_seconds = None, kw_intervals = []\<rparr>"

datatype tresult =
    RNow (now_local: wall) (now_utc: instant)
  | REarlier (is_earlier: bool)
  | RLater (is_later: bool)
  | RSame (is_same: bool)
  | RBetween (is_between: bool)
  | RElapsed (elapsed_seconds: int)
  | RRemaining (remaining_seconds: int)
  | RDay (evaluation_date: date)
  | RBounds (boundary_start_utc: instant) (boundary_end_utc: instant)
  | RPeriod (period: string) (period_start_utc: instant) (period_end_utc: instant)
  | RShift (shifted_timestamp_utc: instant)
  | RRecur (boundary_date: date) (recur_start_utc: instant)
  | RMinimum (minimum_calendar_days: int)
  | RCalendar (shifted_date: date) (shift_boundary: "instant option") (shift_at: "instant option")
  | RLocal (local_timestamp: wall) (local_timestamp_date: date)

abbreviation tre :: "string \<Rightarrow> time_error + 'a" where
  "tre s \<equiv> Inl (TemporalResolutionError s)"

definition ensure_aware_utc :: "timestamp option \<Rightarrow> time_error + instant" where
  "ensure_aware_utc dt = (case dt of None \<Rightarrow> tre ''Missing required timestamp''
     | Some (Naive w) \<Rightarrow> tre ''Naive timestamp rejected''
     | Some (Aware i) \<Rightarrow> Inr i)"

section \<open>The primitives\<close>

definition p_current_time :: "instant \<Rightarrow> tzinfo \<Rightarrow> kwargs \<Rightarrow> time_error + tresult" where
  "p_current_time ref tz kw = Inr (RNow (local_wall tz ref) ref)"

text \<open>
  Two aware timestamps of one pytz zone compare as instants: equal offsets order like the wall
  clock, and different offsets are different tzinfo objects, which Python compares in UTC.
\<close>

definition p_earlier_than :: "instant \<Rightarrow> tzinfo \<Rightarrow> kwargs \<Rightarrow> time_error + tresult" where
  "p_earlier_than ref tz kw =
     rbind (ensure_aware_utc (kw_candidate kw)) (\<lambda>c.
     rbind (ensure_aware_utc (kw_reference kw)) (\<lambda>r. Inr (REarlier (c < r))))"

definition p_later_than :: "instant \<Rightarrow> tzinfo \<Rightarrow> kwargs \<Rightarrow> time_error + tresult" where
  "p_later_than ref tz kw =
     rbind (ensure_aware_utc (kw_candidate kw)) (\<lambda>c.
     rbind (ensure_aware_utc (kw_reference kw)) (\<lambda>r. Inr (RLater (r < c))))"

definition p_same_instant :: "instant \<Rightarrow> tzinfo \<Rightarrow> kwargs \<Rightarrow> time_error + tresult" where
  "p_same_instant ref tz kw =
     rbind (ensure_aware_utc (kw_candidate kw)) (\<lambda>c.
     rbind (ensure_aware_utc (kw_reference kw)) (\<lambda>r. Inr (RSame (c = r))))"

definition p_between_boundaries :: "instant \<Rightarrow> tzinfo \<Rightarrow> kwargs \<Rightarrow> time_error + tresult" where
  "p_between_boundaries ref tz kw =
     rbind (ensure_aware_utc (kw_candidate kw)) (\<lambda>c.
     rbind (ensure_aware_utc (kw_start_boundary kw)) (\<lambda>s.
     rbind (ensure_aware_utc (kw_end_boundary kw)) (\<lambda>e.
       if e \<le> s then tre ''end_boundary must be after start_boundary''
       else Inr (RBetween (s \<le> c \<and> c < e)))))"

text \<open>\<^verbatim>\<open>int(delta.total_seconds())\<close> truncates toward zero.\<close>

definition int_seconds :: "int \<Rightarrow> int" where
  "int_seconds us = (if 0 \<le> us then us div second_us else - ((- us) div second_us))"

definition p_time_since :: "instant \<Rightarrow> tzinfo \<Rightarrow> kwargs \<Rightarrow> time_error + tresult" where
  "p_time_since ref tz kw =
     rbind (ensure_aware_utc (kw_start kw)) (\<lambda>s.
       let e = int_seconds (ref - s) in
       if e < 0 then tre ''Negative elapsed time in time_since'' else Inr (RElapsed e))"

definition p_time_until :: "instant \<Rightarrow> tzinfo \<Rightarrow> kwargs \<Rightarrow> time_error + tresult" where
  "p_time_until ref tz kw =
     rbind (ensure_aware_utc (kw_target kw)) (\<lambda>t.
       let r = int_seconds (t - ref) in
       if r < 0 then tre ''Negative remaining time in time_until'' else Inr (RRemaining r))"

definition p_current_evaluation_day :: "instant \<Rightarrow> tzinfo \<Rightarrow> kwargs \<Rightarrow> time_error + tresult" where
  "p_current_evaluation_day ref tz kw = Inr (RDay (local_date tz ref))"

definition p_evaluation_day_boundaries :: "instant \<Rightarrow> tzinfo \<Rightarrow> kwargs \<Rightarrow> time_error + tresult" where
  "p_evaluation_day_boundaries ref tz kw =
     rbind (case kw_evaluation_date kw of None \<Rightarrow> Inr (local_date tz ref)
            | Some (PDate d) \<Rightarrow> Inr d
            | Some _ \<Rightarrow> tre ''evaluation_date must be a date, not datetime'') (\<lambda>d.
     rbind (add_days d 1) (\<lambda>next_day. Inr (RBounds (midnight tz d) (midnight tz next_day))))"

definition period_days :: "string \<Rightarrow> date \<Rightarrow> time_error + (date \<times> date)" where
  "period_days p d =
     (if p = ''day'' then rbind (add_days d 1) (\<lambda>e. Inr (d, e))
      else if p = ''week'' then
        rbind (add_days d (- weekday d)) (\<lambda>s. rbind (add_days s 7) (\<lambda>e. Inr (s, e)))
      else rbind (mk_date (year d) (month d) 1) (\<lambda>s.
        rbind (if month d = 12 then mk_date (year d + 1) 1 1
               else mk_date (year d) (month d + 1) 1) (\<lambda>e. Inr (s, e))))"

definition p_evaluation_period_boundaries :: "instant \<Rightarrow> tzinfo \<Rightarrow> kwargs \<Rightarrow> time_error + tresult" where
  "p_evaluation_period_boundaries ref tz kw =
     (let p = norm_lower (kw_period kw) [] in
      if p \<notin> {''day'', ''week'', ''month''} then tre ''period must be one of: day, week, month''
      else rbind (period_days p (local_date tz ref)) (\<lambda>(s, e).
        Inr (RPeriod p (midnight tz s) (midnight tz e))))"

fun read_interval :: "timestamp option \<times> timestamp option \<Rightarrow> time_error + (instant \<times> instant)" where
  "read_interval (start, end) =
     rbind (ensure_aware_utc start) (\<lambda>s. rbind (ensure_aware_utc end) (\<lambda>e.
       if e < s then tre ''Interval has end before start'' else Inr (s, e)))"

fun overlapping :: "(instant \<times> instant) list \<Rightarrow> bool" where
  "overlapping ((s, e) # (s', e') # ivs) = (s' < e \<or> overlapping ((s', e') # ivs))"
| "overlapping _ = False"

definition total_us :: "(instant \<times> instant) list \<Rightarrow> int" where
  "total_us ivs = sum_list (map (\<lambda>(s, e). e - s) ivs)"

definition p_elapsed_duration :: "instant \<Rightarrow> tzinfo \<Rightarrow> kwargs \<Rightarrow> time_error + tresult" where
  "p_elapsed_duration ref tz kw =
     (if kw_intervals kw = [] then tre ''Empty interval list''
      else rbind (rmapM read_interval (kw_intervals kw)) (\<lambda>ivs.
        let normalized = sort_key fst ivs in
        if overlapping normalized then tre ''Overlapping intervals detected''
        else Inr (RElapsed (total_us normalized div second_us))))"

definition p_shift_timestamp :: "instant \<Rightarrow> tzinfo \<Rightarrow> kwargs \<Rightarrow> time_error + tresult" where
  "p_shift_timestamp ref tz kw =
     rbind (ensure_aware_utc (kw_timestamp kw)) (\<lambda>t.
       case kw_elapsed_seconds kw of
         None \<Rightarrow> tre ''Missing required elapsed_seconds''
       | Some PNotInt \<Rightarrow> tre ''elapsed_seconds must be an integer''
       | Some k \<Rightarrow> (let n = (case k of PInt n \<Rightarrow> n | PBool b \<Rightarrow> of_bool b | PNotInt \<Rightarrow> 0);
                        w = local_wall tz t + n * second_us
                    in if 0 \<le> w \<and> w < max_ordinal * day_us then Inr (RShift (t + n * second_us))
                       else Inl TimeOverflow))"

definition month_after :: "date \<Rightarrow> int \<Rightarrow> int \<times> int" where
  "month_after anchor months =
     (let total = year anchor * 12 + (month anchor - 1) + months in (total div 12, total mod 12 + 1))"

definition recurrence_date :: "date \<Rightarrow> string \<Rightarrow> int \<Rightarrow> string \<Rightarrow> time_error + date" where
  "recurrence_date anchor cadence index overflow =
     (if cadence = ''week'' then add_days anchor (7 * index)
      else if overflow \<notin> {''roll_forward'', ''clamp''}
        then tre ''month cadence requires overflow: roll_forward or clamp''
      else (case month_after anchor index of (y, m) \<Rightarrow>
        let last = month_days y m in
        if day anchor \<le> last then mk_date y m (day anchor)
        else if overflow = ''clamp'' then mk_date y m last
        else rbind (mk_date y m 1) (\<lambda>first.
          case month_after first 1 of (y', m') \<Rightarrow> mk_date y' m' 1)))"

definition p_anchored_recurrence_boundary :: "instant \<Rightarrow> tzinfo \<Rightarrow> kwargs \<Rightarrow> time_error + tresult" where
  "p_anchored_recurrence_boundary ref tz kw =
     (case kw_anchor_date kw of
        Some (PDate anchor) \<Rightarrow>
          (let cadence = norm_lower (kw_cadence kw) [] in
           if cadence \<notin> {''week'', ''month''} then tre ''cadence must be one of: week, month''
           else (case kw_index kw of
             Some (PInt index) \<Rightarrow>
               (if index < 0 then tre ''index must be a non-negative integer''
                else rbind (recurrence_date anchor cadence index (norm_lower (kw_overflow kw) [])) (\<lambda>b.
                  Inr (RRecur b (midnight tz b))))
           | _ \<Rightarrow> tre ''index must be a non-negative integer''))
      | _ \<Rightarrow> tre ''anchor_date must be a date, not datetime'')"

definition p_minimum_period_duration :: "instant \<Rightarrow> tzinfo \<Rightarrow> kwargs \<Rightarrow> time_error + tresult" where
  "p_minimum_period_duration ref tz kw =
     (let cadence = norm_lower (kw_cadence kw) [] in
      if cadence = ''week'' then Inr (RMinimum 7)
      else if cadence = ''month'' then Inr (RMinimum 28)
      else tre ''cadence must be one of: week, month'')"

text \<open>
  \<^verbatim>\<open>_localize_wall_time\<close>: a repeated wall time takes its earlier instant; a skipped one takes the
  smallest forward shift onto a time that exists. The candidate order is that of \<^verbatim>\<open>min\<close> over the key
  \<open>(wall \<le> target, |wall - target|)\<close>, with \<open>False < True\<close> and the first of two equal keys.
\<close>

definition gap_key_less :: "tzinfo \<Rightarrow> wall \<Rightarrow> instant \<Rightarrow> instant \<Rightarrow> bool" where
  "gap_key_less tz target a b =
     (let wa = local_wall tz a; wb = local_wall tz b; ka = (wa \<le> target); kb = (wb \<le> target) in
      (\<not> ka \<and> kb) \<or> (ka = kb \<and> \<bar>wa - target\<bar> < \<bar>wb - target\<bar>))"

definition localize_wall_time :: "tzinfo \<Rightarrow> wall \<Rightarrow> instant" where
  "localize_wall_time tz target =
     (case kind_of_wall tz target of
        UniqueTime \<Rightarrow> tz_localize tz target False
      | AmbiguousTime \<Rightarrow> min (tz_localize tz target True) (tz_localize tz target False)
      | NonExistentTime \<Rightarrow>
          (let a = tz_localize tz target False; b = tz_localize tz target True
           in if gap_key_less tz target b a then b else a))"

definition p_shift_calendar_days :: "instant \<Rightarrow> tzinfo \<Rightarrow> kwargs \<Rightarrow> time_error + tresult" where
  "p_shift_calendar_days ref tz kw =
     (case kw_days kw of
        Some (PInt days) \<Rightarrow>
          (if (kw_date kw = None) = (kw_timestamp kw = None)
             then tre ''shift_calendar_days takes exactly one of date or timestamp''
           else if kw_timestamp kw \<noteq> None \<and> kw_time kw \<noteq> None
             then tre ''time applies to a date source only''
           else (case kw_date kw of
             Some (PDate source) \<Rightarrow>
               rbind (add_days source days) (\<lambda>shifted.
                 (case kw_time kw of
                    None \<Rightarrow> Inr (RCalendar shifted (Some (midnight tz shifted)) None)
                  | Some (PTime t) \<Rightarrow> Inr (RCalendar shifted (Some (midnight tz shifted))
                                        (Some (localize_wall_time tz (combine shifted t))))
                  | Some _ \<Rightarrow> tre ''time must be a naive local time of day''))
           | Some _ \<Rightarrow> tre ''date must be a date, not datetime''
           | None \<Rightarrow>
               rbind (ensure_aware_utc (kw_timestamp kw)) (\<lambda>t.
                 let w = local_wall tz t in
                 rbind (add_days (wall_date w) days) (\<lambda>shifted.
                   Inr (RCalendar shifted None
                     (Some (localize_wall_time tz (combine shifted (wall_time w)))))))))
      | _ \<Rightarrow> tre ''days must be an integer'')"

definition p_localize_timestamp :: "instant \<Rightarrow> tzinfo \<Rightarrow> kwargs \<Rightarrow> time_error + tresult" where
  "p_localize_timestamp ref tz kw =
     rbind (ensure_aware_utc (kw_timestamp kw)) (\<lambda>t. Inr (RLocal (local_wall tz t) (local_date tz t)))"

section \<open>The entry point\<close>

record time_env =
  class_rows :: "string \<Rightarrow> string option option"   \<comment> \<open>class row, and its class_timezone column\<close>
  pytz_zones :: "string \<Rightarrow> tzinfo option"
  utc_clock :: instant

record evaluation =
  ev_type :: string
  temporal_authority :: string
  canonical_now :: wall
  canonical_now_utc :: instant
  reference_time_utc :: instant
  ev_class_id :: "string option"
  ev_result :: tresult

definition get_class_timezone :: "time_env \<Rightarrow> string \<Rightarrow> time_error + tzinfo" where
  "get_class_timezone env cid = (case class_rows env cid of
       None \<Rightarrow> tre ''No ClassEconomy found''
     | Some tz_name \<Rightarrow> (case tz_name of
         None \<Rightarrow> tre ''Class has no confirmed timezone; cannot resolve CLE time''
       | Some name \<Rightarrow> if name = [] then tre ''Class has no confirmed timezone; cannot resolve CLE time''
           else (case pytz_zones env name of None \<Rightarrow> tre ''Unknown IANA timezone'' | Some tz \<Rightarrow> Inr tz)))"

definition resolve_authority ::
    "time_env \<Rightarrow> string \<Rightarrow> string option option \<Rightarrow> time_error + (string \<times> string option)" where
  "resolve_authority env etype ctx =
     (if etype = ''SLE'' then Inr (''UTC'', None)
      else (case ctx of
        Some (Some cid) \<Rightarrow>
          (if cid = [] then tre ''CLE requires canonical_execution_context with class_id''
           else rbind (get_class_timezone env cid) (\<lambda>tz.
             if pytz_zones env (zone tz) = None then tre ''Unknown IANA timezone''
             else Inr (zone tz, Some cid)))
      | _ \<Rightarrow> tre ''CLE requires canonical_execution_context with class_id''))"

definition dispatch :: "string \<Rightarrow> (instant \<Rightarrow> tzinfo \<Rightarrow> kwargs \<Rightarrow> time_error + tresult) option" where
  "dispatch p = map_of
     [(''shift_calendar_days'', p_shift_calendar_days), (''localize_timestamp'', p_localize_timestamp),
      (''same_instant'', p_same_instant), (''anchored_recurrence_boundary'', p_anchored_recurrence_boundary),
      (''minimum_period_duration'', p_minimum_period_duration), (''current_time'', p_current_time),
      (''earlier_than'', p_earlier_than), (''later_than'', p_later_than),
      (''between_boundaries'', p_between_boundaries), (''time_since'', p_time_since),
      (''time_until'', p_time_until), (''current_evaluation_day'', p_current_evaluation_day),
      (''evaluation_day_boundaries'', p_evaluation_day_boundaries),
      (''evaluation_period_boundaries'', p_evaluation_period_boundaries),
      (''elapsed_duration'', p_elapsed_duration), (''shift_timestamp'', p_shift_timestamp)] p"

definition canonical_temporal_resolver ::
    "time_env \<Rightarrow> string \<Rightarrow> string option option \<Rightarrow> string \<Rightarrow> timestamp option \<Rightarrow> kwargs \<Rightarrow> time_error + evaluation" where
  "canonical_temporal_resolver env etype ctx primitive ref kw =
     (if etype \<notin> {''SLE'', ''CLE''} then tre ''Unknown evaluation type''
      else (case dispatch primitive of
        None \<Rightarrow> tre ''Unknown primitive''
      | Some handler \<Rightarrow>
          rbind (resolve_authority env etype ctx) (\<lambda>(authority, cid).
            case pytz_zones env authority of
              None \<Rightarrow> tre ''Unknown IANA timezone''
            | Some tz \<Rightarrow>
                rbind (case ref of None \<Rightarrow> Inr (utc_clock env) | Some _ \<Rightarrow> ensure_aware_utc ref) (\<lambda>now.
                rbind (handler now tz kw) (\<lambda>result.
                  Inr \<lparr>ev_type = etype, temporal_authority = authority, canonical_now = local_wall tz now,
                       canonical_now_utc = now, reference_time_utc = now, ev_class_id = cid,
                       ev_result = result\<rparr>)))))"

section \<open>Fixed-offset zones\<close>

text \<open>
  The zones pytz represents by one constant offset, UTC among them (the authority of every
  system-level evaluation). They are lawful, and the witnesses below run in one.
\<close>

definition fixed_zone :: "string \<Rightarrow> int \<Rightarrow> tzinfo" where
  "fixed_zone name off = \<lparr>zone = name, utcoffset = (\<lambda>i. off), tz_localize = (\<lambda>w dst. w - off),
     kind_of_wall = (\<lambda>w. UniqueTime)\<rparr>"

lemma us_pos [simp]: "0 < second_us" "0 < day_us"
  by (simp_all add: second_us_def day_us_def)

lemma wall_date_combine [simp]:
  "valid_date d \<Longrightarrow> 0 \<le> t \<Longrightarrow> t < day_us \<Longrightarrow> wall_date (combine d t) = d"
  by (simp add: wall_date_def combine_def)

lemma wall_time_combine [simp]: "0 \<le> t \<Longrightarrow> t < day_us \<Longrightarrow> wall_time (combine d t) = t"
  by (simp add: wall_time_def combine_def)

lemma wall_time_bounds [simp]: "0 \<le> wall_time w" "wall_time w < day_us"
  by (simp_all add: wall_time_def)

lemma valid_wall_date [simp]: "valid_date (wall_date w)" and valid_local_date [simp]: "valid_date (local_date tz i)"
  by (simp_all add: wall_date_def local_date_def)

lemma combine_wall [simp]: "combine (wall_date w) (wall_time w) = w"
  by (simp add: combine_def wall_date_def wall_time_def)

lemma combine_le_iff: "valid_date d \<Longrightarrow> combine d 0 \<le> w \<longleftrightarrow> d \<le> wall_date w"
proof -
  assume d: "valid_date d"
  have "combine d 0 \<le> w \<longleftrightarrow> toordinal d - 1 \<le> w div day_us"
    by (simp add: combine_def mult_le_iff_le_div)
  also have "\<dots> \<longleftrightarrow> toordinal d \<le> toordinal (wall_date w)"
    unfolding wall_date_def fromordinal_correct(2) by linarith
  also have "\<dots> \<longleftrightarrow> d \<le> wall_date w"
    using toordinal_less_iff [OF valid_wall_date d, of w] by (simp add: not_less [symmetric])
  finally show ?thesis .
qed

lemma lawful_fixed_zone: "lawful_tz (fixed_zone n off)"
  by (auto simp: lawful_tz_def fixed_zone_def local_wall_def midnight_def local_date_def
      combine_le_iff [symmetric])

lemma lawful_midnight: "lawful_tz tz \<Longrightarrow> valid_date d \<Longrightarrow> midnight tz d \<le> i \<longleftrightarrow> d \<le> local_date tz i"
  by (simp add: lawful_tz_def)

lemma lawful_midnight_mono:
  assumes "lawful_tz tz" "valid_date a" "valid_date b" "a < b"
  shows "midnight tz a \<le> midnight tz b" "local_date tz i = a \<Longrightarrow> midnight tz a < midnight tz b"
proof -
  have "b \<le> local_date tz (midnight tz b)"
    using lawful_midnight [OF assms(1,3), of "midnight tz b"] by simp
  then show "midnight tz a \<le> midnight tz b"
    using lawful_midnight [OF assms(1,2), of "midnight tz b"] assms(4) by simp
  assume "local_date tz i = a"
  then have "midnight tz a \<le> i" "\<not> midnight tz b \<le> i"
    using lawful_midnight [OF assms(1,2), of i] lawful_midnight [OF assms(1,3), of i] assms(4) by auto
  then show "midnight tz a < midnight tz b" by linarith
qed

section \<open>Recurrence boundaries\<close>

definition month_number :: "date \<Rightarrow> int" where
  "month_number d = year d * 12 + month d"

lemma month_after_number:
  assumes "month_after d k = (y, m)"
  shows "y * 12 + m = month_number d + k" "1 \<le> m" "m \<le> 12"
  using assms by (auto simp: month_after_def Let_def month_number_def)

lemma mk_date_Inr: "mk_date y m d = Inr e \<longleftrightarrow> e = Date y m d \<and> valid_date e \<and> 1 \<le> y \<and> y \<le> 9999"
  by (auto simp: mk_date_def)

lemma month_number_less:
  "valid_date a \<Longrightarrow> valid_date b \<Longrightarrow> month_number a < month_number b \<Longrightarrow> a < b"
  by (auto simp: month_number_def valid_date_def less_date_def)

text \<open>Where a monthly boundary falls: in its own month, or on the first of the next one.\<close>

lemma recurrence_month_cases:
  assumes "valid_date anchor" "cadence \<noteq> ''week''" "recurrence_date anchor cadence i ov = Inr b"
  shows "valid_date b"
    "(month_number b = month_number anchor + i \<and>
        (day b = day anchor \<or> ov = ''clamp'' \<and> day b = month_days (year b) (month b) \<and> day b < day anchor))
     \<or> (ov = ''roll_forward'' \<and> month_number b = month_number anchor + i + 1 \<and> day b = 1 \<and> 29 \<le> day anchor)"
proof -
  obtain y m where ym: "month_after anchor i = (y, m)" by fastforce
  note n = month_after_number [OF ym]
  show "valid_date b"
    using assms(3) ym by (auto simp: recurrence_date_def Let_def mk_date_Inr add_days_Inr res_simps
        split: if_splits prod.splits)
  have ov: "ov \<in> {''roll_forward'', ''clamp''}"
    using assms(2,3) by (auto simp: recurrence_date_def split: if_splits)
  show "(month_number b = month_number anchor + i \<and>
        (day b = day anchor \<or> ov = ''clamp'' \<and> day b = month_days (year b) (month b) \<and> day b < day anchor))
     \<or> (ov = ''roll_forward'' \<and> month_number b = month_number anchor + i + 1 \<and> day b = 1 \<and> 29 \<le> day anchor)"
  proof (cases "day anchor \<le> month_days y m")
    case True
    with assms(2,3) ov ym n show ?thesis
      by (auto simp: recurrence_date_def Let_def mk_date_Inr month_number_def split: if_splits)
  next
    case False
    then have big: "29 \<le> day anchor" using month_days_bounds(1) [of y m] by linarith
    show ?thesis
    proof (cases "ov = ''clamp''")
      case True
      with False assms(2,3) ym n show ?thesis
        by (auto simp: recurrence_date_def Let_def mk_date_Inr month_number_def split: if_splits)
    next
      case roll: False
      obtain y' m' where ym': "month_after (Date y m 1) 1 = (y', m')" by fastforce
      note n' = month_after_number [OF ym']
      from roll False assms(2,3) ov ym ym' have "mk_date y' m' 1 = Inr b"
        by (auto simp: recurrence_date_def Let_def mk_date_Inr res_simps)
      with n n' ov roll big show ?thesis
        by (auto simp: mk_date_Inr month_number_def)
    qed
  qed
qed

lemma recurrence_strict_mono:
  assumes "valid_date anchor" "i < j"
    and "recurrence_date anchor cadence i ov = Inr a" "recurrence_date anchor cadence j ov = Inr b"
  shows "a < b"
proof (cases "cadence = ''week''")
  case True
  with assms show ?thesis by (auto simp: recurrence_date_def add_days_Inr)
next
  case False
  note A = recurrence_month_cases [OF assms(1) False assms(3)]
  note B = recurrence_month_cases [OF assms(1) False assms(4)]
  show ?thesis
  proof (cases "month_number a < month_number b")
    case True
    then show ?thesis by (rule month_number_less [OF A(1) B(1)])
  next
    case eq: False
    with A(2) B(2) assms(2) have "month_number a = month_number b" "day a = 1" "day b = day anchor" "29 \<le> day anchor"
      by auto
    moreover from this(1) A(1) B(1) have "year a = year b"
      unfolding month_number_def valid_date_def by presburger
    ultimately show ?thesis
      by (auto simp: month_number_def less_date_def)
  qed
qed

text \<open>
  C27. The boundaries of an anchored recurrence never repeat and never go back: for weekly and monthly
  cadences and both overflow rules, the dates of two indexes are strictly ordered as the indexes and
  the instants are ordered the same way, strictly unless the time zone skipped the earlier day whole.
\<close>

theorem recurrence_boundaries_increase:
  assumes "lawful_tz tz" "valid_date anchor" "0 \<le> i" "i < j"
    and "p_anchored_recurrence_boundary ref tz
           (kw\<lparr>kw_anchor_date := Some (PDate anchor), kw_index := Some (PInt i)\<rparr>) = Inr (RRecur a sa)"
    and "p_anchored_recurrence_boundary ref tz
           (kw\<lparr>kw_anchor_date := Some (PDate anchor), kw_index := Some (PInt j)\<rparr>) = Inr (RRecur b sb)"
  shows "a < b \<and> sa \<le> sb \<and> ((\<exists>i. local_date tz i = a) \<longrightarrow> sa < sb)"
proof -
  obtain cad ov where r: "recurrence_date anchor cad i ov = Inr a" "recurrence_date anchor cad j ov = Inr b"
    and cad: "cad \<in> {''week'', ''month''}" and m: "sa = midnight tz a" "sb = midnight tz b"
    using assms(3-6) by (auto simp: p_anchored_recurrence_boundary_def Let_def res_simps split: if_splits)
  have "a < b" by (rule recurrence_strict_mono [OF assms(2,4) r])
  moreover have "valid_date a" "valid_date b"
    using r cad recurrence_month_cases(1) [OF assms(2) _ r(1)] recurrence_month_cases(1) [OF assms(2) _ r(2)]
    by (auto simp: recurrence_date_def add_days_Inr)
  ultimately show ?thesis
    unfolding m using lawful_midnight_mono [OF assms(1)] by blast
qed

theorem recurrence_boundaries_increase_witness:
  "\<exists>a b. recurrence_date (Date 2026 1 31) ''month'' 1 ''roll_forward'' = Inr a \<and> a = Date 2026 3 1 \<and>
    recurrence_date (Date 2026 1 31) ''month'' 2 ''roll_forward'' = Inr b \<and> b = Date 2026 3 31 \<and> a < b"
proof -
  let ?tz = "fixed_zone ''UTC'' 0"
  let ?kw = "no_kwargs\<lparr>kw_cadence := Some ''month'', kw_overflow := Some ''roll_forward''\<rparr>"
  let ?at = "\<lambda>n. p_anchored_recurrence_boundary 0 ?tz
    (?kw\<lparr>kw_anchor_date := Some (PDate (Date 2026 1 31)), kw_index := Some (PInt n)\<rparr>)"
  have n: "norm_lower (Some ''month'') [] = ''month''" "norm_lower (Some ''roll_forward'') [] = ''roll_forward''"
    by code_simp+
  have d: "recurrence_date (Date 2026 1 31) ''month'' 1 ''roll_forward'' = Inr (Date 2026 3 1)"
    "recurrence_date (Date 2026 1 31) ''month'' 2 ''roll_forward'' = Inr (Date 2026 3 31)"
    by code_simp+
  have e: "?at 1 = Inr (RRecur (Date 2026 3 1) (midnight ?tz (Date 2026 3 1)))"
    "?at 2 = Inr (RRecur (Date 2026 3 31) (midnight ?tz (Date 2026 3 31)))"
    by (simp_all add: p_anchored_recurrence_boundary_def n d)
  have "valid_date (Date 2026 1 31)" by code_simp
  from recurrence_boundaries_increase [OF lawful_fixed_zone this _ _ e] show ?thesis
    using d by simp
qed

section \<open>Periods and days\<close>

lemma period_days_contains:
  assumes "valid_date d" "period_days p d = Inr (a, b)"
  shows "valid_date a" "valid_date b" "a \<le> d" "d < b"
proof -
  consider "p = ''day''" | "p = ''week''" | "p \<noteq> ''day''" "p \<noteq> ''week''" by blast
  then have "valid_date a \<and> valid_date b \<and> a \<le> d \<and> d < b"
  proof cases
    case 1
    with assms show ?thesis
      using toordinal_less_iff [OF assms(1), of b] by (auto simp: period_days_def res_simps add_days_Inr)
  next
    case 2
    then have b: "a = fromordinal (toordinal d - weekday d)" "b = fromordinal (toordinal d - weekday d + 7)"
      using assms(2) by (auto simp: period_days_def res_simps add_days_Inr)
    then have "\<not> d < a" "d < b"
      using toordinal_less_iff [OF assms(1), of a] toordinal_less_iff [OF assms(1), of b] weekday_bounds [of d] by auto
    with b show ?thesis by simp
  next
    case 3
    then have "a = Date (year d) (month d) 1" "valid_date a" "valid_date b"
      "b = (if month d = 12 then Date (year d + 1) 1 1 else Date (year d) (month d + 1) 1)"
      using assms(2) by (auto simp: period_days_def res_simps mk_date_Inr split: if_splits)
    with assms(1) show ?thesis
      by (auto simp: less_date_def less_eq_date_def valid_date_def)
  qed
  then show "valid_date a" "valid_date b" "a \<le> d" "d < b" by auto
qed

text \<open>
  The evaluation period the resolver returns for an instant holds that instant: its start is at
  or before it and its (exclusive) end is after it, for days, Monday-start weeks and calendar months
  in any lawful time zone.
\<close>

theorem evaluation_period_contains_reference:
  assumes "lawful_tz tz" "p_evaluation_period_boundaries ref tz kw = Inr (RPeriod p s e)"
  shows "s \<le> ref \<and> ref < e"
proof -
  obtain a b where ab: "period_days p (local_date tz ref) = Inr (a, b)" "s = midnight tz a" "e = midnight tz b"
    using assms(2) by (auto simp: p_evaluation_period_boundaries_def Let_def res_simps split: if_splits)
  note c = period_days_contains [OF valid_local_date ab(1)]
  show ?thesis
    unfolding ab using c lawful_midnight [OF assms(1) c(1), of ref] lawful_midnight [OF assms(1) c(2), of ref]
    by auto
qed

theorem evaluation_period_contains_reference_witness:
  "p_evaluation_period_boundaries (combine (Date 2026 10 1) 5) (fixed_zone ''UTC'' 0)
     (no_kwargs\<lparr>kw_period := Some ''Week''\<rparr>)
     = Inr (RPeriod ''week'' (combine (Date 2026 9 28) 0) (combine (Date 2026 10 5) 0))
   \<and> combine (Date 2026 9 28) 0 \<le> combine (Date 2026 10 1) 5
   \<and> combine (Date 2026 10 1) 5 < combine (Date 2026 10 5) 0"
proof -
  have e: "p_evaluation_period_boundaries (combine (Date 2026 10 1) 5) (fixed_zone ''UTC'' 0)
     (no_kwargs\<lparr>kw_period := Some ''Week''\<rparr>)
     = Inr (RPeriod ''week'' (combine (Date 2026 9 28) 0) (combine (Date 2026 10 5) 0))"
    by code_simp
  from evaluation_period_contains_reference [OF lawful_fixed_zone e] e show ?thesis by simp
qed

section \<open>Elapsed time\<close>

lemma read_intervals_ordered:
  "rmapM read_interval raw = Inr ivs \<Longrightarrow> (s, e) \<in> set ivs \<Longrightarrow> s \<le> e"
proof (induction raw arbitrary: ivs)
  case (Cons r raw)
  then show ?case by (cases r) (auto simp: res_simps split: if_splits)
qed simp

lemma total_us_mset: "mset xs = mset ys \<Longrightarrow> total_us xs = total_us ys"
  unfolding total_us_def by (metis mset_map sum_mset_sum_list)

lemma total_us_nonneg: "(\<And>s e. (s, e) \<in> set ivs \<Longrightarrow> s \<le> e) \<Longrightarrow> 0 \<le> total_us ivs"
  unfolding total_us_def by (rule sum_list_nonneg) auto

text \<open>Disjoint intervals in order fit into the span from the first start to the last end.\<close>

lemma total_us_span:
  assumes "\<not> overlapping ivs" "ivs \<noteq> []" "\<And>s e. (s, e) \<in> set ivs \<Longrightarrow> s \<le> e"
  shows "total_us ivs \<le> snd (last ivs) - fst (hd ivs)"
  using assms
proof (induction ivs rule: overlapping.induct)
  case (1 s e s' e' ivs)
  then have "total_us ((s', e') # ivs) \<le> snd (last ((s', e') # ivs)) - s'"
    by (auto intro!: "1.IH")
  with 1 show ?case by (auto simp: total_us_def)
qed (auto simp: total_us_def)

text \<open>
  Elapsed time is never more than the clock shows. Whatever order the intervals come in, an
  accepted list credits the floor of the exact sum of the interval lengths (truncated once, not per
  interval), and that is at most the span from the earliest start to the end of the last interval.
\<close>

theorem elapsed_duration_bounded_by_span:
  assumes "p_elapsed_duration ref tz kw = Inr (RElapsed n)"
    and "rmapM read_interval (kw_intervals kw) = Inr ivs"
  shows "n = total_us ivs div second_us \<and> 0 \<le> n
    \<and> n * second_us \<le> snd (last (sort_key fst ivs)) - fst (hd (sort_key fst ivs))"
proof -
  let ?s = "sort_key fst ivs"
  have acc: "\<not> overlapping ?s" "n = total_us ?s div second_us" "kw_intervals kw \<noteq> []"
    using assms by (auto simp: p_elapsed_duration_def Let_def split: if_splits)
  have ne: "?s \<noteq> []"
    using acc(3) rmapM_length [OF assms(2)] by (metis length_0_conv length_sort)
  have ord: "\<And>s e. (s, e) \<in> set ?s \<Longrightarrow> s \<le> e"
    using read_intervals_ordered [OF assms(2)] by simp
  have eq: "total_us ?s = total_us ivs" by (rule total_us_mset) simp
  have "n * second_us \<le> total_us ?s"
    by (simp add: acc(2) mult_le_iff_le_div)
  with total_us_span [OF acc(1) ne ord] total_us_nonneg [of ?s, OF ord] acc(2) eq show ?thesis
    by (simp add: pos_imp_zdiv_nonneg_iff)
qed

theorem elapsed_duration_bounded_by_span_witness:
  "p_elapsed_duration 0 (fixed_zone ''UTC'' 0)
     (no_kwargs\<lparr>kw_intervals := [(Some (Aware 5000000), Some (Aware 6600000)), (Some (Aware 0), Some (Aware 1600000))]\<rparr>)
     = Inr (RElapsed 3)
   \<and> (3::int) * second_us \<le> 6600000"
proof -
  let ?kw = "no_kwargs\<lparr>kw_intervals := [(Some (Aware 5000000), Some (Aware 6600000)), (Some (Aware 0), Some (Aware 1600000))]\<rparr>"
  have e: "p_elapsed_duration 0 (fixed_zone ''UTC'' 0) ?kw = Inr (RElapsed 3)"
    and i: "rmapM read_interval (kw_intervals ?kw) = Inr [(5000000, 6600000), (0, 1600000)]"
    by code_simp+
  have l: "snd (last (sort_key fst [(5000000::int, 6600000::int), (0, 1600000)])) = (6600000 :: int)"
    "fst (hd (sort_key fst [(5000000::int, 6600000::int), (0, 1600000)])) = (0 :: int)"
    by code_simp+
  from elapsed_duration_bounded_by_span [OF e i] e l show ?thesis by simp
qed

section \<open>Calendar shifts and the entry point\<close>

text \<open>
  Moving a timestamp by whole calendar days keeps its wall-clock time: when the target wall time
  exists exactly once, the shifted instant reads the same local time of day on the date that many days
  later, whatever the offset is on either day.
\<close>

theorem shift_calendar_days_keeps_wall_time:
  assumes "lawful_tz tz" "kw_timestamp kw = Some (Aware t)" "kw_days kw = Some (PInt n)"
    and "p_shift_calendar_days ref tz kw = Inr (RCalendar d bnd (Some i))"
    and "kind_of_wall tz (combine d (wall_time (local_wall tz t))) = UniqueTime"
  shows "local_date tz i = d \<and> wall_time (local_wall tz i) = wall_time (local_wall tz t)
    \<and> toordinal d = toordinal (local_date tz t) + n"
proof -
  have d: "d = fromordinal (toordinal (local_date tz t) + n)"
    and i: "i = localize_wall_time tz (combine d (wall_time (local_wall tz t)))"
    using assms(2-4) by (auto simp: p_shift_calendar_days_def ensure_aware_utc_def Let_def res_simps
        add_days_Inr local_date_def split: if_splits option.splits pydate.splits)
  have "local_wall tz i = combine d (wall_time (local_wall tz t))"
    unfolding i localize_wall_time_def using assms(1,5) by (simp add: lawful_tz_def)
  then show ?thesis
    using d by (simp add: local_date_def)
qed

theorem shift_calendar_days_keeps_wall_time_witness:
  "let kw = no_kwargs\<lparr>kw_timestamp := Some (Aware (combine (Date 2026 2 28) 7)), kw_days := Some (PInt 1)\<rparr>;
       i = combine (Date 2026 3 1) 7
   in p_shift_calendar_days 0 (fixed_zone ''UTC'' 0) kw = Inr (RCalendar (Date 2026 3 1) None (Some i))
      \<and> local_date (fixed_zone ''UTC'' 0) i = Date 2026 3 1"
proof -
  let ?kw = "no_kwargs\<lparr>kw_timestamp := Some (Aware (combine (Date 2026 2 28) 7)), kw_days := Some (PInt 1)\<rparr>"
  have e: "p_shift_calendar_days 0 (fixed_zone ''UTC'' 0) ?kw
      = Inr (RCalendar (Date 2026 3 1) None (Some (combine (Date 2026 3 1) 7)))"
    by code_simp
  have "local_date (fixed_zone ''UTC'' 0) (combine (Date 2026 3 1) 7) = Date 2026 3 1"
    using shift_calendar_days_keeps_wall_time [OF lawful_fixed_zone _ _ e, of "combine (Date 2026 2 28) 7" 1]
    by (simp add: fixed_zone_def)
  with e show ?thesis by simp
qed

text \<open>
  Class-level evaluation fails closed: it returns a result only for a class that exists and has a
  confirmed time zone the zone database knows; there is no fallback to UTC.
\<close>

theorem class_level_evaluation_fails_closed:
  assumes "canonical_temporal_resolver env ''CLE'' ctx primitive ref kw = Inr ev"
  shows "\<exists>cid name tz. ctx = Some (Some cid) \<and> cid \<noteq> [] \<and> class_rows env cid = Some (Some name) \<and> name \<noteq> []
    \<and> pytz_zones env name = Some tz \<and> temporal_authority ev = zone tz \<and> ev_class_id ev = Some cid"
  using assms
  by (auto simp: canonical_temporal_resolver_def resolve_authority_def get_class_timezone_def res_simps
      split: option.splits if_splits)

theorem class_level_evaluation_fails_closed_witness:
  "let env = \<lparr>class_rows = [''c1'' \<mapsto> Some ''Etc/GMT+5''],
        pytz_zones = [''Etc/GMT+5'' \<mapsto> fixed_zone ''Etc/GMT+5'' (-18000000000)], utc_clock = 0\<rparr>
   in \<exists>ev. canonical_temporal_resolver env ''CLE'' (Some (Some ''c1'')) ''current_time'' None no_kwargs = Inr ev
      \<and> temporal_authority ev = ''Etc/GMT+5''"
proof -
  let ?env = "\<lparr>class_rows = [''c1'' \<mapsto> Some ''Etc/GMT+5''],
        pytz_zones = [''Etc/GMT+5'' \<mapsto> fixed_zone ''Etc/GMT+5'' (-18000000000)], utc_clock = 0\<rparr>"
  have "\<exists>ev. canonical_temporal_resolver ?env ''CLE'' (Some (Some ''c1'')) ''current_time'' None no_kwargs = Inr ev"
    by (simp add: canonical_temporal_resolver_def resolve_authority_def get_class_timezone_def dispatch_def
        p_current_time_def fixed_zone_def)
  then obtain ev where ev:
    "canonical_temporal_resolver ?env ''CLE'' (Some (Some ''c1'')) ''current_time'' None no_kwargs = Inr ev" by blast
  from class_level_evaluation_fails_closed [OF ev] have "temporal_authority ev = ''Etc/GMT+5''"
    by (auto simp: fixed_zone_def split: if_splits)
  with ev show ?thesis by auto
qed

text \<open>
  The sign test of \<^verbatim>\<open>time_since\<close> runs after the truncation to whole seconds, so a start less than a
  second in the future is not refused: it is reported as zero elapsed seconds.
\<close>

theorem time_since_accepts_subsecond_future:
  "0 < d \<Longrightarrow> d < second_us \<Longrightarrow>
     p_time_since ref tz (kw\<lparr>kw_start := Some (Aware (ref + d))\<rparr>) = Inr (RElapsed 0)"
  by (auto simp: p_time_since_def ensure_aware_utc_def int_seconds_def Let_def)

end
