(* ===== verification/Ledger_Core.thy ===== *)
theory Ledger_Core
  imports Prelude
begin

text \<open>
  The ledger's rows and its two writing boundaries: \<^verbatim>\<open>app/services/ledger_posting_service.py\<close> (one
  pending effect) and \<^verbatim>\<open>app/services/ledger_command_service.py\<close> with
  \<^verbatim>\<open>app/utils/transaction_idempotency.py\<close> (a reservation that owns a vector of effects and replays).

  A database state is the record \<open>ledger\<close>; an operation returns an exception or a result with the new
  state, and an exception discards the state, as the rolled-back transaction does. Amounts are exact
  Decimals on the way in (\<^typ>\<open>rat\<close>) and signed cents in the row. A reservation stores a digest; the code
  only ever compares digests, so the digest function is a parameter \<open>digest\<close> on the serialized structure,
  and \<open>inj digest\<close> (no collision) is a hypothesis where a theorem needs it. What other sessions commit
  between this session's read of a reservation and its insert is the parameter \<open>race\<close>.
\<close>

section \<open>Rows\<close>

type_synonym seat_id = nat
type_synonym class_id = string

record tx =
  tx_id :: nat
  tx_seat :: seat_id
  tx_target :: seat_id
  tx_actor :: seat_id
  tx_class :: class_id
  tx_mechanism :: string
  tx_cents :: int
  tx_account :: string
  tx_timestamp :: int
  tx_type :: string
  tx_description :: string
  tx_sequence :: "int option"
  tx_posted_at :: "int option"
  tx_reservation :: "nat option"
  tx_key :: "string option"
  tx_original :: "nat option"
  tx_policy :: "nat option"
  tx_subtype :: "string option"
  tx_correlation :: string
  tx_feat :: string
  tx_comp_origin :: "string option"
  tx_comp_cents :: int
  tx_intent :: "string option"

text \<open>The keyword arguments one effect is created from.\<close>

record effect =
  ef_seat :: seat_id
  ef_class :: class_id
  ef_target :: seat_id
  ef_actor :: seat_id
  ef_mechanism :: string
  ef_amount :: rat
  ef_account :: string
  ef_type :: string
  ef_description :: string
  ef_original :: "nat option"
  ef_policy :: "nat option"
  ef_subtype :: "string option"
  ef_correlation :: "string option"
  ef_comp_origin :: "string option"
  ef_comp_cents :: int
  ef_intent :: "string option"

record snapshot =
  posted_cents :: int
  cursor :: "int option"
  last_settlement :: "int option"

record 'h reservation =
  rv_id :: nat
  rv_class :: class_id
  rv_feat :: string
  rv_key :: string
  rv_fingerprint :: 'h
  rv_version :: int

type_synonym scope = "class_id \<times> seat_id \<times> string"

record 'h ledger =
  txs :: "tx list"
  snapshots :: "scope \<Rightarrow> snapshot option"
  reservations :: "'h reservation list"
  seat_class :: "seat_id \<Rightarrow> class_id option"
  class_exists :: "class_id \<Rightarrow> bool"

text \<open>The active FEAT: its name, its correlation and its idempotency key.\<close>

record feat_ctx =
  fc_name :: "string option"
  fc_correlation :: string
  fc_key :: "string option"

datatype led_error =
    ValueErr string
  | RuntimeErr string
  | NoResultFound
  | FEATContextError
  | InsufficientFunds string
  | RecoveryIntegrity string

section \<open>Fingerprints\<close>

datatype fval = VNull | VStr string | VInt int | VBool bool | VAmount rat
type_synonym fields = "(string \<times> fval) list"

text \<open>
  The value handed to \<^verbatim>\<open>json.dumps(..., sort_keys=True)\<close>: one command's object (versions 1 to 3), a list
  of effect objects (version 3), or effects with the canonical intent (version 4 on).
\<close>

datatype fprint =
    FCommand fields
  | FEffects "fields list"
  | FPlan "fields list" "fval list option"

definition fingerprint_version :: int where "fingerprint_version = 5"

definition supported_version :: "int \<Rightarrow> bool" where
  "supported_version v = (1 \<le> v \<and> v \<le> 5)"

definition amount_is_fingerprinted :: "string \<Rightarrow> int \<Rightarrow> led_error + bool" where
  "amount_is_fingerprinted type version =
     (if \<not> supported_version version then Inl (ValueErr ''Unsupported Ledger fingerprint version'')
      else Inr (version < 2 \<or> type \<noteq> ''Interest''))"

definition vnat :: "nat option \<Rightarrow> fval" where
  "vnat x = (case x of None \<Rightarrow> VNull | Some n \<Rightarrow> VInt (int n))"

definition vstr :: "string option \<Rightarrow> fval" where
  "vstr x = (case x of None \<Rightarrow> VNull | Some s \<Rightarrow> VStr s)"

definition command_fingerprint ::
    "seat_id \<Rightarrow> seat_id \<Rightarrow> rat \<Rightarrow> string \<Rightarrow> string \<Rightarrow> nat option \<Rightarrow> nat option \<Rightarrow> int \<Rightarrow> led_error + fprint" where
  "command_fingerprint target actor amount account type original policy version =
     rbind (amount_is_fingerprinted type version) (\<lambda>with_amount.
       Inr (FCommand
         [(''account_type'', VStr account), (''actor_seat_id'', VInt (int actor)),
          (''amount'', if with_amount then VAmount amount else VNull),
          (''original_transaction_id'', vnat original), (''policy_id'', vnat policy),
          (''target_seat_id'', VInt (int target)), (''type'', VStr type)]))"

definition effect_fields :: "int \<Rightarrow> effect \<Rightarrow> led_error + fields" where
  "effect_fields version e =
     rbind (amount_is_fingerprinted (ef_type e) version) (\<lambda>with_amount.
       Inr ([(''seat_id'', VInt (int (ef_seat e))), (''target_seat_id'', VInt (int (ef_target e))),
         (''actor_seat_id'', VInt (int (ef_actor e))), (''mechanism'', VStr (ef_mechanism e)),
         (''amount'', if \<not> with_amount then VNull
             else VAmount (if version \<ge> 4 then of_cents (cents_even (ef_amount e)) else ef_amount e)),
         (''account_type'', VStr (ef_account e)), (''type'', VStr (ef_type e)),
         (''original_transaction_id'', vnat (ef_original e)), (''policy_id'', vnat (ef_policy e))]
        @ (if version \<ge> 4 then
             [(''compensation_origin_locator'', vstr (ef_comp_origin e)),
              (''compensation_amount_cents'', VInt (ef_comp_cents e)),
              (''correction_intent_locator'', vstr (ef_intent e))] else [])
        @ (if version \<ge> 5 then [(''compensation_subtype'', vstr (ef_subtype e))] else [])))"

definition replay_fingerprint :: "effect list \<Rightarrow> int \<Rightarrow> fval list option \<Rightarrow> led_error + fprint" where
  "replay_fingerprint effects version intent =
     (case effects of
        [e] \<Rightarrow> if version < 4
          then command_fingerprint (ef_target e) (ef_actor e) (ef_amount e) (ef_account e) (ef_type e)
                 (ef_original e) (ef_policy e) version
          else rbind (rmapM (effect_fields version) effects) (\<lambda>fs. Inr (FPlan fs intent))
      | _ \<Rightarrow> if version < 3
          then Inl (ValueErr ''Legacy multi-effect reservations require the seat-ownership migration.'')
          else rbind (rmapM (effect_fields version) effects) (\<lambda>fs.
            Inr (if version \<ge> 4 then FPlan fs intent else FEffects fs)))"

definition fingerprint_matches_reservation ::
    "(fprint \<Rightarrow> 'h) \<Rightarrow> 'h reservation \<Rightarrow> (int \<Rightarrow> led_error + fprint) \<Rightarrow> led_error + bool" where
  "fingerprint_matches_reservation digest r fingerprint_for =
     (if \<not> supported_version (rv_version r) then Inr False
      else rbind (fingerprint_for (rv_version r)) (\<lambda>fp. Inr (rv_fingerprint r = digest fp)))"

definition assert_replay_matches ::
    "(fprint \<Rightarrow> 'h) \<Rightarrow> 'h reservation \<Rightarrow> effect list \<Rightarrow> fval list option \<Rightarrow> led_error + unit" where
  "assert_replay_matches digest r effects intent =
     rbind (fingerprint_matches_reservation digest r (\<lambda>v. replay_fingerprint effects v intent)) (\<lambda>ok.
       if ok then Inr () else Inl (ValueErr ''Replay fingerprint mismatch for existing Ledger command reservation.''))"

section \<open>Posting one effect\<close>

definition class_sequences :: "'h ledger \<Rightarrow> class_id \<Rightarrow> int list" where
  "class_sequences st c = List.map_filter (\<lambda>t. if tx_class t = c then tx_sequence t else None) (txs st)"

text \<open>
  \<^verbatim>\<open>COALESCE(MAX(posting_sequence), 0) + 1\<close> over the class, under the seat and class row locks.
\<close>

definition allocate_creation_posting_sequence :: "'h ledger \<Rightarrow> seat_id \<Rightarrow> class_id \<Rightarrow> led_error + int" where
  "allocate_creation_posting_sequence st seat c =
     (if seat_class st seat \<noteq> Some c \<or> \<not> class_exists st c then Inl NoResultFound
      else Inr ((case class_sequences st c of [] \<Rightarrow> 0 | s # ss \<Rightarrow> foldr max ss s) + 1))"

definition next_tx_id :: "'h ledger \<Rightarrow> nat" where
  "next_tx_id st = Suc (foldr max (map tx_id (txs st)) 0)"

definition account_known :: "string \<Rightarrow> bool" where
  "account_known a = (a = ''checking'' \<or> a = ''savings'')"

text \<open>
  \<^verbatim>\<open>create_pending_transaction\<close> past its idempotent early return: every guard, then the row. The
  integrity listener of the model supplies what it always supplies on insert: the FEAT code, the FEAT's
  correlation where none is given, and the cents of the quantized amount.
\<close>

definition post_effect ::
    "feat_ctx \<Rightarrow> int \<Rightarrow> 'h reservation option \<Rightarrow> effect \<Rightarrow> 'h ledger \<Rightarrow> led_error + (tx \<times> 'h ledger)" where
  "post_effect ctx now rv e st =
     rbind (rguard (ef_class e \<noteq> [] \<and> ef_seat e \<noteq> 0 \<and> ef_target e \<noteq> 0 \<and> ef_actor e \<noteq> 0)
              (ValueErr ''FATAL: Ledger mutation requires seat_id and class_id.'')) (\<lambda>_.
     rbind (rguard (account_known (ef_account e))
              (ValueErr ''FATAL: Ledger mutation requires a checking or savings account_type.'')) (\<lambda>_.
     rbind (rguard (\<forall>s \<in> set [ef_seat e, ef_target e, ef_actor e]. seat_class st s = Some (ef_class e))
              (ValueErr ''FATAL: Ledger mutation seats must all belong to the provided class_id.'')) (\<lambda>_.
     rbind (rguard (case rv of None \<Rightarrow> True | Some r \<Rightarrow> rv_class r = ef_class e)
              (ValueErr ''FATAL: Command reservation must belong to the provided class_id.'')) (\<lambda>_.
     rbind (allocate_creation_posting_sequence st (ef_seat e) (ef_class e)) (\<lambda>sq.
     rbind (rguard (0 \<le> ef_comp_cents e)
              (ValueErr ''New Ledger effects require explicit nonnegative attributable recovery.'')) (\<lambda>_.
     rbind (rguard (\<not> (ef_comp_cents e = 0 \<and> (str_or (ef_comp_origin e) [] \<noteq> [] \<or> str_or (ef_intent e) [] \<noteq> [])))
              (ValueErr ''Non-recovery effect cannot claim compensation lineage.'')) (\<lambda>_.
       case fc_name ctx of None \<Rightarrow> Inl FEATContextError
       | Some feat \<Rightarrow>
         (let t = \<lparr>tx_id = next_tx_id st, tx_seat = ef_seat e, tx_target = ef_target e, tx_actor = ef_actor e,
             tx_class = ef_class e, tx_mechanism = ef_mechanism e, tx_cents = cents_even (ef_amount e),
             tx_account = ef_account e, tx_timestamp = now, tx_type = ef_type e,
             tx_description = ef_description e, tx_sequence = Some sq, tx_posted_at = None,
             tx_reservation = map_option rv_id rv, tx_key = map_option rv_key rv, tx_original = ef_original e,
             tx_policy = ef_policy e, tx_subtype = ef_subtype e,
             tx_correlation = str_or (ef_correlation e) (fc_correlation ctx), tx_feat = feat,
             tx_comp_origin = ef_comp_origin e, tx_comp_cents = ef_comp_cents e, tx_intent = ef_intent e\<rparr>
          in Inr (t, st\<lparr>txs := txs st @ [t]\<rparr>)))))))))"

fun post_effects ::
    "feat_ctx \<Rightarrow> int \<Rightarrow> 'h reservation option \<Rightarrow> effect list \<Rightarrow> 'h ledger \<Rightarrow> led_error + (tx list \<times> 'h ledger)" where
  "post_effects ctx now rv [] st = Inr ([], st)"
| "post_effects ctx now rv (e # es) st =
     rbind (post_effect ctx now rv e st) (\<lambda>(t, st1).
     rbind (post_effects ctx now rv es st1) (\<lambda>(ts, st2). Inr (t # ts, st2)))"

section \<open>Reservations\<close>

definition find_reservation :: "'h ledger \<Rightarrow> class_id \<Rightarrow> string \<Rightarrow> string \<Rightarrow> 'h reservation option" where
  "find_reservation st c feat key =
     List.find (\<lambda>r. rv_class r = c \<and> rv_feat r = feat \<and> rv_key r = key) (reservations st)"

definition next_rv_id :: "'h ledger \<Rightarrow> nat" where
  "next_rv_id st = Suc (foldr max (map rv_id (reservations st)) 0)"

definition reserved_txs :: "'h ledger \<Rightarrow> nat \<Rightarrow> tx list" where
  "reserved_txs st i = sort_key tx_id (filter (\<lambda>t. tx_reservation t = Some i) (txs st))"

definition max_key_length :: nat where "max_key_length = 128"

definition replay_effects ::
    "(fprint \<Rightarrow> 'h) \<Rightarrow> 'h reservation \<Rightarrow> effect list \<Rightarrow> fval list option \<Rightarrow> 'h ledger \<Rightarrow> led_error + tx list" where
  "replay_effects digest r effects intent st =
     rbind (assert_replay_matches digest r effects intent) (\<lambda>_.
       let rows = reserved_txs st (rv_id r) in
       if rows = [] then Inl (RuntimeErr ''Ledger command reservation has no committed effects.'') else Inr rows)"

definition check_key :: "class_id \<Rightarrow> string \<Rightarrow> string \<Rightarrow> effect list \<Rightarrow> led_error + unit" where
  "check_key c feat key effects =
     rbind (rguard (c \<noteq> [] \<and> feat \<noteq> [] \<and> key \<noteq> [] \<and> effects \<noteq> [])
              (ValueErr ''A reserved command requires class, FEAT, key, and effects.'')) (\<lambda>_.
     rbind (rguard (str_strip key \<noteq> []) (ValueErr ''Idempotency key must be a non-empty string.'')) (\<lambda>_.
     rguard (length key \<le> max_key_length) (ValueErr ''Idempotency key exceeds the maximum allowed length.'')))"

text \<open>
  \<^verbatim>\<open>create_reserved_effects\<close>. The first read sees \<open>st\<close>; the insert of the reservation sees \<open>race st\<close>, and
  a reservation another session committed in between is the \<open>IntegrityError\<close> branch, which replays it.
\<close>

definition create_reserved_effects ::
    "(fprint \<Rightarrow> 'h) \<Rightarrow> ('h ledger \<Rightarrow> 'h ledger) \<Rightarrow> feat_ctx \<Rightarrow> int \<Rightarrow> class_id \<Rightarrow> string \<Rightarrow> string \<Rightarrow> effect list
       \<Rightarrow> fval list option \<Rightarrow> 'h ledger \<Rightarrow> led_error + (tx list \<times> bool \<times> 'h ledger)" where
  "create_reserved_effects digest race ctx now c feat key effects intent st =
     rbind (check_key c feat key effects) (\<lambda>_.
     rbind (replay_fingerprint effects fingerprint_version intent) (\<lambda>fp.
       case find_reservation st c feat key of
         Some r \<Rightarrow> rbind (replay_effects digest r effects intent st) (\<lambda>rows. Inr (rows, False, st))
       | None \<Rightarrow>
         (let st1 = race st in
          case find_reservation st1 c feat key of
            Some r \<Rightarrow> rbind (replay_effects digest r effects intent st1) (\<lambda>rows. Inr (rows, False, st1))
          | None \<Rightarrow>
            (let r = \<lparr>rv_id = next_rv_id st1, rv_class = c, rv_feat = feat, rv_key = key,
                     rv_fingerprint = digest fp, rv_version = fingerprint_version\<rparr>
             in rbind (post_effects ctx now (Some r) effects (st1\<lparr>reservations := reservations st1 @ [r]\<rparr>))
                  (\<lambda>(rows, st2). Inr (rows, True, st2))))))"

definition idempotent_type :: "string \<Rightarrow> bool" where
  "idempotent_type t = (t \<in> {''REVERSAL'', ''insurance_reimbursement'', ''insurance_premium'', ''purchase'',
     ''refund'', ''overdraft_fee'', ''payroll'', ''payroll_correction'', ''manual_payment'', ''penalty'',
     ''issue_reversal'', ''issue_compensation'', ''rent_payment'', ''Interest'', ''void_item_removed''})"

definition create_idempotent_transaction ::
    "(fprint \<Rightarrow> 'h) \<Rightarrow> ('h ledger \<Rightarrow> 'h ledger) \<Rightarrow> feat_ctx \<Rightarrow> int \<Rightarrow> string \<Rightarrow> effect \<Rightarrow> 'h ledger
       \<Rightarrow> led_error + (tx \<times> bool \<times> 'h ledger)" where
  "create_idempotent_transaction digest race ctx now key e st =
     (case fc_name ctx of
        None \<Rightarrow> Inl (ValueErr ''Idempotent Ledger effects require class, FEAT, and key.'')
      | Some feat \<Rightarrow>
        rbind (rguard (key \<noteq> [] \<and> ef_class e \<noteq> [] \<and> feat \<noteq> [])
                 (ValueErr ''Idempotent Ledger effects require class, FEAT, and key.'')) (\<lambda>_.
        rbind (rguard (str_strip key \<noteq> []) (ValueErr ''Idempotency key must be a non-empty string.'')) (\<lambda>_.
        rbind (rguard (length key \<le> max_key_length)
                 (ValueErr ''Idempotency key exceeds the maximum allowed length.'')) (\<lambda>_.
        rbind (rguard (idempotent_type (ef_type e))
                 (ValueErr ''Transaction type is not enabled for idempotent creation.'')) (\<lambda>_.
        rbind (create_reserved_effects digest race ctx now (ef_class e) feat key [e] None st) (\<lambda>(rows, created, st').
          case rows of [] \<Rightarrow> Inl (RuntimeErr ''IndexError'') | t # _ \<Rightarrow> Inr (t, created, st')))))))"

text \<open>
  \<^verbatim>\<open>create_pending_transaction\<close>: with a key the amount is quantized and the idempotent boundary takes
  over (inside it the row is posted under the reservation, without a key); otherwise one row is posted.
\<close>

definition create_pending_transaction ::
    "(fprint \<Rightarrow> 'h) \<Rightarrow> ('h ledger \<Rightarrow> 'h ledger) \<Rightarrow> feat_ctx \<Rightarrow> int \<Rightarrow> string option \<Rightarrow> 'h reservation option
       \<Rightarrow> effect \<Rightarrow> 'h ledger \<Rightarrow> led_error + (tx \<times> 'h ledger)" where
  "create_pending_transaction digest race ctx now key rv e st =
     (if str_or key [] \<noteq> [] then
        (if rv \<noteq> None then Inl (ValueErr ''Provide either idempotency_key or command_reservation, not both.'')
         else rbind (create_idempotent_transaction digest race ctx now (the key)
                       (e\<lparr>ef_amount := of_cents (cents_even (ef_amount e))\<rparr>) st)
                (\<lambda>(t, created, st'). Inr (t, st')))
      else post_effect ctx now rv e st)"

end
