(* ===== verification/Ledger_Settlement.thy ===== *)
theory Ledger_Settlement
  imports Ledger_Core "HOL-Library.List_Lexorder" "HOL-Library.Char_ord" "HOL-Library.Product_Lexorder"
begin

text \<open>
  Settlement, \<^verbatim>\<open>app/services/ledger_settlement_service.py\<close>, and the balance reads and proofs,
  \<^verbatim>\<open>app/services/ledger_balance_query_service.py\<close>. An effect is POSTED when its creation sequence is at or
  below the cursor of the snapshot of its exact (class, seat, account) scope, PENDING otherwise. A sweep
  advances the cursor over everything pending and recomputes the snapshot's cents from history. Balances
  are in cents: every row's Decimal amount is its cents divided by 100.
\<close>

section \<open>Posting state\<close>

datatype posting_state = POSTED | PENDING

definition tx_scope :: "tx \<Rightarrow> scope" where
  "tx_scope t = (tx_class t, tx_seat t, tx_account t)"

definition classify_posting_state :: "int option \<Rightarrow> int option \<Rightarrow> posting_state" where
  "classify_posting_state sq cur = (case sq of None \<Rightarrow> PENDING
     | Some s \<Rightarrow> (case cur of None \<Rightarrow> PENDING | Some k \<Rightarrow> if s \<le> k then POSTED else PENDING))"

definition scope_cursor :: "'h ledger \<Rightarrow> scope \<Rightarrow> int option" where
  "scope_cursor st sc = (case snapshots st sc of None \<Rightarrow> None | Some sn \<Rightarrow> cursor sn)"

definition tx_state :: "'h ledger \<Rightarrow> tx \<Rightarrow> posting_state" where
  "tx_state st t = classify_posting_state (tx_sequence t) (scope_cursor st (tx_scope t))"

text \<open>
  \<^verbatim>\<open>posting_scope_of\<close>, \<^verbatim>\<open>resolve_reconciliation_cursors\<close> and \<^verbatim>\<open>project_posting_states\<close>: one cursor read
  for a list of effects; a row with an empty class or account has no scope and is pending.
\<close>

definition posting_scope_of :: "tx \<Rightarrow> scope option" where
  "posting_scope_of t = (if tx_class t = [] \<or> tx_account t = [] then None else Some (tx_scope t))"

definition resolve_reconciliation_cursors :: "'h ledger \<Rightarrow> scope option list \<Rightarrow> scope \<Rightarrow> int option option" where
  "resolve_reconciliation_cursors st scopes sc =
     (if Some sc \<in> set scopes then Some (scope_cursor st sc) else None)"

definition project_posting_states :: "'h ledger \<Rightarrow> tx list \<Rightarrow> posting_state list" where
  "project_posting_states st ts =
     (let cursors = resolve_reconciliation_cursors st (map posting_scope_of ts) in
      map (\<lambda>t. classify_posting_state (tx_sequence t)
             (case posting_scope_of t of None \<Rightarrow> None
              | Some sc \<Rightarrow> (case cursors sc of None \<Rightarrow> None | Some c \<Rightarrow> c))) ts)"

section \<open>Settlement\<close>

definition normalize_account_type :: "string \<Rightarrow> led_error + string" where
  "normalize_account_type raw = (let a = str_lower raw in
     if a = ''checking'' then Inr ''checking'' else if a = ''savings'' then Inr ''savings''
     else Inl (ValueErr ''Unknown account type''))"

definition pending_txs :: "'h ledger \<Rightarrow> class_id \<Rightarrow> seat_id \<Rightarrow> tx list" where
  "pending_txs st c s = filter (\<lambda>t. tx_class t = c \<and> tx_seat t = s \<and> tx_state st t = PENDING) (txs st)"

definition posted_history_cents :: "tx list \<Rightarrow> scope \<Rightarrow> int option \<Rightarrow> int" where
  "posted_history_cents ts sc boundary = (case boundary of None \<Rightarrow> 0 | Some b \<Rightarrow>
     sum_list (map tx_cents (filter (\<lambda>t. tx_scope t = sc \<and>
       (case tx_sequence t of None \<Rightarrow> False | Some q \<Rightarrow> q \<le> b)) ts)))"

definition empty_snapshot :: snapshot where
  "empty_snapshot = \<lparr>posted_cents = 0, cursor = None, last_settlement = None\<rparr>"

text \<open>The snapshots of the accounts with pending effects, created where missing.\<close>

definition open_snapshots :: "'h ledger \<Rightarrow> class_id \<Rightarrow> seat_id \<Rightarrow> string list \<Rightarrow> string \<Rightarrow> snapshot option" where
  "open_snapshots st c s accounts a = (if a \<in> set accounts
     then Some (case snapshots st (c, s, a) of None \<Rightarrow> empty_snapshot | Some sn \<Rightarrow> sn) else None)"

text \<open>The loop over the pending effects: each one moves its account's cursor up to its sequence.\<close>

fun advance_cursors :: "tx list \<Rightarrow> (string \<Rightarrow> snapshot option) \<Rightarrow> led_error + (string \<Rightarrow> snapshot option)" where
  "advance_cursors [] snaps = Inr snaps"
| "advance_cursors (t # ts) snaps =
     rbind (normalize_account_type (tx_account t)) (\<lambda>a.
       case tx_sequence t of
         None \<Rightarrow> Inl (ValueErr ''Missing immutable Ledger creation sequence; historical admission is unprovable.'')
       | Some q \<Rightarrow> (case snaps a of
           None \<Rightarrow> Inl (ValueErr ''KeyError'')
         | Some sn \<Rightarrow> advance_cursors ts (snaps(a \<mapsto>
             sn\<lparr>cursor := Some (max (case cursor sn of None \<Rightarrow> 0 | Some k \<Rightarrow> k) q)\<rparr>))))"

definition settle_balances :: "bool \<Rightarrow> int \<Rightarrow> seat_id \<Rightarrow> class_id \<Rightarrow> 'h ledger \<Rightarrow> led_error + 'h ledger" where
  "settle_balances read_only now s c st =
     (if read_only then Inl (RuntimeErr ''Settlement attempted during read-only request context'')
      else if seat_class st s \<noteq> Some c
        then Inl (ValueErr ''settle_balances requires a seat bound to the provided class_id'')
      else if \<not> class_exists st c then Inl NoResultFound
      else (let pending = pending_txs st c s in
        if pending = [] then Inr st
        else rbind (rmapM (\<lambda>t. normalize_account_type (tx_account t)) pending) (\<lambda>accounts.
          rbind (advance_cursors pending (open_snapshots st c s accounts)) (\<lambda>snaps.
            let txs' = map (\<lambda>t. if t \<in> set pending
                  then t\<lparr>tx_posted_at := Some (case tx_posted_at t of None \<Rightarrow> now | Some p \<Rightarrow> p)\<rparr> else t) (txs st)
            in Inr (st\<lparr>txs := txs',
                 snapshots := (\<lambda>(c', s', a).
                   if c' = c \<and> s' = s then
                     (case snaps a of None \<Rightarrow> snapshots st (c, s, a)
                      | Some sn \<Rightarrow> Some (sn\<lparr>posted_cents := posted_history_cents (txs st) (c, s, a) (cursor sn),
                                           last_settlement := Some now\<rparr>))
                   else snapshots st (c', s', a))\<rparr>)))))"

text \<open>
  \<^verbatim>\<open>settle_pending_transaction_contexts\<close>: every (class, seat) with pending effects, in order, each in its
  own transaction; a failing context is counted and leaves the state as it was.
\<close>

definition pending_contexts :: "'h ledger \<Rightarrow> (class_id \<times> seat_id) list" where
  "pending_contexts st = sort (remdups (map (\<lambda>t. (tx_class t, tx_seat t))
     (filter (\<lambda>t. tx_state st t = PENDING) (txs st))))"

fun sweep :: "int \<Rightarrow> (class_id \<times> seat_id) list \<Rightarrow> 'h ledger \<Rightarrow> nat \<times> nat \<times> 'h ledger" where
  "sweep now [] st = (0, 0, st)"
| "sweep now ((c, s) # cs) st =
     (case settle_balances False now s c st of
        Inl e \<Rightarrow> (case sweep now cs st of (ok, failed, st') \<Rightarrow> (ok, Suc failed, st'))
      | Inr st1 \<Rightarrow> (case sweep now cs st1 of (ok, failed, st') \<Rightarrow> (Suc ok, failed, st')))"

definition settle_pending_transaction_contexts :: "nat option \<Rightarrow> int \<Rightarrow> 'h ledger \<Rightarrow> nat \<times> nat \<times> 'h ledger" where
  "settle_pending_transaction_contexts limit now st =
     (let contexts = pending_contexts st in
      sweep now (case limit of None \<Rightarrow> contexts | Some n \<Rightarrow> take n contexts) st)"

section \<open>Balance reads\<close>

definition require_balance_scope :: "seat_id \<Rightarrow> class_id \<Rightarrow> string \<Rightarrow> led_error + unit" where
  "require_balance_scope s c a =
     rbind (rguard (c \<noteq> [] \<and> s \<noteq> 0) (ValueErr ''FATAL: Balance lookup requires class_id and seat_id.'')) (\<lambda>_.
     rbind (rguard (a \<noteq> []) (ValueErr ''FATAL: Balance lookup requires account_type.'')) (\<lambda>_.
     rguard (account_known a) (ValueErr ''FATAL: Unsupported account_type'')))"

definition state_cents :: "'h ledger \<Rightarrow> posting_state \<Rightarrow> scope \<Rightarrow> int" where
  "state_cents st ps sc = sum_list (map tx_cents (filter (\<lambda>t. tx_scope t = sc \<and> tx_state st t = ps) (txs st)))"

definition get_posted_balance :: "'h ledger \<Rightarrow> seat_id \<Rightarrow> class_id \<Rightarrow> string \<Rightarrow> led_error + int" where
  "get_posted_balance st s c a = rbind (require_balance_scope s c a) (\<lambda>_.
     Inr (case snapshots st (c, s, a) of Some sn \<Rightarrow> posted_cents sn | None \<Rightarrow> state_cents st POSTED (c, s, a)))"

definition get_pending_balance_delta :: "'h ledger \<Rightarrow> seat_id \<Rightarrow> class_id \<Rightarrow> string \<Rightarrow> int" where
  "get_pending_balance_delta st s c a = state_cents st PENDING (c, s, a)"

definition available_balance_expression :: "'h ledger \<Rightarrow> seat_id \<Rightarrow> class_id \<Rightarrow> string \<Rightarrow> int" where
  "available_balance_expression st s c a =
     (case snapshots st (c, s, a) of Some sn \<Rightarrow> posted_cents sn | None \<Rightarrow> state_cents st POSTED (c, s, a))
     + state_cents st PENDING (c, s, a)"

definition get_available_balance :: "'h ledger \<Rightarrow> seat_id \<Rightarrow> class_id \<Rightarrow> string \<Rightarrow> led_error + int" where
  "get_available_balance st s c a = rbind (require_balance_scope s c a) (\<lambda>_.
     Inr (available_balance_expression st s c a))"

definition get_available_balances :: "'h ledger \<Rightarrow> seat_id \<Rightarrow> class_id \<Rightarrow> led_error + (int \<times> int)" where
  "get_available_balances st s c = rbind (require_balance_scope s c ''checking'') (\<lambda>_.
     Inr (available_balance_expression st s c ''checking'', available_balance_expression st s c ''savings''))"

section \<open>Independent proofs of the projection\<close>

datatype proof_result = Pass int int | Fail string int int | Unavailable string

definition reconstruct_posted_balance :: "'h ledger \<Rightarrow> class_id \<Rightarrow> seat_id \<Rightarrow> string \<Rightarrow> int option \<Rightarrow> proof_result" where
  "reconstruct_posted_balance st c s a through =
     (if c = [] \<or> s = 0 \<or> \<not> account_known a then Unavailable ''invalid_scope''
      else (case through of
        None \<Rightarrow> Unavailable ''missing_posting_boundary''
      | Some b \<Rightarrow>
          if b < 0 then Unavailable ''invalid_posting_boundary''
          else if \<exists>t \<in> set (txs st). tx_scope t = (c, s, a) \<and> tx_sequence t = None
            then Unavailable ''incomplete_posting_history''
          else Pass (posted_history_cents (txs st) (c, s, a) (Some b)) b))"

definition scope_total :: "'h ledger \<Rightarrow> scope \<Rightarrow> int" where
  "scope_total st sc = sum_list (map tx_cents (filter (\<lambda>t. tx_scope t = sc) (txs st)))"

definition reconstruct_available_balance :: "'h ledger \<Rightarrow> class_id \<Rightarrow> seat_id \<Rightarrow> string \<Rightarrow> int option \<Rightarrow> proof_result" where
  "reconstruct_available_balance st c s a through =
     (case reconstruct_posted_balance st c s a through of
        Pass v b \<Rightarrow> Pass (scope_total st (c, s, a)) b
      | other \<Rightarrow> other)"

definition verify_posted_balance :: "'h ledger \<Rightarrow> class_id \<Rightarrow> seat_id \<Rightarrow> string \<Rightarrow> int option \<Rightarrow> proof_result" where
  "verify_posted_balance st c s a through =
     (if c = [] \<or> s = 0 \<or> \<not> account_known a then Unavailable ''invalid_scope''
      else (case reconstruct_posted_balance st c s a through of
        Pass v b \<Rightarrow>
          (case snapshots st (c, s, a) of
             None \<Rightarrow> Unavailable ''missing_snapshot''
           | Some sn \<Rightarrow> if cursor sn \<noteq> Some b then Unavailable ''snapshot_boundary_mismatch''
               else if posted_cents sn \<noteq> v then Fail ''posted_balance_mismatch'' v b
               else Pass v b)
      | other \<Rightarrow> other))"

definition verify_available_balance :: "'h ledger \<Rightarrow> class_id \<Rightarrow> seat_id \<Rightarrow> string \<Rightarrow> int option \<Rightarrow> proof_result" where
  "verify_available_balance st c s a through =
     (if c = [] \<or> s = 0 \<or> \<not> account_known a then Unavailable ''invalid_scope''
      else (case reconstruct_available_balance st c s a through of
        Pass v b \<Rightarrow> if available_balance_expression st s c a \<noteq> v
            then Fail ''available_balance_mismatch'' v b else Pass v b
      | other \<Rightarrow> other))"

definition get_account_posting_boundary :: "'h ledger \<Rightarrow> seat_id \<Rightarrow> class_id \<Rightarrow> string \<Rightarrow> led_error + int option" where
  "get_account_posting_boundary st s c a = rbind (require_balance_scope s c a) (\<lambda>_. Inr (scope_cursor st (c, s, a)))"

end
