(* ===== verification/Ledger_Invariant.thy ===== *)
theory Ledger_Invariant
  imports Ledger_Settlement
begin

text \<open>
  The ledger's invariant, that posting, reserving and settling keep it, and what follows for every
  reachable ledger: available balances are plain sums of history, snapshots agree with an independent
  rebuild, posted history never changes, and an accepted command replays without effect.
\<close>

section \<open>The invariant\<close>

definition sequence_of :: "tx \<Rightarrow> int" where
  "sequence_of t = (case tx_sequence t of None \<Rightarrow> 0 | Some q \<Rightarrow> q)"

text \<open>Every row has a positive sequence and a known account; ids grow along the table, and so do the sequences of each class.\<close>

definition rows_ok :: "tx list \<Rightarrow> bool" where
  "rows_ok ts = ((\<forall>t \<in> set ts. (\<exists>q. tx_sequence t = Some q \<and> 0 < q) \<and> account_known (tx_account t))
     \<and> sorted_wrt (<) (map tx_id ts)
     \<and> sorted_wrt (\<lambda>a b. tx_class a = tx_class b \<longrightarrow> sequence_of a < sequence_of b) ts)"

text \<open>A snapshot's cursor lies within its class's sequences and its cents are the history through it.\<close>

definition snapshots_ok :: "'h ledger \<Rightarrow> bool" where
  "snapshots_ok st = (\<forall>sc sn. snapshots st sc = Some sn \<longrightarrow>
     posted_cents sn = posted_history_cents (txs st) sc (cursor sn)
     \<and> (\<forall>k. cursor sn = Some k \<longrightarrow> 0 < k \<and> (\<exists>t \<in> set (txs st). tx_class t = fst sc \<and> k \<le> sequence_of t)))"

definition seats_ok :: "'h ledger \<Rightarrow> bool" where
  "seats_ok st = (\<forall>t \<in> set (txs st). seat_class st (tx_seat t) = Some (tx_class t)
     \<and> seat_class st (tx_target t) = Some (tx_class t) \<and> seat_class st (tx_actor t) = Some (tx_class t))"

text \<open>Command identities are unique, and every reservation has committed effects.\<close>

definition reservations_ok :: "'h ledger \<Rightarrow> bool" where
  "reservations_ok st = (sorted_wrt (<) (map rv_id (reservations st))
     \<and> distinct (map (\<lambda>r. (rv_class r, rv_feat r, rv_key r)) (reservations st))
     \<and> (\<forall>t \<in> set (txs st). \<forall>i. tx_reservation t = Some i \<longrightarrow> i \<in> rv_id ` set (reservations st))
     \<and> (\<forall>r \<in> set (reservations st). \<exists>t \<in> set (txs st). tx_reservation t = Some (rv_id r)))"

definition ledger_ok :: "'h ledger \<Rightarrow> bool" where
  "ledger_ok st = (rows_ok (txs st) \<and> snapshots_ok st \<and> seats_ok st \<and> reservations_ok st)"

section \<open>Row lemmas\<close>

lemma foldr_max_ge: "x \<in> set xs \<Longrightarrow> x \<le> foldr max xs (a :: 'a :: linorder)" "a \<le> foldr max xs a"
  by (induction xs) (auto simp: le_max_iff_disj)

lemma in_class_sequences:
  "q \<in> set (class_sequences st c) \<longleftrightarrow> (\<exists>t \<in> set (txs st). tx_class t = c \<and> tx_sequence t = Some q)"
  by (auto simp: class_sequences_def in_map_filter split: if_splits)

text \<open>The allocated sequence is above every sequence of the class, and positive.\<close>

lemma allocate_fresh:
  assumes "allocate_creation_posting_sequence st s c = Inr q" "rows_ok (txs st)"
  shows "0 < q" "\<And>t. t \<in> set (txs st) \<Longrightarrow> tx_class t = c \<Longrightarrow> sequence_of t < q"
proof -
  have *: "q = (case class_sequences st c of [] \<Rightarrow> 0 | x # xs \<Rightarrow> foldr max xs x) + 1"
    using assms(1) by (auto simp: allocate_creation_posting_sequence_def split: if_splits)
  have ge: "x < q" if "x \<in> set (class_sequences st c)" for x
    using that foldr_max_ge [of x] unfolding * by (cases "class_sequences st c") force+
  show "sequence_of t < q" if t: "t \<in> set (txs st)" "tx_class t = c" for t
  proof -
    obtain p where p: "tx_sequence t = Some p" using assms(2) t(1) by (auto simp: rows_ok_def)
    with t ge [of p] show ?thesis by (auto simp: in_class_sequences sequence_of_def)
  qed
  show "0 < q"
  proof (cases "class_sequences st c")
    case Nil
    then show ?thesis by (simp add: *)
  next
    case (Cons p ps)
    then have "p \<in> set (class_sequences st c)" by simp
    moreover then have "0 < p" using assms(2) by (auto simp: in_class_sequences rows_ok_def)
    ultimately show ?thesis using ge [of p] by simp
  qed
qed

lemma next_tx_id_fresh: "t \<in> set (txs st) \<Longrightarrow> tx_id t < next_tx_id st"
  by (simp add: next_tx_id_def le_imp_less_Suc foldr_max_ge(1))

lemma next_rv_id_fresh: "r \<in> set (reservations st) \<Longrightarrow> rv_id r < next_rv_id st"
  by (simp add: next_rv_id_def le_imp_less_Suc foldr_max_ge(1))

section \<open>Posting\<close>

lemma post_effect_cases:
  assumes "post_effect ctx now rv e st = Inr (t, st')"
  obtains q feat where "allocate_creation_posting_sequence st (ef_seat e) (ef_class e) = Inr q"
    "fc_name ctx = Some feat" "account_known (ef_account e)"
    "seat_class st (ef_seat e) = Some (ef_class e)" "seat_class st (ef_target e) = Some (ef_class e)"
    "seat_class st (ef_actor e) = Some (ef_class e)"
    "st' = st\<lparr>txs := txs st @ [t]\<rparr>"
    "tx_id t = next_tx_id st" "tx_sequence t = Some q" "tx_class t = ef_class e" "tx_seat t = ef_seat e"
    "tx_target t = ef_target e" "tx_actor t = ef_actor e" "tx_account t = ef_account e"
    "tx_cents t = cents_even (ef_amount e)" "tx_reservation t = map_option rv_id rv" "tx_posted_at t = None"
    "ef_class e \<noteq> []" "ef_seat e \<noteq> 0"
  using assms
  by (fastforce simp: post_effect_def Let_def res_simps split: option.splits)

lemma rows_ok_append:
  assumes "rows_ok ts" "tx_sequence t = Some q" "0 < q" "account_known (tx_account t)"
    and "\<And>u. u \<in> set ts \<Longrightarrow> tx_id u < tx_id t"
    and "\<And>u. u \<in> set ts \<Longrightarrow> tx_class u = tx_class t \<Longrightarrow> sequence_of u < q"
  shows "rows_ok (ts @ [t])"
  using assms by (auto simp: rows_ok_def sorted_wrt_append sequence_of_def)

lemma post_effect_rows:
  assumes "post_effect ctx now rv e st = Inr (t, st')" "rows_ok (txs st)"
  shows "rows_ok (txs st')"
proof -
  from post_effect_cases [OF assms(1)] obtain q where q:
    "allocate_creation_posting_sequence st (ef_seat e) (ef_class e) = Inr q" "tx_sequence t = Some q"
    "st' = st\<lparr>txs := txs st @ [t]\<rparr>" "tx_id t = next_tx_id st" "tx_class t = ef_class e"
    "account_known (tx_account t)" by metis
  show ?thesis
    unfolding q(3) using allocate_fresh [OF q(1) assms(2)] q
    by (auto intro!: rows_ok_append [OF assms(2) q(2)] next_tx_id_fresh)
qed

text \<open>History through a cursor does not see a row with a later sequence, nor one of another scope.\<close>

lemma posted_history_append:
  assumes "\<And>k. b = Some k \<Longrightarrow> tx_scope t = sc \<Longrightarrow> k < sequence_of t"
  shows "posted_history_cents (ts @ [t]) sc b = posted_history_cents ts sc b"
  using assms by (auto simp: posted_history_cents_def sequence_of_def split: option.splits)

lemma snapshots_okD:
  assumes "snapshots_ok st" "snapshots st sc = Some sn"
  shows "posted_cents sn = posted_history_cents (txs st) sc (cursor sn)"
    "\<And>k. cursor sn = Some k \<Longrightarrow> \<exists>u \<in> set (txs st). tx_class u = fst sc \<and> k \<le> sequence_of u"
    "\<And>k. cursor sn = Some k \<Longrightarrow> 0 < k"
  using assms unfolding snapshots_ok_def by blast+

lemma post_effect_snapshots:
  assumes "post_effect ctx now rv e st = Inr (t, st')" "rows_ok (txs st)" "snapshots_ok st"
  shows "snapshots_ok st'"
proof -
  from post_effect_cases [OF assms(1)] obtain q where q:
    "allocate_creation_posting_sequence st (ef_seat e) (ef_class e) = Inr q" "tx_sequence t = Some q"
    "st' = st\<lparr>txs := txs st @ [t]\<rparr>" "tx_class t = ef_class e" by metis
  note fresh = allocate_fresh [OF q(1) assms(2)]
  show ?thesis
    unfolding snapshots_ok_def
  proof (intro allI impI)
    fix sc sn assume sn: "snapshots st' sc = Some sn"
    then have "snapshots st sc = Some sn" using q(3) by simp
    note ok = snapshots_okD [OF assms(3) this]
    have "posted_history_cents (txs st @ [t]) sc (cursor sn) = posted_history_cents (txs st) sc (cursor sn)"
    proof (rule posted_history_append)
      fix k assume k: "cursor sn = Some k" "tx_scope t = sc"
      then obtain u where "u \<in> set (txs st)" "tx_class u = fst sc" "k \<le> sequence_of u" using ok(2) by blast
      with fresh(2) [of u] k q show "k < sequence_of t" by (auto simp: tx_scope_def sequence_of_def)
    qed
    with ok q(3) show "posted_cents sn = posted_history_cents (txs st') sc (cursor sn) \<and>
      (\<forall>k. cursor sn = Some k \<longrightarrow> 0 < k \<and> (\<exists>t \<in> set (txs st'). tx_class t = fst sc \<and> k \<le> sequence_of t))"
      by fastforce
  qed
qed

lemma post_effect_seats:
  assumes "post_effect ctx now rv e st = Inr (t, st')" "seats_ok st"
  shows "seats_ok st'"
  using assms(2) by (rule_tac post_effect_cases [OF assms(1)]) (auto simp: seats_ok_def)

text \<open>The three parts that hold also between the effects of one command.\<close>

definition core_ok :: "'h ledger \<Rightarrow> bool" where
  "core_ok st = (rows_ok (txs st) \<and> snapshots_ok st \<and> seats_ok st)"

lemma post_effect_core: "post_effect ctx now rv e st = Inr (t, st') \<Longrightarrow> core_ok st \<Longrightarrow> core_ok st'"
  by (simp add: core_ok_def post_effect_rows post_effect_snapshots post_effect_seats)

lemma post_effects_core: "post_effects ctx now rv es st = Inr (ts, st') \<Longrightarrow> core_ok st \<Longrightarrow> core_ok st'"
proof (induction es arbitrary: st ts)
  case (Cons e es)
  then obtain t st1 ts1 where "post_effect ctx now rv e st = Inr (t, st1)"
    "post_effects ctx now rv es st1 = Inr (ts1, st')"
    by (auto simp: res_simps)
  with Cons.IH Cons.prems(2) post_effect_core show ?case by blast
qed simp

text \<open>What a vector of effects does to the state: it appends one row per effect, and nothing else.\<close>

lemma post_effects_shape:
  assumes "post_effects ctx now rv es st = Inr (ts, st')"
  shows "st' = st\<lparr>txs := txs st @ ts\<rparr>" "length ts = length es"
    "list_all2 (\<lambda>e t. tx_scope t = (ef_class e, ef_seat e, ef_account e) \<and> tx_cents t = cents_even (ef_amount e)
       \<and> tx_reservation t = map_option rv_id rv \<and> tx_posted_at t = None) es ts"
    "\<forall>e \<in> set es. account_known (ef_account e)"
proof -
  have "st' = st\<lparr>txs := txs st @ ts\<rparr> \<and> list_all2 (\<lambda>e t. tx_scope t = (ef_class e, ef_seat e, ef_account e)
      \<and> tx_cents t = cents_even (ef_amount e) \<and> tx_reservation t = map_option rv_id rv \<and> tx_posted_at t = None) es ts
      \<and> (\<forall>e \<in> set es. account_known (ef_account e))"
    using assms
  proof (induction es arbitrary: st ts)
    case (Cons e es)
    then obtain t st1 ts1 where s: "post_effect ctx now rv e st = Inr (t, st1)"
      "post_effects ctx now rv es st1 = Inr (ts1, st')" "ts = t # ts1"
      by (auto simp: res_simps)
    from post_effect_cases [OF s(1)] have "st1 = st\<lparr>txs := txs st @ [t]\<rparr>"
      "tx_scope t = (ef_class e, ef_seat e, ef_account e)" "tx_cents t = cents_even (ef_amount e)"
      "tx_reservation t = map_option rv_id rv" "tx_posted_at t = None" "account_known (ef_account e)"
      by (auto simp: tx_scope_def)
    with Cons.IH [OF s(2)] s(3) show ?case by simp
  qed simp
  then show "st' = st\<lparr>txs := txs st @ ts\<rparr>" "length ts = length es"
    "list_all2 (\<lambda>e t. tx_scope t = (ef_class e, ef_seat e, ef_account e) \<and> tx_cents t = cents_even (ef_amount e)
       \<and> tx_reservation t = map_option rv_id rv \<and> tx_posted_at t = None) es ts"
    "\<forall>e \<in> set es. account_known (ef_account e)"
    by (auto dest: list_all2_lengthD)
qed

section \<open>Commands\<close>

lemma find_reservation_Some:
  assumes "find_reservation st c feat key = Some r"
  shows "r \<in> set (reservations st)" "rv_class r = c" "rv_feat r = feat" "rv_key r = key"
  using assms by (auto simp: find_reservation_def find_Some_iff)

lemma find_reservation_None:
  "find_reservation st c feat key = None \<longleftrightarrow> (c, feat, key) \<notin> (\<lambda>r. (rv_class r, rv_feat r, rv_key r)) ` set (reservations st)"
  by (auto simp: find_reservation_def find_None_iff image_iff)

text \<open>The three ways a reserved command can succeed.\<close>

lemma create_reserved_effects_cases:
  assumes "create_reserved_effects digest race ctx now c feat key es intent st = Inr (rows, created, st')"
  obtains (replay) r where "find_reservation st c feat key = Some r" "\<not> created" "st' = st"
      "replay_effects digest r es intent st = Inr rows"
  | (lost_race) r where "find_reservation st c feat key = None" "find_reservation (race st) c feat key = Some r"
      "\<not> created" "st' = race st" "replay_effects digest r es intent (race st) = Inr rows"
  | (fresh) fp r where "find_reservation st c feat key = None" "find_reservation (race st) c feat key = None" "created"
      "replay_fingerprint es fingerprint_version intent = Inr fp" "es \<noteq> []"
      "r = \<lparr>rv_id = next_rv_id (race st), rv_class = c, rv_feat = feat, rv_key = key,
            rv_fingerprint = digest fp, rv_version = fingerprint_version\<rparr>"
      "post_effects ctx now (Some r) es ((race st)\<lparr>reservations := reservations (race st) @ [r]\<rparr>) = Inr (rows, st')"
  using assms
  by (auto simp: create_reserved_effects_def check_key_def res_simps Let_def split: option.splits)

lemma core_ok_reservations [simp]: "core_ok (st\<lparr>reservations := rs\<rparr>) = core_ok st"
  by (simp add: core_ok_def snapshots_ok_def seats_ok_def)

lemma fresh_reservation_ok:
  assumes "reservations_ok st" "find_reservation st (rv_class r) (rv_feat r) (rv_key r) = None"
    and "rv_id r = next_rv_id st" "ts \<noteq> []" "\<And>t. t \<in> set ts \<Longrightarrow> tx_reservation t = Some (rv_id r)"
  shows "reservations_ok (st\<lparr>reservations := reservations st @ [r], txs := txs st @ ts\<rparr>)"
proof -
  let ?st = "st\<lparr>reservations := reservations st @ [r], txs := txs st @ ts\<rparr>"
  have old: "sorted_wrt (<) (map rv_id (reservations st))"
    "distinct (map (\<lambda>r. (rv_class r, rv_feat r, rv_key r)) (reservations st))"
    "\<And>t i. t \<in> set (txs st) \<Longrightarrow> tx_reservation t = Some i \<Longrightarrow> i \<in> rv_id ` set (reservations st)"
    "\<And>r. r \<in> set (reservations st) \<Longrightarrow> \<exists>t \<in> set (txs st). tx_reservation t = Some (rv_id r)"
    using assms(1) unfolding reservations_ok_def by blast+
  have "sorted_wrt (<) (map rv_id (reservations ?st))"
    using old(1) assms(3) next_rv_id_fresh [of _ st] by (simp add: sorted_wrt_append)
  moreover have "distinct (map (\<lambda>r. (rv_class r, rv_feat r, rv_key r)) (reservations ?st))"
    using old(2) assms(2) by (simp add: find_reservation_None)
  moreover have "\<forall>t \<in> set (txs ?st). \<forall>i. tx_reservation t = Some i \<longrightarrow> i \<in> rv_id ` set (reservations ?st)"
    using old(3) assms(5) by fastforce
  moreover have "\<forall>r \<in> set (reservations ?st). \<exists>t \<in> set (txs ?st). tx_reservation t = Some (rv_id r)"
    using old(4) assms(4,5) hd_in_set [OF assms(4)] by fastforce
  ultimately show ?thesis unfolding reservations_ok_def by blast
qed

lemma create_reserved_effects_ok:
  assumes "create_reserved_effects digest race ctx now c feat key es intent st = Inr (rows, created, st')"
    and "ledger_ok st" "ledger_ok (race st)"
  shows "ledger_ok st'"
  using assms(1)
proof (cases rule: create_reserved_effects_cases)
  case (fresh fp r)
  let ?st1 = "(race st)\<lparr>reservations := reservations (race st) @ [r]\<rparr>"
  note shape = post_effects_shape [OF fresh(7)]
  have "core_ok st'"
  proof (rule post_effects_core [OF fresh(7)])
    show "core_ok ?st1" using assms(3) unfolding core_ok_reservations by (simp add: ledger_ok_def core_ok_def)
  qed
  moreover have "reservations_ok st'"
  proof -
    have "rows \<noteq> []" using shape(2) fresh(5) by auto
    moreover have "\<And>t. t \<in> set rows \<Longrightarrow> tx_reservation t = Some (rv_id r)"
      using shape(3) by (auto simp: list_all2_conv_all_nth in_set_conv_nth)
    ultimately show ?thesis
      using fresh_reservation_ok [of "race st" r rows] assms(3) fresh(2,6) shape(1)
      by (simp add: ledger_ok_def)
  qed
  ultimately show ?thesis by (simp add: ledger_ok_def core_ok_def)
qed (use assms in auto)

lemma post_effect_ok:
  assumes "post_effect ctx now None e st = Inr (t, st')" "ledger_ok st"
  shows "ledger_ok st'"
proof -
  have "core_ok st'" using post_effect_core [OF assms(1)] assms(2) by (simp add: ledger_ok_def core_ok_def)
  moreover have "reservations_ok st'"
    using assms(2) by (rule_tac post_effect_cases [OF assms(1)]) (auto simp: ledger_ok_def reservations_ok_def)
  ultimately show ?thesis by (simp add: ledger_ok_def core_ok_def)
qed

section \<open>Settlement\<close>

lemma normalize_known: "account_known a \<Longrightarrow> normalize_account_type a = Inr a"
proof -
  have "str_lower ''checking'' = ''checking''" "str_lower ''savings'' = ''savings''" by code_simp+
  then show "account_known a \<Longrightarrow> normalize_account_type a = Inr a"
    by (auto simp: account_known_def normalize_account_type_def)
qed

definition advanced :: "tx list \<Rightarrow> string \<Rightarrow> snapshot \<Rightarrow> snapshot \<Rightarrow> bool" where
  "advanced ts a sn sn' = (\<exists>k. sn' = sn\<lparr>cursor := k\<rparr>
     \<and> (\<forall>t \<in> set ts. tx_account t = a \<longrightarrow> (\<exists>m. k = Some m \<and> sequence_of t \<le> m))
     \<and> (\<forall>m. cursor sn = Some m \<longrightarrow> (\<exists>m'. k = Some m' \<and> m \<le> m'))
     \<and> (k = cursor sn \<or> (\<exists>t \<in> set ts. tx_account t = a \<and> k = Some (sequence_of t))))"

lemma advanced_Cons_other: "advanced ts a sn sn' \<Longrightarrow> tx_account t \<noteq> a \<Longrightarrow> advanced (t # ts) a sn sn'"
  unfolding advanced_def by auto

lemma advanced_Cons:
  assumes "tx_sequence t = Some q" "0 < q"
    and "advanced ts (tx_account t) (sn\<lparr>cursor := Some (max (case cursor sn of None \<Rightarrow> 0 | Some k \<Rightarrow> k) q)\<rparr>) sn'"
  shows "advanced (t # ts) (tx_account t) sn sn'"
proof -
  let ?k = "max (case cursor sn of None \<Rightarrow> 0 | Some k \<Rightarrow> k) q"
  have sq: "sequence_of t = q" using assms(1) by (simp add: sequence_of_def)
  from assms(3) obtain m' where m': "sn' = sn\<lparr>cursor := Some m'\<rparr>" "?k \<le> m'"
    "\<forall>u \<in> set ts. tx_account u = tx_account t \<longrightarrow> sequence_of u \<le> m'"
    "m' = ?k \<or> (\<exists>u \<in> set ts. tx_account u = tx_account t \<and> m' = sequence_of u)"
    by (auto simp: advanced_def)
  moreover have "Some m' = cursor sn \<or> (\<exists>u \<in> set (t # ts). tx_account u = tx_account t \<and> m' = sequence_of u)"
    using m'(4) assms(2) sq by (auto simp: max_def split: option.splits if_splits)
  ultimately show ?thesis
    unfolding advanced_def using sq by (intro exI [of _ "Some m'"]) (auto split: option.splits)
qed

lemma advance_cursors_result:
  assumes "\<forall>t \<in> set ts. (\<exists>q. tx_sequence t = Some q \<and> 0 < q) \<and> account_known (tx_account t) \<and> snaps (tx_account t) \<noteq> None"
  shows "\<exists>snaps'. advance_cursors ts snaps = Inr snaps' \<and>
     (\<forall>a. rel_option (advanced ts a) (snaps a) (snaps' a))"
  using assms
proof (induction ts arbitrary: snaps)
  case Nil
  have "advanced [] a sn sn" for a sn by (auto simp: advanced_def intro!: exI [of _ "cursor sn"])
  then show ?case by (auto simp: option.rel_refl)
next
  case (Cons t ts)
  from Cons.prems obtain q sn where q: "tx_sequence t = Some q" "0 < q" "account_known (tx_account t)"
    "snaps (tx_account t) = Some sn" by auto
  define snaps1 where
    "snaps1 = snaps(tx_account t \<mapsto> sn\<lparr>cursor := Some (max (case cursor sn of None \<Rightarrow> 0 | Some k \<Rightarrow> k) q)\<rparr>)"
  have step: "advance_cursors (t # ts) snaps = advance_cursors ts snaps1"
    by (simp add: normalize_known [OF q(3)] q snaps1_def)
  have "\<forall>u \<in> set ts. (\<exists>q. tx_sequence u = Some q \<and> 0 < q) \<and> account_known (tx_account u) \<and> snaps1 (tx_account u) \<noteq> None"
    using Cons.prems by (simp add: snaps1_def)
  from Cons.IH [OF this] obtain snaps' where s': "advance_cursors ts snaps1 = Inr snaps'"
    and H: "\<And>a. rel_option (advanced ts a) (snaps1 a) (snaps' a)" by blast
  have "rel_option (advanced (t # ts) a) (snaps a) (snaps' a)" for a
  proof (cases "a = tx_account t")
    case True
    with H [of a] q show ?thesis
      by (auto simp: snaps1_def option_rel_Some1 intro: advanced_Cons)
  next
    case False
    with H [of a] show ?thesis
      by (auto simp: snaps1_def elim!: option.rel_mono_strong intro: advanced_Cons_other)
  qed
  with step s' show ?case by auto
qed

text \<open>Marking a row as posted changes its timestamp only.\<close>

definition same_effect :: "tx \<Rightarrow> tx \<Rightarrow> bool" where
  "same_effect t u = (u\<lparr>tx_posted_at := tx_posted_at t\<rparr> = t)"

lemma same_effectD:
  assumes "same_effect t u"
  shows "tx_id u = tx_id t" "tx_scope u = tx_scope t" "tx_class u = tx_class t" "tx_seat u = tx_seat t"
    "tx_target u = tx_target t" "tx_actor u = tx_actor t" "tx_account u = tx_account t"
    "tx_sequence u = tx_sequence t" "tx_cents u = tx_cents t" "tx_reservation u = tx_reservation t"
    "sequence_of u = sequence_of t"
  using assms unfolding same_effect_def by (cases t; cases u; simp add: tx_scope_def sequence_of_def)+

lemma same_effect_refl [simp]: "same_effect t t"
  by (simp add: same_effect_def)

lemma same_effect_mark [simp]: "same_effect t (t\<lparr>tx_posted_at := p\<rparr>)"
  by (simp add: same_effect_def)

lemma sum_same_effect:
  assumes "list_all2 same_effect ts us" "\<And>t u. same_effect t u \<Longrightarrow> P u = P t"
  shows "sum_list (map tx_cents (filter P us)) = sum_list (map tx_cents (filter P ts))"
  using assms(1) by (induction rule: list_all2_induct) (auto simp: assms(2) same_effectD)

lemma same_effect_history:
  "list_all2 same_effect ts us \<Longrightarrow> posted_history_cents us sc b = posted_history_cents ts sc b"
  unfolding posted_history_cents_def by (auto split: option.splits intro!: sum_same_effect simp: same_effectD)

lemma same_effect_mem:
  "list_all2 same_effect ts us \<Longrightarrow> u \<in> set us \<Longrightarrow> \<exists>t \<in> set ts. same_effect t u"
  "list_all2 same_effect ts us \<Longrightarrow> t \<in> set ts \<Longrightarrow> \<exists>u \<in> set us. same_effect t u"
  by (fastforce simp: list_all2_conv_all_nth in_set_conv_nth)+

lemma same_effect_rows:
  assumes "list_all2 same_effect ts us" "rows_ok ts"
  shows "rows_ok us"
proof -
  have len: "length ts = length us" and "\<And>i. i < length us \<Longrightarrow> same_effect (ts ! i) (us ! i)"
    using assms(1) by (auto simp: list_all2_conv_all_nth)
  note eqs = same_effectD [OF this(2)]
  have "i < j \<Longrightarrow> j < length us \<Longrightarrow> i < length us" for i j :: nat by simp
  with assms(2) show ?thesis
    unfolding rows_ok_def by (simp add: sorted_wrt_iff_nth_less all_set_conv_all_nth len eqs)
qed

lemma settle_cases:
  assumes "settle_balances ro now s c st = Inr st'" "core_ok st"
  obtains (idle) "pending_txs st c s = []" "st' = st"
  | (advance) ts where "pending_txs st c s \<noteq> []" "list_all2 same_effect (txs st) ts" "txs st' = ts"
      "reservations st' = reservations st" "seat_class st' = seat_class st" "class_exists st' = class_exists st"
      "\<And>c' s' a. (c', s') \<noteq> (c, s) \<or> a \<notin> tx_account ` set (pending_txs st c s) \<Longrightarrow>
         snapshots st' (c', s', a) = snapshots st (c', s', a)"
      "\<And>a. a \<in> tx_account ` set (pending_txs st c s) \<Longrightarrow> \<exists>sn sn'.
         sn = (case snapshots st (c, s, a) of None \<Rightarrow> empty_snapshot | Some sn \<Rightarrow> sn)
         \<and> advanced (pending_txs st c s) a sn sn'
         \<and> snapshots st' (c, s, a) = Some (sn'\<lparr>posted_cents := posted_history_cents (txs st) (c, s, a) (cursor sn'),
              last_settlement := Some now\<rparr>)"
proof (cases "pending_txs st c s = []")
  case True
  with assms show thesis by (intro idle) (auto simp: settle_balances_def split: if_splits)
next
  case False
  let ?p = "pending_txs st c s"
  have row: "\<forall>t \<in> set ?p. (\<exists>q. tx_sequence t = Some q \<and> 0 < q) \<and> account_known (tx_account t)"
    using assms(2) by (auto simp: pending_txs_def core_ok_def rows_ok_def)
  have acc: "rmapM (\<lambda>t. normalize_account_type (tx_account t)) ?p = Inr (map tx_account ?p)"
    unfolding rmapM_Inr_iff using row by (auto simp: list_all2_conv_all_nth normalize_known)
  define snaps where "snaps = open_snapshots st c s (map tx_account ?p)"
  have "\<forall>t \<in> set ?p. (\<exists>q. tx_sequence t = Some q \<and> 0 < q) \<and> account_known (tx_account t) \<and> snaps (tx_account t) \<noteq> None"
    using row by (auto simp: snaps_def open_snapshots_def)
  from advance_cursors_result [OF this] obtain snaps' where sn': "advance_cursors ?p snaps = Inr snaps'"
    and adv: "\<And>a. rel_option (advanced ?p a) (snaps a) (snaps' a)" by blast
  let ?ts = "map (\<lambda>t. if t \<in> set ?p
     then t\<lparr>tx_posted_at := Some (case tx_posted_at t of None \<Rightarrow> now | Some p \<Rightarrow> p)\<rparr> else t) (txs st)"
  have st': "st' = st\<lparr>txs := ?ts, snapshots := (\<lambda>(c', s', a). if c' = c \<and> s' = s then
      (case snaps' a of None \<Rightarrow> snapshots st (c, s, a)
       | Some sn \<Rightarrow> Some (sn\<lparr>posted_cents := posted_history_cents (txs st) (c, s, a) (cursor sn),
           last_settlement := Some now\<rparr>)) else snapshots st (c', s', a))\<rparr>"
    using assms(1) False sn' by (auto simp: settle_balances_def Let_def acc snaps_def split: if_splits)
  show thesis
  proof (rule advance [of ?ts])
    show "list_all2 same_effect (txs st) ?ts" by (auto simp: list_all2_conv_all_nth)
    show "snapshots st' (c', s', a) = snapshots st (c', s', a)"
      if "(c', s') \<noteq> (c, s) \<or> a \<notin> tx_account ` set ?p" for c' s' a
      using that adv [of a] by (auto simp: st' snaps_def open_snapshots_def split: option.splits)
    show "\<exists>sn sn'. sn = (case snapshots st (c, s, a) of None \<Rightarrow> empty_snapshot | Some sn \<Rightarrow> sn)
         \<and> advanced ?p a sn sn' \<and> snapshots st' (c, s, a) =
             Some (sn'\<lparr>posted_cents := posted_history_cents (txs st) (c, s, a) (cursor sn'), last_settlement := Some now\<rparr>)"
      if "a \<in> tx_account ` set ?p" for a
      using that adv [of a] by (auto simp: st' snaps_def open_snapshots_def option_rel_Some1)
  qed (simp_all add: st' False)
qed

lemma settle_ok:
  assumes "settle_balances ro now s c st = Inr st'" "ledger_ok st"
  shows "ledger_ok st'"
proof -
  have core: "core_ok st" using assms(2) by (simp add: ledger_ok_def core_ok_def)
  from assms(1) core show ?thesis
  proof (cases rule: settle_cases)
    case idle
    with assms(2) show ?thesis by simp
  next
    case (advance ts)
    note same = advance(2) [folded advance(3)]
    have "rows_ok (txs st')" using same_effect_rows [OF same] core by (simp add: core_ok_def)
    moreover have "seats_ok st'"
      unfolding seats_ok_def
    proof (intro ballI)
      fix u assume "u \<in> set (txs st')"
      then obtain t where "t \<in> set (txs st)" "same_effect t u" using same_effect_mem(1) [OF same] by blast
      with core show "seat_class st' (tx_seat u) = Some (tx_class u)
        \<and> seat_class st' (tx_target u) = Some (tx_class u) \<and> seat_class st' (tx_actor u) = Some (tx_class u)"
        by (auto simp: core_ok_def seats_ok_def advance same_effectD)
    qed
    moreover have "reservations_ok st'"
      unfolding reservations_ok_def advance(4)
    proof (intro conjI ballI allI impI)
      have ok: "reservations_ok st" using assms(2) by (simp add: ledger_ok_def)
      then show "sorted_wrt (<) (map rv_id (reservations st))"
        "distinct (map (\<lambda>r. (rv_class r, rv_feat r, rv_key r)) (reservations st))"
        by (simp_all add: reservations_ok_def)
      show "i \<in> rv_id ` set (reservations st)" if u: "u \<in> set (txs st')" "tx_reservation u = Some i" for u i
      proof -
        obtain t where t: "t \<in> set (txs st)" "same_effect t u" using same_effect_mem(1) [OF same u(1)] by blast
        with ok u(2) show ?thesis by (simp add: reservations_ok_def same_effectD)
      qed
      show "\<exists>u \<in> set (txs st'). tx_reservation u = Some (rv_id r)" if r: "r \<in> set (reservations st)" for r
      proof -
        obtain t where t: "t \<in> set (txs st)" "tx_reservation t = Some (rv_id r)" using ok r by (auto simp: reservations_ok_def)
        obtain u where u: "u \<in> set (txs st')" "same_effect t u" using same_effect_mem(2) [OF same t(1)] by blast
        then show ?thesis using t(2) same_effectD(10) [OF u(2)] by auto
      qed
    qed
    moreover have "snapshots_ok st'"
      unfolding snapshots_ok_def
    proof (intro allI impI)
      fix sc sn assume sn: "snapshots st' sc = Some sn"
      obtain c' s' a where sc: "sc = (c', s', a)" by (cases sc)
      have lift: "\<exists>u \<in> set (txs st'). tx_class u = fst sc \<and> k \<le> sequence_of u"
        if "\<exists>u \<in> set (txs st). tx_class u = fst sc \<and> k \<le> sequence_of u" for k
        using that same_effect_mem(2) [OF same] by (metis same_effectD(3,11))
      show "posted_cents sn = posted_history_cents (txs st') sc (cursor sn)
        \<and> (\<forall>k. cursor sn = Some k \<longrightarrow> 0 < k \<and> (\<exists>u \<in> set (txs st'). tx_class u = fst sc \<and> k \<le> sequence_of u))"
      proof (cases "(c', s') \<noteq> (c, s) \<or> a \<notin> tx_account ` set (pending_txs st c s)")
        case True
        with sn sc advance(7) have "snapshots st sc = Some sn" by simp
        with core snapshots_okD [of st sc sn] lift show ?thesis
          by (auto simp: core_ok_def same_effect_history [OF same])
      next
        case False
        then have cs: "c' = c" "s' = s" by auto
        from False advance(8) [of a] obtain sn0 sn' where n: "advanced (pending_txs st c s) a sn0 sn'"
          "sn0 = (case snapshots st (c, s, a) of None \<Rightarrow> empty_snapshot | Some sn \<Rightarrow> sn)"
          "sn = sn'\<lparr>posted_cents := posted_history_cents (txs st) sc (cursor sn'), last_settlement := Some now\<rparr>"
          using sn sc cs by auto
        have "0 < k \<and> (\<exists>u \<in> set (txs st). tx_class u = fst sc \<and> k \<le> sequence_of u)" if k: "cursor sn = Some k" for k
        proof -
          from n(1,3) k consider "cursor sn0 = Some k"
            | t where "t \<in> set (pending_txs st c s)" "k = sequence_of t"
            by (auto simp: advanced_def)
          then show ?thesis
          proof cases
            case 1
            then have "snapshots st sc = Some sn0"
              using n(2) sc cs by (auto simp: empty_snapshot_def split: option.splits)
            with 1 core snapshots_okD(2,3) [of st sc sn0 k] show ?thesis by (auto simp: core_ok_def)
          next
            case 2
            then show ?thesis using sc cs core
              by (fastforce simp: pending_txs_def core_ok_def rows_ok_def sequence_of_def)
          qed
        qed
        with n(3) lift show ?thesis by (auto simp: same_effect_history [OF same])
      qed
    qed
    ultimately show ?thesis by (simp add: ledger_ok_def)
  qed
qed

end
