(* ===== verification/Ledger_Run.thy ===== *)
theory Ledger_Run
  imports Ledger_Invariant
begin

text \<open>
  Runs of the ledger: the states its operations reach from one another, and what no run changes. Every
  operation only extends the ledger (rows keep their effect, cursors only move up, reservations stay), so
  an available balance is the plain sum of history, a settled effect stays settled, and a committed
  command replays with its own rows.
\<close>

section \<open>Balances and posting states\<close>

lemma tx_state_POSTED:
  "tx_state st t = POSTED \<longleftrightarrow> (\<exists>q k. tx_sequence t = Some q \<and> scope_cursor st (tx_scope t) = Some k \<and> q \<le> k)"
  by (auto simp: tx_state_def classify_posting_state_def split: option.splits)

lemma tx_state_PENDING: "tx_state st t = PENDING \<longleftrightarrow> tx_state st t \<noteq> POSTED"
  by (cases "tx_state st t") auto

lemma sum_filter_split:
  "sum_list (map f (filter (\<lambda>x. P x \<and> Q x) xs)) + sum_list (map f (filter (\<lambda>x. P x \<and> \<not> Q x) xs))
     = sum_list (map f (filter P xs))" for f :: "'a \<Rightarrow> int"
  by (induction xs) auto

lemma state_cents_split: "state_cents st POSTED sc + state_cents st PENDING sc = scope_total st sc"
  using sum_filter_split [of tx_cents "\<lambda>t. tx_scope t = sc" "\<lambda>t. tx_state st t = POSTED" "txs st"]
  by (simp add: state_cents_def scope_total_def tx_state_PENDING)

text \<open>A snapshot's cents are the sum of the rows its own cursor makes POSTED.\<close>

lemma posted_history_state:
  "posted_history_cents (txs st) sc (scope_cursor st sc) = state_cents st POSTED sc"
proof -
  have "filter (\<lambda>t. tx_scope t = sc \<and> tx_state st t = POSTED) ts = []" if "scope_cursor st sc = None" for ts
    using that by (auto simp: tx_state_POSTED)
  moreover have "filter (\<lambda>t. tx_scope t = sc \<and> tx_state st t = POSTED) ts
      = filter (\<lambda>t. tx_scope t = sc \<and> (case tx_sequence t of None \<Rightarrow> False | Some q \<Rightarrow> q \<le> k)) ts"
    if "scope_cursor st sc = Some k" for k ts
    using that by (intro filter_cong) (auto simp: tx_state_POSTED split: option.splits)
  ultimately show ?thesis
    by (simp add: posted_history_cents_def state_cents_def split: option.splits)
qed

lemma snapshot_state:
  "core_ok st \<Longrightarrow> snapshots st sc = Some sn \<Longrightarrow> posted_cents sn = state_cents st POSTED sc"
  using snapshots_okD(1) [of st sc sn] posted_history_state [of st sc]
  by (simp add: core_ok_def scope_cursor_def)

lemma available_is_total: "core_ok st \<Longrightarrow> available_balance_expression st s c a = scope_total st (c, s, a)"
  using state_cents_split [of st "(c, s, a)"]
  by (auto simp: available_balance_expression_def snapshot_state split: option.splits)

lemma same_effect_total:
  "list_all2 same_effect (txs st) (txs st') \<Longrightarrow> scope_total st' sc = scope_total st sc"
  unfolding scope_total_def by (rule sum_same_effect) (simp_all add: same_effectD)

lemma ledger_ok_core: "ledger_ok st \<Longrightarrow> core_ok st"
  by (simp add: ledger_ok_def core_ok_def)

section \<open>Extension\<close>

definition cursors_grow :: "'h ledger \<Rightarrow> 'h ledger \<Rightarrow> bool" where
  "cursors_grow st st' = (\<forall>sc k. scope_cursor st sc = Some k \<longrightarrow> (\<exists>k'. scope_cursor st' sc = Some k' \<and> k \<le> k'))"

text \<open>What every operation leaves: old rows with their effects, fresh reservations, cursors no lower, the same roster.\<close>

definition extends :: "'h ledger \<Rightarrow> 'h ledger \<Rightarrow> bool" where
  "extends st st' = ((\<exists>us vs. txs st' = us @ vs \<and> list_all2 same_effect (txs st) us
       \<and> (\<forall>t \<in> set vs. \<forall>i. tx_reservation t = Some i \<longrightarrow> i \<notin> rv_id ` set (reservations st)))
     \<and> (\<exists>rs. reservations st' = reservations st @ rs) \<and> cursors_grow st st'
     \<and> seat_class st' = seat_class st \<and> class_exists st' = class_exists st)"

lemma same_effect_trans: "same_effect t u \<Longrightarrow> same_effect u v \<Longrightarrow> same_effect t v"
  by (cases t; cases u; cases v) (simp add: same_effect_def)

lemma same_effects_refl [simp]: "list_all2 same_effect ts ts"
  by (simp add: list.rel_refl)

lemma same_effects_trans:
  "list_all2 same_effect ts us \<Longrightarrow> list_all2 same_effect us vs \<Longrightarrow> list_all2 same_effect ts vs"
  by (rule list_all2_trans [OF same_effect_trans])

lemma cursors_grow_refl [simp]: "cursors_grow st st"
  by (simp add: cursors_grow_def)

lemma extends_refl [simp]: "extends st st"
  unfolding extends_def by (intro conjI exI [of _ "txs st"] exI [of _ "[]"]) auto

lemma extends_trans:
  assumes "extends st st1" "extends st1 st2"
  shows "extends st st2"
proof -
  obtain us vs rs where a: "txs st1 = us @ vs" "list_all2 same_effect (txs st) us"
    "\<And>t i. t \<in> set vs \<Longrightarrow> tx_reservation t = Some i \<Longrightarrow> i \<notin> rv_id ` set (reservations st)"
    "reservations st1 = reservations st @ rs"
    using assms(1) unfolding extends_def by blast
  obtain us' vs' rs' where b: "txs st2 = us' @ vs'" "list_all2 same_effect (us @ vs) us'"
    "\<And>t i. t \<in> set vs' \<Longrightarrow> tx_reservation t = Some i \<Longrightarrow> i \<notin> rv_id ` set (reservations st1)"
    "reservations st2 = reservations st1 @ rs'"
    using assms(2) a(1) unfolding extends_def by auto
  obtain us1 vs1 where c: "us' = us1 @ vs1" "list_all2 same_effect us us1" "list_all2 same_effect vs vs1"
    using b(2) by (auto simp: list_all2_append1)
  have "tx_reservation t = Some i \<Longrightarrow> i \<notin> rv_id ` set (reservations st)" if t: "t \<in> set (vs1 @ vs')" for t i
  proof (cases "t \<in> set vs'")
    case True
    then show "tx_reservation t = Some i \<Longrightarrow> i \<notin> rv_id ` set (reservations st)" using b(3) a(4) by auto
  next
    case False
    then obtain v where "v \<in> set vs" "same_effect v t" using t same_effect_mem(1) [OF c(3)] by auto
    then show "tx_reservation t = Some i \<Longrightarrow> i \<notin> rv_id ` set (reservations st)"
      using a(3) by (simp add: same_effectD)
  qed
  moreover have "txs st2 = us1 @ (vs1 @ vs')" using b(1) c(1) by simp
  moreover have "list_all2 same_effect (txs st) us1" using same_effects_trans [OF a(2) c(2)] .
  moreover have "cursors_grow st st2"
    using assms unfolding extends_def cursors_grow_def by (meson order_trans)
  ultimately show ?thesis
    using assms a(4) b(4) unfolding extends_def
    by (intro conjI exI [of _ us1] exI [of _ "vs1 @ vs'"] exI [of _ "rs @ rs'"]) auto
qed

lemma extends_append:
  assumes "st' = st\<lparr>reservations := reservations st @ rs, txs := txs st @ vs\<rparr>"
    and "\<And>t i. t \<in> set vs \<Longrightarrow> tx_reservation t = Some i \<Longrightarrow> i \<notin> rv_id ` set (reservations st)"
  shows "extends st st'"
proof -
  have "\<exists>us vs'. txs st' = us @ vs' \<and> list_all2 same_effect (txs st) us
       \<and> (\<forall>t \<in> set vs'. \<forall>i. tx_reservation t = Some i \<longrightarrow> i \<notin> rv_id ` set (reservations st))"
    using assms by (intro exI [of _ "txs st"] exI [of _ vs]) simp
  then show ?thesis
    using assms(1) by (simp add: extends_def cursors_grow_def scope_cursor_def)
qed

lemma post_effect_extends:
  assumes "post_effect ctx now None e st = Inr (t, st')"
  shows "extends st st'"
  by (rule post_effect_cases [OF assms]) (rule extends_append [where rs = "[]" and vs = "[t]"]; simp)

lemma create_reserved_effects_extends:
  assumes "create_reserved_effects digest race ctx now c feat key es intent st = Inr (rows, created, st')"
  shows "st' = st \<or> extends (race st) st'"
  using assms
proof (cases rule: create_reserved_effects_cases)
  case (fresh fp r)
  note shape = post_effects_shape [OF fresh(7)]
  have "st' = (race st)\<lparr>reservations := reservations (race st) @ [r], txs := txs (race st) @ rows\<rparr>"
    using shape(1) by simp
  moreover have "i \<notin> rv_id ` set (reservations (race st))"
    if "t \<in> set rows" "tx_reservation t = Some i" for t i
  proof -
    have "i = next_rv_id (race st)"
      using that shape(3) fresh(6) by (auto simp: list_all2_conv_all_nth in_set_conv_nth)
    then show ?thesis by (auto dest: next_rv_id_fresh)
  qed
  ultimately show ?thesis using extends_append by blast
qed auto

section \<open>Settlement\<close>

lemma settle_cursor_pending:
  assumes "settle_balances ro now s c st = Inr st'" "core_ok st" "t \<in> set (pending_txs st c s)"
  shows "\<exists>k. scope_cursor st' (c, s, tx_account t) = Some k \<and> sequence_of t \<le> k"
  using assms(1,2)
proof (cases rule: settle_cases)
  case (advance ts)
  from assms(3) advance(8) [of "tx_account t"] obtain sn sn' where
    "advanced (pending_txs st c s) (tx_account t) sn sn'"
    "snapshots st' (c, s, tx_account t) = Some (sn'\<lparr>posted_cents :=
       posted_history_cents (txs st) (c, s, tx_account t) (cursor sn'), last_settlement := Some now\<rparr>)" by blast
  with assms(3) show ?thesis by (auto simp: advanced_def scope_cursor_def)
qed (use assms(3) in auto)

lemma settle_cursors_grow:
  assumes "settle_balances ro now s c st = Inr st'" "core_ok st"
  shows "cursors_grow st st'"
  using assms
proof (cases rule: settle_cases)
  case (advance ts)
  show ?thesis
    unfolding cursors_grow_def
  proof (intro allI impI)
    fix sc k assume k: "scope_cursor st sc = Some k"
    obtain c' s' a where sc: "sc = (c', s', a)" by (cases sc)
    show "\<exists>k'. scope_cursor st' sc = Some k' \<and> k \<le> k'"
    proof (cases "(c', s') \<noteq> (c, s) \<or> a \<notin> tx_account ` set (pending_txs st c s)")
      case True
      with advance(7) sc k show ?thesis by (simp add: scope_cursor_def)
    next
      case False
      then have cs: "c' = c" "s' = s" by auto
      from False advance(8) [of a] obtain sn sn' where n:
        "sn = (case snapshots st (c, s, a) of None \<Rightarrow> empty_snapshot | Some sn \<Rightarrow> sn)"
        "advanced (pending_txs st c s) a sn sn'"
        "snapshots st' (c, s, a) = Some (sn'\<lparr>posted_cents := posted_history_cents (txs st) (c, s, a) (cursor sn'),
              last_settlement := Some now\<rparr>)" by blast
      have "cursor sn = Some k" using n(1) k sc cs by (auto simp: scope_cursor_def split: option.splits)
      with n(2,3) sc cs show ?thesis by (auto simp: advanced_def scope_cursor_def)
    qed
  qed
qed (simp add: cursors_grow_def)

lemma settle_same_effects:
  assumes "settle_balances ro now s c st = Inr st'" "core_ok st"
  shows "list_all2 same_effect (txs st) (txs st')"
  using assms by (cases rule: settle_cases) auto

lemma settle_extends:
  assumes "settle_balances ro now s c st = Inr st'" "core_ok st"
  shows "extends st st'"
proof -
  have "reservations st' = reservations st" "seat_class st' = seat_class st" "class_exists st' = class_exists st"
    using assms by (cases rule: settle_cases; simp)+
  then show ?thesis
    using settle_cursors_grow [OF assms] settle_same_effects [OF assms]
    unfolding extends_def by (intro conjI exI [of _ "txs st'"] exI [of _ "[]"]) auto
qed

text \<open>A row POSTED before is POSTED after anything that extends the ledger.\<close>

lemma cursors_grow_POSTED:
  assumes "cursors_grow st st'" "same_effect t u" "tx_state st t = POSTED"
  shows "tx_state st' u = POSTED"
proof -
  obtain q k where q: "tx_sequence t = Some q" "scope_cursor st (tx_scope t) = Some k" "q \<le> k"
    using assms(3) by (auto simp: tx_state_POSTED)
  moreover obtain k' where "scope_cursor st' (tx_scope t) = Some k'" "k \<le> k'"
    using assms(1) q(2) unfolding cursors_grow_def by blast
  ultimately show ?thesis by (auto simp: tx_state_POSTED same_effectD [OF assms(2)])
qed

lemma settle_leaves_nothing_pending:
  assumes "settle_balances ro now s c st = Inr st'" "core_ok st"
  shows "pending_txs st' c s = []"
proof -
  have "tx_state st' u = POSTED" if u: "u \<in> set (txs st')" "tx_class u = c" "tx_seat u = s" for u
  proof -
    from u(1) obtain t where t: "t \<in> set (txs st)" "same_effect t u"
      using same_effect_mem(1) [OF settle_same_effects [OF assms]] by blast
    show ?thesis
    proof (cases "tx_state st t = POSTED")
      case True
      then show ?thesis using cursors_grow_POSTED [OF settle_cursors_grow [OF assms] t(2)] by simp
    next
      case False
      then have "t \<in> set (pending_txs st c s)"
        using t u by (auto simp: pending_txs_def tx_state_PENDING same_effectD)
      from settle_cursor_pending [OF assms this] obtain k where
        "scope_cursor st' (c, s, tx_account t) = Some k" "sequence_of t \<le> k" by blast
      moreover obtain q where "tx_sequence t = Some q"
        using assms(2) t(1) by (auto simp: core_ok_def rows_ok_def)
      ultimately show ?thesis
        using u same_effectD [OF t(2)] by (auto simp: tx_state_POSTED tx_scope_def sequence_of_def)
    qed
  qed
  then show ?thesis by (auto simp: pending_txs_def tx_state_PENDING filter_empty_conv)
qed

text \<open>Nothing but the roster and a read-only request stops a settlement of a well-formed ledger.\<close>

lemma settle_total:
  assumes "core_ok st" "seat_class st s = Some c" "class_exists st c"
  shows "\<exists>st'. settle_balances False now s c st = Inr st'"
proof -
  let ?p = "pending_txs st c s"
  have row: "\<forall>t \<in> set ?p. (\<exists>q. tx_sequence t = Some q \<and> 0 < q) \<and> account_known (tx_account t)"
    using assms(1) by (auto simp: pending_txs_def core_ok_def rows_ok_def)
  have "rmapM (\<lambda>t. normalize_account_type (tx_account t)) ?p = Inr (map tx_account ?p)"
    unfolding rmapM_Inr_iff using row by (auto simp: list_all2_conv_all_nth normalize_known)
  moreover have "\<forall>t \<in> set ?p. (\<exists>q. tx_sequence t = Some q \<and> 0 < q) \<and> account_known (tx_account t)
      \<and> open_snapshots st c s (map tx_account ?p) (tx_account t) \<noteq> None"
    using row by (auto simp: open_snapshots_def)
  from advance_cursors_result [OF this] obtain snaps' where
    "advance_cursors ?p (open_snapshots st c s (map tx_account ?p)) = Inr snaps'" by blast
  ultimately show ?thesis using assms(2,3) by (simp add: settle_balances_def Let_def)
qed

section \<open>Totals of posted effects\<close>

lemma scope_total_append:
  "txs st' = txs st @ rows \<Longrightarrow> scope_total st' sc = scope_total st sc + sum_list (map tx_cents (filter (\<lambda>t. tx_scope t = sc) rows))"
  by (simp add: scope_total_def)

lemma total_of_rows:
  "list_all2 (\<lambda>e t. tx_scope t = (ef_class e, ef_seat e, ef_account e) \<and> tx_cents t = cents_even (ef_amount e) \<and> R t) es ts
     \<Longrightarrow> sum_list (map tx_cents (filter (\<lambda>t. tx_scope t = sc) ts))
       = sum_list (map (\<lambda>e. cents_even (ef_amount e)) (filter (\<lambda>e. (ef_class e, ef_seat e, ef_account e) = sc) es))"
  by (induction rule: list_all2_induct) auto

lemma post_effects_total:
  assumes "post_effects ctx now rv es st = Inr (ts, st')"
  shows "scope_total st' sc = scope_total st sc
    + sum_list (map (\<lambda>e. cents_even (ef_amount e)) (filter (\<lambda>e. (ef_class e, ef_seat e, ef_account e) = sc) es))"
  using scope_total_append [of st' st ts sc] total_of_rows [OF post_effects_shape(3) [OF assms], of sc]
    arg_cong [OF post_effects_shape(1) [OF assms], of txs] by simp

end
