(* ===== verification/Command_Interface.thy ===== *)
theory Command_Interface
  imports Prelude
begin

text \<open>
  The contract of an idempotent command boundary, as its callers rely on it: a command that succeeded
  once succeeds on every later state with the same rows and without effect. What the callers get from it
  is proved once: whatever is delivered again, the effects are those of the first deliveries.
\<close>

text \<open>A delivery is a command with the environment it met: context, clock and concurrent commits.\<close>

fun deliver_all :: "('cmd \<Rightarrow> 'env \<Rightarrow> 'st \<Rightarrow> 'err + ('rows \<times> bool \<times> 'st)) \<Rightarrow> ('cmd \<times> 'env) list \<Rightarrow> 'st
    \<Rightarrow> 'err + ('rows list \<times> 'st)" where
  "deliver_all run [] st = Inr ([], st)"
| "deliver_all run ((x, env) # ds) st =
     rbind (run x env st) (\<lambda>(rows, created, st1).
     rbind (deliver_all run ds st1) (\<lambda>(rs, st2). Inr (rows # rs, st2)))"

fun first_deliveries :: "'cmd list \<Rightarrow> ('cmd \<times> 'env) list \<Rightarrow> ('cmd \<times> 'env) list" where
  "first_deliveries seen [] = []"
| "first_deliveries seen ((x, env) # ds) =
     (if x \<in> set seen then first_deliveries seen ds else (x, env) # first_deliveries (x # seen) ds)"

lemma first_deliveries_cong: "set seen = set seen' \<Longrightarrow> first_deliveries seen ds = first_deliveries seen' ds"
proof (induction ds arbitrary: seen seen')
  case (Cons d ds)
  then have "set (fst d # seen) = set (fst d # seen')" by simp
  from Cons.IH [OF this] Cons.IH [OF Cons.prems] Cons.prems show ?case by (cases d) simp
qed simp

locale replayable_command =
  fixes run :: "'cmd \<Rightarrow> 'env \<Rightarrow> 'st \<Rightarrow> 'err + ('rows \<times> bool \<times> 'st)"
    and env_ok :: "'env \<Rightarrow> bool"
    and later :: "'st \<Rightarrow> 'st \<Rightarrow> bool"
    and same_rows :: "'rows \<Rightarrow> 'rows \<Rightarrow> bool"
  assumes later_refl: "later st st' \<Longrightarrow> later st' st'"
    and later_trans: "later st st1 \<Longrightarrow> later st1 st2 \<Longrightarrow> later st st2"
    and run_later: "run x env st = Inr (rows, created, st') \<Longrightarrow> env_ok env \<Longrightarrow> later st st \<Longrightarrow> later st st'"
    and run_replays: "run x env st = Inr (rows, created, st') \<Longrightarrow> env_ok env \<Longrightarrow> later st st
      \<Longrightarrow> later st' st2 \<Longrightarrow> \<exists>rows2. run x env2 st2 = Inr (rows2, False, st2) \<and> same_rows rows rows2"
begin

definition done_before :: "'cmd \<Rightarrow> 'st \<Rightarrow> bool" where
  "done_before x st = (\<forall>st2. later st st2 \<longrightarrow> (\<forall>env. \<exists>rows. run x env st2 = Inr (rows, False, st2)))"

lemma run_done: "run x env st = Inr (rows, created, st') \<Longrightarrow> env_ok env \<Longrightarrow> later st st \<Longrightarrow> done_before x st'"
  unfolding done_before_def using run_replays by blast

lemma done_later: "done_before x st \<Longrightarrow> later st st' \<Longrightarrow> done_before x st'"
  unfolding done_before_def using later_trans by blast

lemma redelivery_changes_nothing:
  assumes "deliver_all run ds st = Inr (rs, st')" "later st st" "\<forall>d \<in> set ds. env_ok (snd d)"
    and "\<forall>x \<in> set seen. done_before x st"
  shows "\<exists>rs'. deliver_all run (first_deliveries seen ds) st = Inr (rs', st')"
  using assms
proof (induction ds arbitrary: seen st rs)
  case (Cons d ds)
  obtain x env where d: "d = (x, env)" by (cases d)
  from Cons.prems(1) obtain rows created st1 rs1 where s:
    "run x env st = Inr (rows, created, st1)" "deliver_all run ds st1 = Inr (rs1, st')"
    by (auto simp: d res_simps)
  from Cons.prems(3) have env: "env_ok env" by (simp add: d)
  have l: "later st st1" using run_later [OF s(1) env Cons.prems(2)] .
  have seen1: "\<forall>y \<in> set seen. done_before y st1" using Cons.prems(4) done_later l by blast
  show ?case
  proof (cases "x \<in> set seen")
    case True
    then obtain rows2 where "run x env st = Inr (rows2, False, st)"
      using Cons.prems(2,4) unfolding done_before_def by blast
    with s(1) have "st1 = st" by simp
    with Cons.IH [OF s(2)] Cons.prems True show ?thesis by (simp add: d)
  next
    case False
    have "\<forall>y \<in> set (x # seen). done_before y st1" using seen1 run_done [OF s(1) env Cons.prems(2)] by simp
    with Cons.IH [OF s(2) later_refl [OF l], of "x # seen"] Cons.prems(3) obtain rs' where
      "deliver_all run (first_deliveries (x # seen) ds) st1 = Inr (rs', st')" by auto
    with s(1) False show ?thesis by (simp add: d)
  qed
qed simp

lemma deliveries_take_effect_once:
  assumes "deliver_all run ds st = Inr (rs, st')" "later st st" "\<forall>d \<in> set ds. env_ok (snd d)"
  shows "\<exists>rs'. deliver_all run (first_deliveries [] ds) st = Inr (rs', st')"
  using redelivery_changes_nothing [OF assms] by simp

end

end
