(* ===== verification/Ledger_Claims.thy ===== *)
theory Ledger_Claims
  imports Ledger_Run Command_Interface
begin

text \<open>
  The ledger's properties: its runs, the reserved command as an instance of the replay contract, and
  the theorems about balances, settlement, sequences and verification.
\<close>

section \<open>Runs\<close>

inductive ledger_run :: "(fprint \<Rightarrow> 'h) \<Rightarrow> 'h ledger \<Rightarrow> 'h ledger \<Rightarrow> bool" for digest where
  run_refl: "ledger_run digest st st"
| run_post: "ledger_run digest st st1 \<Longrightarrow> post_effect ctx now None e st1 = Inr (t, st2) \<Longrightarrow> ledger_run digest st st2"
| run_command: "ledger_run digest st st1 \<Longrightarrow> ledger_run digest st1 (race st1)
    \<Longrightarrow> create_reserved_effects digest race ctx now c feat key es intent st1 = Inr (rows, created, st2)
    \<Longrightarrow> ledger_run digest st st2"
| run_settle: "ledger_run digest st st1 \<Longrightarrow> settle_balances ro now s c st1 = Inr st2 \<Longrightarrow> ledger_run digest st st2"

inductive_cases ledger_run_elim: "ledger_run digest st st'"

text \<open>The ledger before its first row, over a given roster.\<close>

definition empty_ledger :: "(seat_id \<Rightarrow> class_id option) \<Rightarrow> (class_id \<Rightarrow> bool) \<Rightarrow> 'h ledger" where
  "empty_ledger seats classes = \<lparr>txs = [], snapshots = (\<lambda>_. None), reservations = [], seat_class = seats, class_exists = classes\<rparr>"

lemma empty_ledger_ok: "ledger_ok (empty_ledger seats classes)"
  by (simp add: ledger_ok_def rows_ok_def snapshots_ok_def seats_ok_def reservations_ok_def empty_ledger_def)

lemma run_ok_extends: "ledger_run digest st st' \<Longrightarrow> ledger_ok st \<Longrightarrow> ledger_ok st' \<and> extends st st'"
proof (induction rule: ledger_run.induct)
  case (run_post st st1 ctx now e t st2)
  then show ?case using post_effect_ok post_effect_extends extends_trans by blast
next
  case (run_command st st1 race ctx now c feat key es intent rows created st2)
  then have "ledger_ok st2" using create_reserved_effects_ok by blast
  moreover have "extends st1 st2"
    using create_reserved_effects_extends [OF run_command.hyps(3)] run_command extends_trans by auto
  ultimately show ?case using run_command extends_trans by blast
next
  case (run_settle st st1 ro now s c st2)
  then show ?case using settle_ok settle_extends ledger_ok_core extends_trans by metis
qed simp

section \<open>Replay\<close>

text \<open>The rows of a committed reservation are the same effects in every extension.\<close>

lemma filter_same_effect:
  "list_all2 same_effect ts us \<Longrightarrow> list_all2 same_effect
     (filter (\<lambda>t. tx_reservation t = i) ts) (filter (\<lambda>t. tx_reservation t = i) us)"
  by (induction rule: list_all2_induct) (auto simp: same_effectD)

lemma reserved_txs_sorted:
  assumes "rows_ok (txs st)"
  shows "reserved_txs st i = filter (\<lambda>t. tx_reservation t = Some i) (txs st)"
proof -
  have "sorted (map tx_id (txs st))"
    using assms by (auto simp: rows_ok_def intro: strict_sorted_imp_sorted)
  then have "sorted (map tx_id (filter (\<lambda>t. tx_reservation t = Some i) (txs st)))"
    by (rule sorted_filter)
  then show ?thesis by (simp add: reserved_txs_def sort_key_id_if_sorted)
qed

lemma reserved_txs_extends:
  assumes "extends st st'" "rows_ok (txs st)" "rows_ok (txs st')" "r \<in> set (reservations st)"
  shows "list_all2 same_effect (reserved_txs st (rv_id r)) (reserved_txs st' (rv_id r))"
proof -
  obtain us vs where u: "txs st' = us @ vs" "list_all2 same_effect (txs st) us"
    "\<And>t i. t \<in> set vs \<Longrightarrow> tx_reservation t = Some i \<Longrightarrow> i \<notin> rv_id ` set (reservations st)"
    using assms(1) unfolding extends_def by blast
  have "filter (\<lambda>t. tx_reservation t = Some (rv_id r)) vs = []"
    using u(3) assms(4) by (auto simp: filter_empty_conv)
  then show ?thesis
    using filter_same_effect [OF u(2)] u(1)
    by (simp add: reserved_txs_sorted [OF assms(2)] reserved_txs_sorted [OF assms(3)])
qed

lemma find_reservation_append:
  "find_reservation st c feat key = Some r \<Longrightarrow> reservations st' = reservations st @ rs
     \<Longrightarrow> find_reservation st' c feat key = Some r"
  by (auto simp: find_reservation_def find_append)

text \<open>After a command, its reservation is there, its fingerprint is the payload's, and it owns the rows.\<close>

lemma create_reserved_effects_done:
  assumes "create_reserved_effects digest race ctx now c feat key es intent st = Inr (rows, created, st')"
    and "ledger_ok st" "ledger_ok (race st)"
  shows "\<exists>r. find_reservation st' c feat key = Some r \<and> replay_effects digest r es intent st' = Inr rows"
  using assms(1)
proof (cases rule: create_reserved_effects_cases)
  case (fresh fp r)
  note shape = post_effects_shape [OF fresh(7)]
  have res: "\<And>t. t \<in> set rows \<Longrightarrow> tx_reservation t = Some (rv_id r)"
    using shape(3) by (auto simp: list_all2_conv_all_nth in_set_conv_nth)
  have "find_reservation st' c feat key = Some r"
    using fresh(2,6) shape(1) by (simp add: find_reservation_def find_append)
  moreover have "reserved_txs st' (rv_id r) = rows"
  proof -
    have ok': "rows_ok (txs st')" using create_reserved_effects_ok [OF assms] by (simp add: ledger_ok_def)
    have "filter (\<lambda>t. tx_reservation t = Some (rv_id r)) (txs (race st)) = []"
    proof -
      have "tx_reservation t = Some i \<Longrightarrow> i \<in> rv_id ` set (reservations (race st))"
        if "t \<in> set (txs (race st))" for t i
        using that assms(3) by (auto simp: ledger_ok_def reservations_ok_def)
      then show ?thesis using next_rv_id_fresh [of _ "race st"] fresh(6) by (fastforce simp: filter_empty_conv)
    qed
    with res shape(1) show ?thesis unfolding reserved_txs_sorted [OF ok'] by simp
  qed
  moreover have "rows \<noteq> []" using shape(2) fresh(5) by auto
  ultimately show ?thesis
    using fresh(4,6) by (auto simp: replay_effects_def assert_replay_matches_def
        fingerprint_matches_reservation_def supported_version_def fingerprint_version_def)
qed (use assms in auto)

lemma replay_effects_extends:
  assumes "replay_effects digest r es intent st = Inr rows" "extends st st'" "r \<in> set (reservations st)"
    and "rows_ok (txs st)" "rows_ok (txs st')"
  shows "\<exists>rows'. replay_effects digest r es intent st' = Inr rows' \<and> list_all2 same_effect rows rows'"
  using reserved_txs_extends [OF assms(2,4,5,3)] assms(1)
  by (auto simp: replay_effects_def res_simps Let_def split: if_splits)

section \<open>The reserved command as a replayable command\<close>

record command =
  cmd_class :: class_id
  cmd_feat :: string
  cmd_key :: string
  cmd_effects :: "effect list"
  cmd_intent :: "fval list option"

record 'h environment =
  env_ctx :: feat_ctx
  env_now :: int
  env_race :: "'h ledger \<Rightarrow> 'h ledger"

definition run_command :: "(fprint \<Rightarrow> 'h) \<Rightarrow> command \<Rightarrow> 'h environment \<Rightarrow> 'h ledger \<Rightarrow> led_error + (tx list \<times> bool \<times> 'h ledger)" where
  "run_command digest x env st = create_reserved_effects digest (env_race env) (env_ctx env) (env_now env)
     (cmd_class x) (cmd_feat x) (cmd_key x) (cmd_effects x) (cmd_intent x) st"

definition ledger_later :: "'h ledger \<Rightarrow> 'h ledger \<Rightarrow> bool" where
  "ledger_later st st' = (ledger_ok st \<and> ledger_ok st' \<and> extends st st')"

text \<open>Concurrent sessions only ever extend a well-formed ledger.\<close>

definition environment_ok :: "'h environment \<Rightarrow> bool" where
  "environment_ok env = (\<forall>st. ledger_ok st \<longrightarrow> ledger_later st (env_race env st))"

lemma run_command_later:
  assumes "run_command digest x env st = Inr (rows, created, st')" "environment_ok env" "ledger_ok st"
  shows "ledger_later st st'"
proof -
  have r: "ledger_ok (env_race env st)" "extends st (env_race env st)"
    using assms(2,3) by (auto simp: environment_ok_def ledger_later_def)
  from create_reserved_effects_ok [OF assms(1) [unfolded run_command_def] assms(3) r(1)]
    create_reserved_effects_extends [OF assms(1) [unfolded run_command_def]] r(2) extends_trans assms(3)
  show ?thesis by (auto simp: ledger_later_def)
qed

lemma run_command_replays:
  assumes "run_command digest x env st = Inr (rows, created, st')" "environment_ok env" "ledger_ok st"
    and "ledger_later st' st2"
  shows "\<exists>rows2. run_command digest x env2 st2 = Inr (rows2, False, st2) \<and> list_all2 same_effect rows rows2"
proof -
  have "ledger_ok (env_race env st)" using assms(2,3) by (auto simp: environment_ok_def ledger_later_def)
  from create_reserved_effects_done [OF assms(1) [unfolded run_command_def] assms(3) this] obtain r where r:
    "find_reservation st' (cmd_class x) (cmd_feat x) (cmd_key x) = Some r"
    "replay_effects digest r (cmd_effects x) (cmd_intent x) st' = Inr rows" by blast
  obtain rs where "reservations st2 = reservations st' @ rs"
    using assms(4) by (auto simp: ledger_later_def extends_def)
  from find_reservation_append [OF r(1) this]
  have f2: "find_reservation st2 (cmd_class x) (cmd_feat x) (cmd_key x) = Some r" .
  from replay_effects_extends [OF r(2)] find_reservation_Some(1) [OF r(1)] assms(4) obtain rows2 where
    "replay_effects digest r (cmd_effects x) (cmd_intent x) st2 = Inr rows2" "list_all2 same_effect rows rows2"
    by (auto simp: ledger_later_def ledger_ok_def)
  moreover have "check_key (cmd_class x) (cmd_feat x) (cmd_key x) (cmd_effects x) = Inr ()"
    "\<exists>fp. replay_fingerprint (cmd_effects x) fingerprint_version (cmd_intent x) = Inr fp"
    using assms(1) by (auto simp: run_command_def create_reserved_effects_def res_simps)
  ultimately show ?thesis
    using f2 by (auto simp: run_command_def create_reserved_effects_def)
qed

interpretation reserved: replayable_command "run_command digest" environment_ok ledger_later "list_all2 same_effect"
  for digest :: "fprint \<Rightarrow> 'h"
proof
  show "ledger_later st st2" if "ledger_later st st1" "ledger_later st1 st2" for st st1 st2 :: "'h ledger"
    using that extends_trans by (auto simp: ledger_later_def)
  show "ledger_later st st'"
    if "run_command digest x env st = Inr (rows, created, st')" "environment_ok env" "ledger_later st st"
    for x env and st st' :: "'h ledger" and rows created
    using that(3) run_command_later [OF that(1,2)] by (auto simp: ledger_later_def)
  show "\<exists>rows2. run_command digest x env2 st2 = Inr (rows2, False, st2) \<and> list_all2 same_effect rows rows2"
    if "run_command digest x env st = Inr (rows, created, st')" "environment_ok env" "ledger_later st st"
      "ledger_later st' st2" for x env env2 and st st' st2 :: "'h ledger" and rows created
    using that(3) run_command_replays [OF that(1,2) _ that(4)] by (auto simp: ledger_later_def)
qed (auto simp: ledger_later_def)

section \<open>Sequences\<close>

definition gapless :: "'h ledger \<Rightarrow> bool" where
  "gapless st = (\<forall>c. class_sequences st c = map int [1..<Suc (length (class_sequences st c))])"

lemma foldr_max_Max: "foldr max xs x = Max (insert x (set xs))" for x :: "'a :: linorder"
  by (induction xs) (auto simp: insert_commute)

lemma max_upto:
  assumes "x # xs = map int [1..<Suc n]"
  shows "foldr max xs x = int n"
proof -
  have "insert x (set xs) = int ` {1..n}"
    using arg_cong [OF assms, of set] by (simp del: upt_Suc add: atLeastLessThanSuc_atLeastAtMost)
  moreover have "0 < n" using assms by (cases n) auto
  then have "Max (int ` {1..n}) = int n" by (intro Max_eqI) auto
  ultimately show ?thesis by (simp add: foldr_max_Max)
qed

lemma class_sequences_append:
  "class_sequences (st\<lparr>txs := txs st @ [t]\<rparr>) c =
     class_sequences st c @ (if tx_class t = c then (case tx_sequence t of None \<Rightarrow> [] | Some q \<Rightarrow> [q]) else [])"
  by (auto simp: class_sequences_def List.map_filter_def split: option.splits)

lemma class_sequences_reservations [simp]: "class_sequences (st\<lparr>reservations := rs\<rparr>) c = class_sequences st c"
  by (simp add: class_sequences_def)

lemma gapless_reservations [simp]: "gapless (st\<lparr>reservations := rs\<rparr>) = gapless st"
  by (simp add: gapless_def)

lemma post_effect_gapless:
  assumes "post_effect ctx now rv e st = Inr (t, st')" "gapless st"
  shows "gapless st'"
proof -
  obtain q where q: "allocate_creation_posting_sequence st (ef_seat e) (ef_class e) = Inr q"
    "st' = st\<lparr>txs := txs st @ [t]\<rparr>" "tx_sequence t = Some q" "tx_class t = ef_class e"
    using post_effect_cases [OF assms(1)] by metis
  let ?n = "length (class_sequences st (ef_class e))"
  have up: "class_sequences st (ef_class e) = map int [1..<Suc ?n]" using assms(2) by (simp add: gapless_def)
  have "q = (case class_sequences st (ef_class e) of [] \<Rightarrow> 0 | x # xs \<Rightarrow> foldr max xs x) + 1"
    using q(1) by (simp add: allocate_creation_posting_sequence_def split: if_splits)
  moreover have "(case class_sequences st (ef_class e) of [] \<Rightarrow> 0 | x # xs \<Rightarrow> foldr max xs x) = int ?n"
  proof (cases "class_sequences st (ef_class e)")
    case (Cons x xs)
    have "x # xs = map int [1..<Suc ?n]" using up unfolding Cons [symmetric] .
    from max_upto [OF this] Cons show ?thesis by simp
  qed simp
  ultimately have "q = int (Suc ?n)" by simp
  show ?thesis
    unfolding gapless_def
  proof
    fix c
    show "class_sequences st' c = map int [1..<Suc (length (class_sequences st' c))]"
    proof (cases "c = ef_class e")
      case True
      have "class_sequences st' c = class_sequences st c @ [q]"
        using q True by (simp add: class_sequences_append)
      moreover have "map int [1..<Suc (Suc ?n)] = map int [1..<Suc ?n] @ [int (Suc ?n)]" by simp
      ultimately show ?thesis using up True \<open>q = int (Suc ?n)\<close> by (simp del: upt_Suc)
    next
      case False
      then show ?thesis using q assms(2) unfolding gapless_def by (simp add: class_sequences_append del: upt_Suc)
    qed
  qed
qed

lemma post_effects_gapless: "post_effects ctx now rv es st = Inr (ts, st') \<Longrightarrow> gapless st \<Longrightarrow> gapless st'"
proof (induction es arbitrary: st ts)
  case (Cons e es)
  then obtain t st1 ts1 where "post_effect ctx now rv e st = Inr (t, st1)"
    "post_effects ctx now rv es st1 = Inr (ts1, st')" by (auto simp: res_simps)
  with Cons.IH Cons.prems(2) post_effect_gapless show ?case by blast
qed simp

lemma same_effects_sequences:
  "list_all2 same_effect ts us \<Longrightarrow> List.map_filter (\<lambda>t. if tx_class t = c then tx_sequence t else None) us
     = List.map_filter (\<lambda>t. if tx_class t = c then tx_sequence t else None) ts"
  by (induction rule: list_all2_induct) (auto simp: List.map_filter_simps same_effectD split: option.splits)

lemma run_gapless: "ledger_run digest st st' \<Longrightarrow> ledger_ok st \<Longrightarrow> gapless st \<Longrightarrow> gapless st'"
proof (induction rule: ledger_run.induct)
  case (run_command st st1 race ctx now c feat key es intent rows created st2)
  have ok: "ledger_ok st1" using run_ok_extends run_command by blast
  then have "gapless (race st1)" using run_command by blast
  with run_command.hyps(3) show ?case
    using run_command.IH(1) run_command.prems
    by (cases rule: create_reserved_effects_cases) (auto dest: post_effects_gapless)
next
  case (run_settle st st1 ro now s c st2)
  then have "core_ok st1" using run_ok_extends ledger_ok_core by blast
  from settle_same_effects [OF run_settle.hyps(2) this] show ?case
    using run_settle by (simp add: gapless_def class_sequences_def same_effects_sequences)
qed (auto dest: post_effect_gapless)

section \<open>The sweep\<close>

lemma settle_keeps_states:
  assumes "settle_balances ro now s c st = Inr st'" "core_ok st" "(tx_class t, tx_seat t) \<noteq> (c, s)"
  shows "tx_state st' t = tx_state st t"
  using assms(1,2)
proof (cases rule: settle_cases)
  case (advance ts)
  have "snapshots st' (tx_scope t) = snapshots st (tx_scope t)"
    using advance(7) [of "tx_class t" "tx_seat t"] assms(3) by (simp add: tx_scope_def)
  then show ?thesis by (simp add: tx_state_def scope_cursor_def)
qed simp

lemma settle_available:
  assumes "settle_balances ro now s c st = Inr st'" "ledger_ok st"
  shows "available_balance_expression st' s' c' a = available_balance_expression st s' c' a"
  using settle_same_effects [OF assms(1)] settle_ok [OF assms] assms(2)
  by (simp add: available_is_total ledger_ok_core same_effect_total)

lemma sweep_result:
  assumes "ledger_ok st" "\<And>c s. (c, s) \<in> set cs \<Longrightarrow> seat_class st s = Some c \<and> class_exists st c"
  shows "\<exists>st'. sweep now cs st = (length cs, 0, st') \<and> ledger_ok st' \<and> cursors_grow st st'
    \<and> list_all2 same_effect (txs st) (txs st')
    \<and> (\<forall>t \<in> set (txs st'). (tx_class t, tx_seat t) \<in> set cs \<longrightarrow> tx_state st' t = POSTED)"
  using assms
proof (induction cs arbitrary: st)
  case Nil
  then show ?case by simp
next
  case (Cons x cs)
  obtain c s where x: "x = (c, s)" by (cases x)
  from Cons.prems have "seat_class st s = Some c" "class_exists st c" by (auto simp: x)
  then obtain st1 where st1: "settle_balances False now s c st = Inr st1"
    using settle_total [OF ledger_ok_core [OF Cons.prems(1)]] by blast
  note core = ledger_ok_core [OF Cons.prems(1)]
  have ext: "extends st st1" using settle_extends [OF st1 core] .
  have ok1: "ledger_ok st1" using settle_ok [OF st1 Cons.prems(1)] .
  have "\<exists>st'. sweep now cs st1 = (length cs, 0, st') \<and> ledger_ok st' \<and> cursors_grow st1 st'
    \<and> list_all2 same_effect (txs st1) (txs st')
    \<and> (\<forall>t \<in> set (txs st'). (tx_class t, tx_seat t) \<in> set cs \<longrightarrow> tx_state st' t = POSTED)"
  proof (rule Cons.IH [OF ok1])
    show "seat_class st1 s = Some c \<and> class_exists st1 c" if "(c, s) \<in> set cs" for c s
      using that Cons.prems(2) [of c s] ext by (simp add: extends_def)
  qed
  then obtain st' where st': "sweep now cs st1 = (length cs, 0, st')" "ledger_ok st'" "cursors_grow st1 st'"
    "list_all2 same_effect (txs st1) (txs st')"
    "\<forall>t \<in> set (txs st'). (tx_class t, tx_seat t) \<in> set cs \<longrightarrow> tx_state st' t = POSTED" by blast
  have "tx_state st' u = POSTED" if u: "u \<in> set (txs st')" "(tx_class u, tx_seat u) = (c, s)" for u
  proof -
    obtain t where t: "t \<in> set (txs st1)" "same_effect t u" using same_effect_mem(1) [OF st'(4) u(1)] by blast
    have "t \<notin> set (pending_txs st1 c s)" using settle_leaves_nothing_pending [OF st1 core] by simp
    then have "tx_state st1 t = POSTED" using t u(2) by (simp add: pending_txs_def tx_state_PENDING same_effectD)
    then show ?thesis using cursors_grow_POSTED [OF st'(3) t(2)] by simp
  qed
  moreover have "list_all2 same_effect (txs st) (txs st')"
    using same_effects_trans [OF settle_same_effects [OF st1 core] st'(4)] .
  moreover have "cursors_grow st st'"
    using settle_cursors_grow [OF st1 core] st'(3) unfolding cursors_grow_def by (meson order_trans)
  ultimately show ?case using st1 st' by (auto simp: x)
qed

lemma pending_contexts_mem:
  "t \<in> set (txs st) \<Longrightarrow> tx_state st t = PENDING \<Longrightarrow> (tx_class t, tx_seat t) \<in> set (pending_contexts st)"
  by (force simp: pending_contexts_def)

lemma pending_contexts_seats:
  "ledger_ok st \<Longrightarrow> (c, s) \<in> set (pending_contexts st) \<Longrightarrow> seat_class st s = Some c"
  by (auto simp: pending_contexts_def ledger_ok_def seats_ok_def)

section \<open>A worked ledger\<close>

text \<open>Seats 1 and 2 of class A; one reserved purchase of 12.345 posted by seat 1, then settled.\<close>

definition example_effect :: "rat \<Rightarrow> effect" where
  "example_effect amount = \<lparr>ef_seat = 1, ef_class = ''A'', ef_target = 1, ef_actor = 2, ef_mechanism = ''STORE'',
     ef_amount = amount, ef_account = ''checking'', ef_type = ''purchase'', ef_description = ''pencil'',
     ef_original = None, ef_policy = None, ef_subtype = None, ef_correlation = None, ef_comp_origin = None,
     ef_comp_cents = 0, ef_intent = None\<rparr>"

definition example_ctx :: feat_ctx where
  "example_ctx = \<lparr>fc_name = Some ''FEAT-STOR-001'', fc_correlation = ''c'', fc_key = None\<rparr>"

definition example_command :: "rat \<Rightarrow> command" where
  "example_command amount = \<lparr>cmd_class = ''A'', cmd_feat = ''FEAT-STOR-001'', cmd_key = ''k'',
     cmd_effects = [example_effect amount], cmd_intent = None\<rparr>"

definition example_env :: "fprint environment" where
  "example_env = \<lparr>env_ctx = example_ctx, env_now = 7, env_race = (\<lambda>st. st)\<rparr>"

definition ledger0 :: "fprint ledger" where
  "ledger0 = empty_ledger (\<lambda>s. if s = 1 \<or> s = 2 then Some ''A'' else None) (\<lambda>c. c = ''A'')"

definition ledger1 :: "fprint ledger" where
  "ledger1 = (case run_command (\<lambda>x. x) (example_command (-12345/1000)) example_env ledger0 of
     Inr (rows, created, st) \<Rightarrow> st | Inl e \<Rightarrow> ledger0)"

definition ledger2 :: "fprint ledger" where
  "ledger2 = (case settle_balances False 9 1 ''A'' ledger1 of Inr st \<Rightarrow> st | Inl e \<Rightarrow> ledger1)"

lemma example_env_ok: "environment_ok example_env"
  by (simp add: environment_ok_def example_env_def ledger_later_def)

lemma ledger0_ok: "ledger_ok ledger0"
  by (simp add: ledger0_def empty_ledger_ok)

lemma ledger1_created:
  "\<exists>rows. run_command (\<lambda>x. x) (example_command (-12345/1000)) example_env ledger0 = Inr (rows, True, ledger1)"
proof -
  have "case run_command (\<lambda>x. x) (example_command (-12345/1000)) example_env ledger0 of
     Inr (rows, created, st) \<Rightarrow> created | Inl e \<Rightarrow> False" by code_simp
  then show ?thesis by (auto simp: ledger1_def split: sum.splits)
qed

lemma ledger1_later: "ledger_later ledger0 ledger1"
  using ledger1_created run_command_later [OF _ example_env_ok ledger0_ok] by blast

lemma ledger1_run: "ledger_run (\<lambda>x. x) ledger0 ledger1"
proof -
  obtain rows where "run_command (\<lambda>x. x) (example_command (-12345/1000)) example_env ledger0 = Inr (rows, True, ledger1)"
    using ledger1_created by blast
  from run_command [OF run_refl _ this [unfolded run_command_def]] show ?thesis
    by (simp add: example_env_def run_refl)
qed

lemma ledger1_roster: "seat_class ledger1 (Suc 0) = Some ''A''" "class_exists ledger1 ''A''"
  by code_simp+

lemma ledger1_ok: "ledger_ok ledger1"
  using ledger1_later by (simp add: ledger_later_def)

lemma ledger2_settled: "settle_balances False 9 1 ''A'' ledger1 = Inr ledger2"
proof -
  have "\<not> isl (settle_balances False 9 1 ''A'' ledger1)" by code_simp
  then show ?thesis by (auto simp: ledger2_def split: sum.splits)
qed

lemma ledger2_run: "ledger_run (\<lambda>x. x) ledger0 ledger2"
  using run_settle [OF ledger1_run ledger2_settled] .

lemma ledger2_ok: "ledger_ok ledger2"
  using settle_ok [OF ledger2_settled ledger1_ok] .

section \<open>Properties\<close>

text \<open>
  C1. In every ledger a run reaches from the empty one, reading an available balance gives the signed sum
  of every row ever written to that (class, seat, account): no effect is lost or counted twice between the
  snapshot and the pending rows, whatever was posted, replayed, raced or settled in between.
\<close>

theorem available_balance_is_whole_history:
  assumes "ledger_run digest (empty_ledger seats classes) st" "s \<noteq> 0" "c \<noteq> []" "account_known a"
  shows "get_available_balance st s c a = Inr (sum_list (map tx_cents (filter (\<lambda>t. tx_class t = c \<and> tx_seat t = s \<and> tx_account t = a) (txs st))))"
proof -
  have "core_ok st" using run_ok_extends [OF assms(1) empty_ledger_ok] ledger_ok_core by blast
  from available_is_total [OF this, of s c a] assms(2,3,4) show ?thesis
    by (auto simp: get_available_balance_def require_balance_scope_def account_known_def scope_total_def
        tx_scope_def intro!: arg_cong [where f = sum_list] arg_cong [where f = "map tx_cents"] filter_cong)
qed

lemma available_balance_is_whole_history_witness:
  "get_available_balance ledger2 1 ''A'' ''checking'' = Inr (sum_list (map tx_cents
     (filter (\<lambda>t. tx_class t = ''A'' \<and> tx_seat t = 1 \<and> tx_account t = ''checking'') (txs ledger2))))"
  by (rule available_balance_is_whole_history [OF ledger2_run [unfolded ledger0_def]]) (simp_all add: account_known_def)

text \<open>
  C19. Posted history is append-only: after any run from a well-formed ledger the old rows are a prefix of
  the new ones and differ from them in the posting timestamp only, a row that was POSTED is still POSTED,
  and the ledger is still well formed.
\<close>

theorem history_is_append_only:
  assumes "ledger_run digest st st'" "ledger_ok st"
  shows "ledger_ok st' \<and> (\<exists>us vs. txs st' = us @ vs \<and> length us = length (txs st)
    \<and> (\<forall>i < length us. (us ! i)\<lparr>tx_posted_at := tx_posted_at (txs st ! i)\<rparr> = txs st ! i
         \<and> (tx_state st (txs st ! i) = POSTED \<longrightarrow> tx_state st' (us ! i) = POSTED)))"
proof -
  from run_ok_extends [OF assms] have ok: "ledger_ok st'" and ext: "extends st st'" by auto
  from ext obtain us vs where u: "txs st' = us @ vs" "list_all2 same_effect (txs st) us"
    unfolding extends_def by blast
  have "cursors_grow st st'" using ext by (simp add: extends_def)
  then have "tx_state st' (us ! i) = POSTED" if "i < length us" "tx_state st (txs st ! i) = POSTED" for i
    using that u(2) cursors_grow_POSTED [of st st' "txs st ! i" "us ! i"] by (simp add: list_all2_conv_all_nth)
  moreover have "\<forall>i < length us. (us ! i)\<lparr>tx_posted_at := tx_posted_at (txs st ! i)\<rparr> = txs st ! i"
    using u(2) by (simp add: list_all2_conv_all_nth same_effect_def)
  ultimately have "\<forall>i < length us. (us ! i)\<lparr>tx_posted_at := tx_posted_at (txs st ! i)\<rparr> = txs st ! i
      \<and> (tx_state st (txs st ! i) = POSTED \<longrightarrow> tx_state st' (us ! i) = POSTED)" by simp
  with ok u list_all2_lengthD [OF u(2)] show ?thesis by auto
qed

lemma history_is_append_only_witness:
  "ledger_ok ledger2 \<and> (\<exists>us vs. txs ledger2 = us @ vs \<and> length us = length (txs ledger0)
    \<and> (\<forall>i < length us. (us ! i)\<lparr>tx_posted_at := tx_posted_at (txs ledger0 ! i)\<rparr> = txs ledger0 ! i
         \<and> (tx_state ledger0 (txs ledger0 ! i) = POSTED \<longrightarrow> tx_state ledger2 (us ! i) = POSTED)))"
  by (rule history_is_append_only [OF ledger2_run ledger0_ok])

text \<open>
  C4. Settling a seat of a well-formed ledger always succeeds; afterwards nothing of that seat is pending,
  no available balance of any seat has changed, every other seat's posting states are untouched, and the
  snapshots agree with an independent sum over the history.
\<close>

theorem settlement_posts_everything_and_moves_no_money:
  assumes "ledger_ok st" "seat_class st s = Some c" "class_exists st c"
  shows "\<exists>st'. settle_balances False now s c st = Inr st' \<and> pending_txs st' c s = []
    \<and> (\<forall>s' c' a. available_balance_expression st' s' c' a = available_balance_expression st s' c' a)
    \<and> (\<forall>t. (tx_class t, tx_seat t) \<noteq> (c, s) \<longrightarrow> tx_state st' t = tx_state st t)
    \<and> (\<forall>sc sn. snapshots st' sc = Some sn \<longrightarrow> posted_cents sn = posted_history_cents (txs st') sc (cursor sn))"
proof -
  obtain st' where st': "settle_balances False now s c st = Inr st'"
    using settle_total [OF ledger_ok_core [OF assms(1)] assms(2,3)] by blast
  have "ledger_ok st'" using settle_ok [OF st' assms(1)] .
  then show ?thesis
    using st' settle_leaves_nothing_pending [OF st' ledger_ok_core [OF assms(1)]]
      settle_available [OF st' assms(1)] settle_keeps_states [OF st' ledger_ok_core [OF assms(1)]]
      snapshots_okD(1) [of st']
    unfolding ledger_ok_def by blast
qed

lemma settlement_posts_everything_and_moves_no_money_witness:
  "\<exists>st'. settle_balances False 9 1 ''A'' ledger1 = Inr st' \<and> pending_txs st' ''A'' 1 = []
    \<and> (\<forall>s' c' a. available_balance_expression st' s' c' a = available_balance_expression ledger1 s' c' a)
    \<and> (\<forall>t. (tx_class t, tx_seat t) \<noteq> (''A'', 1) \<longrightarrow> tx_state st' t = tx_state ledger1 t)
    \<and> (\<forall>sc sn. snapshots st' sc = Some sn \<longrightarrow> posted_cents sn = posted_history_cents (txs st') sc (cursor sn))"
  by (rule settlement_posts_everything_and_moves_no_money [OF ledger1_ok]) (simp_all add: ledger1_roster)

text \<open>
  C21. The settlement sweep over a well-formed ledger whose rows belong to existing classes fails for no
  context, leaves no row pending anywhere, and keeps every row's effect and every available balance.
\<close>

theorem sweep_settles_every_context:
  assumes "ledger_ok st" "\<And>t. t \<in> set (txs st) \<Longrightarrow> class_exists st (tx_class t)"
  shows "\<exists>st'. settle_pending_transaction_contexts None now st = (length (pending_contexts st), 0, st')
    \<and> (\<forall>t \<in> set (txs st'). tx_state st' t = POSTED)
    \<and> (\<forall>s c a. available_balance_expression st' s c a = available_balance_expression st s c a)"
proof -
  have "class_exists st c" if "(c, s) \<in> set (pending_contexts st)" for c s
    using that assms(2) by (auto simp: pending_contexts_def)
  then obtain st' where st': "sweep now (pending_contexts st) st = (length (pending_contexts st), 0, st')"
    "ledger_ok st'" "cursors_grow st st'" "list_all2 same_effect (txs st) (txs st')"
    "\<forall>t \<in> set (txs st'). (tx_class t, tx_seat t) \<in> set (pending_contexts st) \<longrightarrow> tx_state st' t = POSTED"
    using sweep_result [OF assms(1), of "pending_contexts st" now] pending_contexts_seats [OF assms(1)] by blast
  have "tx_state st' u = POSTED" if u: "u \<in> set (txs st')" for u
  proof -
    obtain t where t: "t \<in> set (txs st)" "same_effect t u" using same_effect_mem(1) [OF st'(4) u] by blast
    show ?thesis
    proof (cases "tx_state st t")
      case POSTED
      then show ?thesis using cursors_grow_POSTED [OF st'(3) t(2)] by simp
    next
      case PENDING
      then show ?thesis using pending_contexts_mem [OF t(1)] st'(5) u same_effectD [OF t(2)] by simp
    qed
  qed
  moreover have "available_balance_expression st' s c a = available_balance_expression st s c a" for s c a
    using st'(2,4) assms(1) by (simp add: available_is_total ledger_ok_core same_effect_total)
  ultimately show ?thesis using st'(1) by (simp add: settle_pending_transaction_contexts_def)
qed

lemma sweep_settles_every_context_witness:
  "\<exists>st'. settle_pending_transaction_contexts None 9 ledger1 = (length (pending_contexts ledger1), 0, st')
    \<and> (\<forall>t \<in> set (txs st'). tx_state st' t = POSTED)
    \<and> (\<forall>s c a. available_balance_expression st' s c a = available_balance_expression ledger1 s c a)"
proof (rule sweep_settles_every_context [OF ledger1_ok])
  have "list_all (\<lambda>t. class_exists ledger1 (tx_class t)) (txs ledger1)" by code_simp
  then show "t \<in> set (txs ledger1) \<Longrightarrow> class_exists ledger1 (tx_class t)" for t by (simp add: list_all_iff)
qed

text \<open>
  C23. On a well-formed ledger the independent verifications pass at a snapshot's own boundary: rebuilding
  the posted balance from history gives the projected cents, and the available balance reconciles too.
\<close>

theorem verification_passes_at_snapshot_boundary:
  assumes "ledger_ok st" "snapshots st (c, s, a) = Some sn" "cursor sn = Some b"
    and "c \<noteq> []" "s \<noteq> 0" "account_known a"
  shows "verify_posted_balance st c s a (Some b) = Pass (posted_cents sn) b
    \<and> verify_available_balance st c s a (Some b) = Pass (scope_total st (c, s, a)) b"
proof -
  have seq: "\<not> (\<exists>t \<in> set (txs st). tx_scope t = (c, s, a) \<and> tx_sequence t = None)"
    using assms(1) by (fastforce simp: ledger_ok_def rows_ok_def)
  have b: "0 < b" "posted_cents sn = posted_history_cents (txs st) (c, s, a) (Some b)"
    using snapshots_okD [of st "(c, s, a)" sn] assms(1,2,3) by (auto simp: ledger_ok_def)
  have "reconstruct_posted_balance st c s a (Some b) = Pass (posted_cents sn) b"
    using assms(4-6) seq b by (simp add: reconstruct_posted_balance_def)
  then show ?thesis
    using assms available_is_total [OF ledger_ok_core [OF assms(1)]]
    by (simp add: verify_posted_balance_def verify_available_balance_def reconstruct_available_balance_def)
qed

lemma verification_passes_at_snapshot_boundary_witness:
  "\<exists>sn b. snapshots ledger2 (''A'', 1, ''checking'') = Some sn
    \<and> verify_posted_balance ledger2 ''A'' 1 ''checking'' (Some b) = Pass (posted_cents sn) b
    \<and> verify_available_balance ledger2 ''A'' 1 ''checking'' (Some b) = Pass (scope_total ledger2 (''A'', 1, ''checking'')) b"
proof -
  have "snapshots ledger2 (''A'', 1, ''checking'') = Some \<lparr>posted_cents = -1234, cursor = Some 1, last_settlement = Some 9\<rparr>"
    by code_simp
  from this verification_passes_at_snapshot_boundary [OF ledger2_ok this, of 1] show ?thesis
    by (auto simp: account_known_def)
qed

text \<open>
  C22. In every class the posting sequences of the rows, in creation order, are exactly 1, 2, 3, ...: no
  sequence is skipped or allocated twice, by any interleaving of the ledger's operations.
\<close>

theorem posting_sequences_are_gapless:
  assumes "ledger_run digest (empty_ledger seats classes) st"
  shows "map tx_sequence (filter (\<lambda>t. tx_class t = c) (txs st))
    = map (\<lambda>n. Some (int (Suc n))) [0..<length (filter (\<lambda>t. tx_class t = c) (txs st))]"
proof -
  let ?rows = "filter (\<lambda>t. tx_class t = c) (txs st)"
  have "gapless (empty_ledger seats classes :: 'a ledger)"
    by (simp add: gapless_def class_sequences_def empty_ledger_def List.map_filter_simps)
  then have g: "class_sequences st c = map int [1..<Suc (length (class_sequences st c))]"
    using run_gapless [OF assms empty_ledger_ok] by (simp add: gapless_def)
  have "\<forall>t \<in> set (txs st). tx_sequence t \<noteq> None"
    using run_ok_extends [OF assms empty_ledger_ok] by (fastforce simp: ledger_ok_def rows_ok_def)
  moreover have "\<forall>t \<in> set ts. tx_sequence t \<noteq> None \<Longrightarrow>
      map Some (List.map_filter (\<lambda>t. if tx_class t = c then tx_sequence t else None) ts)
        = map tx_sequence (filter (\<lambda>t. tx_class t = c) ts)" for ts
    by (induction ts) (auto simp: List.map_filter_simps)
  ultimately have "map Some (class_sequences st c) = map tx_sequence ?rows"
    unfolding class_sequences_def by blast
  moreover from this have "length (class_sequences st c) = length ?rows" by (metis length_map)
  moreover have "map int [1..<Suc n] = map (\<lambda>n. int (Suc n)) [0..<n]" for n
    by (simp add: map_Suc_upt [symmetric] comp_def del: upt_Suc map_Suc_upt)
  ultimately have "map tx_sequence ?rows = map Some (map (\<lambda>n. int (Suc n)) [0..<length ?rows])"
    using g by simp
  then show ?thesis by (simp add: comp_def)
qed

lemma posting_sequences_are_gapless_witness:
  "map tx_sequence (filter (\<lambda>t. tx_class t = ''A'') (txs ledger2))
    = map (\<lambda>n. Some (int (Suc n))) [0..<length (filter (\<lambda>t. tx_class t = ''A'') (txs ledger2))]"
  by (rule posting_sequences_are_gapless [OF ledger2_run [unfolded ledger0_def]])

text \<open>
  C2. Idempotency of the reserved command: whatever happens to the ledger after it succeeded, delivering
  the same command again, under any context, clock and race, succeeds, reports no creation, leaves the
  ledger exactly as it is and returns the rows of the first delivery (up to their posting timestamp).
\<close>

theorem reserved_command_replays_without_effect:
  assumes "create_reserved_effects digest race ctx now c feat key es intent st = Inr (rows, created, st')"
    and "ledger_ok st" "ledger_ok (race st)" "ledger_run digest st' st2"
  shows "\<exists>rows2. create_reserved_effects digest race2 ctx2 now2 c feat key es intent st2 = Inr (rows2, False, st2)
    \<and> list_all2 (\<lambda>t u. u\<lparr>tx_posted_at := tx_posted_at t\<rparr> = t) rows rows2"
proof -
  have later: "ledger_later st' st2"
    using create_reserved_effects_ok [OF assms(1-3)] run_ok_extends [OF assms(4)] by (simp add: ledger_later_def)
  from create_reserved_effects_done [OF assms(1-3)] obtain r where r:
    "find_reservation st' c feat key = Some r" "replay_effects digest r es intent st' = Inr rows" by blast
  obtain rs where "reservations st2 = reservations st' @ rs"
    using later by (auto simp: ledger_later_def extends_def)
  note f2 = find_reservation_append [OF r(1) this]
  from replay_effects_extends [OF r(2)] find_reservation_Some(1) [OF r(1)] later obtain rows2 where
    "replay_effects digest r es intent st2 = Inr rows2" "list_all2 same_effect rows rows2"
    by (auto simp: ledger_later_def ledger_ok_def)
  moreover have "check_key c feat key es = Inr ()" "\<exists>fp. replay_fingerprint es fingerprint_version intent = Inr fp"
    using assms(1) by (auto simp: create_reserved_effects_def res_simps)
  ultimately show ?thesis
    using f2 unfolding same_effect_def [abs_def] by (auto simp: create_reserved_effects_def)
qed

lemma reserved_command_replays_without_effect_witness:
  "\<exists>rows rows2. create_reserved_effects (\<lambda>x. x) (\<lambda>s. s) example_ctx 8 ''A'' ''FEAT-STOR-001'' ''k''
      [example_effect (-12345/1000)] None ledger2 = Inr (rows2, False, ledger2)
    \<and> list_all2 (\<lambda>t u. u\<lparr>tx_posted_at := tx_posted_at t\<rparr> = t) rows rows2"
proof -
  obtain rows where r: "create_reserved_effects (\<lambda>x. x) (\<lambda>s. s) example_ctx 7 ''A'' ''FEAT-STOR-001'' ''k''
      [example_effect (-12345/1000)] None ledger0 = Inr (rows, True, ledger1)"
    using ledger1_created by (auto simp: run_command_def example_command_def example_env_def)
  have "ledger_run (\<lambda>x. x) ledger1 ledger2" using run_settle [OF run_refl ledger2_settled] .
  from reserved_command_replays_without_effect [OF r ledger0_ok ledger0_ok this] show ?thesis by blast
qed

text \<open>
  C24. A retried key with a changed payload is refused: once a command is committed, the same class, FEAT
  and key with effects of another fingerprint is an error in every later ledger, provided digests do not
  collide.
\<close>

theorem changed_payload_is_refused:
  assumes "create_reserved_effects digest race ctx now c feat key es intent st = Inr (rows, True, st')"
    and "ledger_ok st" "ledger_ok (race st)" "ledger_run digest st' st2" "inj digest"
    and "replay_fingerprint es' fingerprint_version intent' \<noteq> replay_fingerprint es fingerprint_version intent"
  shows "isl (create_reserved_effects digest race2 ctx2 now2 c feat key es' intent' st2)"
proof -
  from assms(1) obtain r where r: "find_reservation st' c feat key = Some r" "rv_version r = fingerprint_version"
    "\<exists>fp. replay_fingerprint es fingerprint_version intent = Inr fp \<and> rv_fingerprint r = digest fp"
  proof (cases rule: create_reserved_effects_cases)
    case (fresh fp r)
    note shape = post_effects_shape [OF fresh(7)]
    show thesis
      by (rule that [of r]) (use fresh shape(1) in \<open>simp_all add: find_reservation_def find_append\<close>)
  qed simp_all
  have "extends st' st2"
    using create_reserved_effects_ok [OF assms(1-3)] run_ok_extends [OF assms(4)] by blast
  then obtain rs where "reservations st2 = reservations st' @ rs" by (auto simp: extends_def)
  note f2 = find_reservation_append [OF r(1) this]
  have "isl (replay_effects digest r es' intent' st2)"
    using r(2,3) assms(5,6) by (cases "replay_fingerprint es' fingerprint_version intent'")
      (auto simp: replay_effects_def assert_replay_matches_def fingerprint_matches_reservation_def
        supported_version_def fingerprint_version_def inj_eq)
  then have "\<not> (\<exists>x. create_reserved_effects digest race2 ctx2 now2 c feat key es' intent' st2 = Inr x)"
    using f2 by (auto simp: create_reserved_effects_def res_simps isl_def)
  then show ?thesis by (cases "create_reserved_effects digest race2 ctx2 now2 c feat key es' intent' st2") auto
qed

lemma changed_payload_is_refused_witness:
  "isl (create_reserved_effects (\<lambda>x. x) (\<lambda>s. s) example_ctx 8 ''A'' ''FEAT-STOR-001'' ''k''
      [example_effect (-99)] None ledger2)"
proof -
  obtain rows where r: "create_reserved_effects (\<lambda>x. x) (\<lambda>s. s) example_ctx 7 ''A'' ''FEAT-STOR-001'' ''k''
      [example_effect (-12345/1000)] None ledger0 = Inr (rows, True, ledger1)"
    using ledger1_created by (auto simp: run_command_def example_command_def example_env_def)
  have "ledger_run (\<lambda>x. x) ledger1 ledger2" using run_settle [OF run_refl ledger2_settled] .
  moreover have "replay_fingerprint [example_effect (-99)] fingerprint_version None
      \<noteq> replay_fingerprint [example_effect (-12345/1000)] fingerprint_version None" by code_simp
  ultimately show ?thesis
    using changed_payload_is_refused [OF r ledger0_ok ledger0_ok] by (simp add: inj_on_def)
qed

text \<open>
  C20. At-least-once delivery is exactly-once effect: if a sequence of reserved commands, with repetitions
  in any positions, succeeds on a well-formed ledger, then delivering only the first occurrence of each
  succeeds and ends in the same ledger.
\<close>

theorem repeated_deliveries_take_effect_once:
  assumes "deliver_all (run_command digest) ds st = Inr (rs, st')" "ledger_ok st"
    and "\<And>x env. (x, env) \<in> set ds \<Longrightarrow> environment_ok env"
  shows "\<exists>rs'. deliver_all (run_command digest) (first_deliveries [] ds) st = Inr (rs', st')"
  by (rule reserved.deliveries_take_effect_once [OF assms(1)]) (use assms(2,3) in \<open>auto simp: ledger_later_def\<close>)

lemma repeated_deliveries_take_effect_once_witness:
  "\<exists>rs rs' st'. deliver_all (run_command (\<lambda>x. x)) [(example_command (-5), example_env), (example_command (-5), example_env)] ledger0
      = Inr (rs, st')
    \<and> deliver_all (run_command (\<lambda>x. x)) (first_deliveries [] [(example_command (-5), example_env), (example_command (-5), example_env)]) ledger0
      = Inr (rs', st')"
proof -
  let ?ds = "[(example_command (-5), example_env), (example_command (-5), example_env)]"
  have "\<not> isl (deliver_all (run_command (\<lambda>x. x)) ?ds ledger0)" by code_simp
  then obtain rs st' where d: "deliver_all (run_command (\<lambda>x. x)) ?ds ledger0 = Inr (rs, st')"
    by (cases "deliver_all (run_command (\<lambda>x. x)) ?ds ledger0") auto
  from repeated_deliveries_take_effect_once [OF d ledger0_ok] d show ?thesis
    by (auto simp: example_env_ok)
qed

end
