(* ===== verification/Refinement_Interface.thy ===== *)
theory Refinement_Interface
  imports Prelude
begin

text \<open>
  Forward simulation with an abstraction function: when every atomic step of a component that starts in
  a good state has, on the abstraction, the effect its specification names, then so has every sequence.
\<close>

inductive steps :: "('op \<Rightarrow> 's \<Rightarrow> 's \<Rightarrow> bool) \<Rightarrow> 'op list \<Rightarrow> 's \<Rightarrow> 's \<Rightarrow> bool" for step where
  steps_none: "steps step [] s s"
| steps_more: "steps step xs s s1 \<Longrightarrow> step x s1 s2 \<Longrightarrow> steps step (xs @ [x]) s s2"

lemma steps_append: "steps step ys s1 s2 \<Longrightarrow> steps step xs s s1 \<Longrightarrow> steps step (xs @ ys) s s2"
proof (induction rule: steps.induct)
  case (steps_more ys s1 s2 y s3)
  then show ?case using steps.steps_more [of step "xs @ ys" s s2 y s3] by simp
qed simp

locale forward_simulation =
  fixes step :: "'op \<Rightarrow> 's \<Rightarrow> 's \<Rightarrow> bool"
    and spec :: "'op \<Rightarrow> 'a \<Rightarrow> 'a"
    and abs :: "'s \<Rightarrow> 'a"
    and good :: "'s \<Rightarrow> bool"
  assumes step_good: "step x s s' \<Longrightarrow> good s \<Longrightarrow> good s'"
    and step_spec: "step x s s' \<Longrightarrow> good s \<Longrightarrow> abs s' = spec x (abs s)"
begin

lemma steps_good: "steps step xs s s' \<Longrightarrow> good s \<Longrightarrow> good s'"
  by (induction rule: steps.induct) (auto dest: step_good)

lemma steps_spec: "steps step xs s s' \<Longrightarrow> good s \<Longrightarrow> abs s' = fold spec xs (abs s)"
  by (induction rule: steps.induct) (auto dest: step_spec steps_good)

end

end
