(* ===== verification/Ledger_Book.thy ===== *)
theory Ledger_Book
  imports Ledger_Claims Refinement_Interface
begin

text \<open>
  What the ledger promises, without rows, sequences, snapshots or cursors: an account book that holds one
  number per account and the set of commands already done. The ledger refines it. A command met by
  another session's commits is the command run alone after them, so every execution, however its
  sessions interleave, has the balances of some sequential order of its commands.
\<close>

section \<open>The specification\<close>

record book =
  held :: "scope \<Rightarrow> int"
  commands :: "(class_id \<times> string \<times> string) set"

datatype book_op =
    PostOp effect
  | CommandOp class_id string string "effect list"
  | SettleOp class_id seat_id

definition effect_scope :: "effect \<Rightarrow> scope" where
  "effect_scope e = (ef_class e, ef_seat e, ef_account e)"

definition credit :: "effect \<Rightarrow> (scope \<Rightarrow> int) \<Rightarrow> scope \<Rightarrow> int" where
  "credit e h = h(effect_scope e := h (effect_scope e) + cents_even (ef_amount e))"

fun book_step :: "book_op \<Rightarrow> book \<Rightarrow> book" where
  "book_step (PostOp e) b = b\<lparr>held := credit e (held b)\<rparr>"
| "book_step (CommandOp c feat key es) b =
     (if (c, feat, key) \<in> commands b then b
      else b\<lparr>held := fold credit es (held b), commands := insert (c, feat, key) (commands b)\<rparr>)"
| "book_step (SettleOp c s) b = b"

definition empty_book :: book where
  "empty_book = \<lparr>held = (\<lambda>_. 0), commands = {}\<rparr>"

section \<open>The ledger's steps and their abstraction\<close>

inductive ledger_step :: "(fprint \<Rightarrow> 'h) \<Rightarrow> book_op \<Rightarrow> 'h ledger \<Rightarrow> 'h ledger \<Rightarrow> bool" for digest where
  step_post: "post_effect ctx now None e st = Inr (t, st') \<Longrightarrow> ledger_step digest (PostOp e) st st'"
| step_command: "create_reserved_effects digest (\<lambda>st. st) ctx now c feat key es intent st = Inr (rows, created, st')
    \<Longrightarrow> ledger_step digest (CommandOp c feat key es) st st'"
| step_settle: "settle_balances ro now s c st = Inr st' \<Longrightarrow> ledger_step digest (SettleOp c s) st st'"

definition book_of :: "'h ledger \<Rightarrow> book" where
  "book_of st = \<lparr>held = scope_total st, commands = (\<lambda>r. (rv_class r, rv_feat r, rv_key r)) ` set (reservations st)\<rparr>"

lemma held_fold_credit:
  "fold credit es h sc = h sc + sum_list (map (\<lambda>e. cents_even (ef_amount e)) (filter (\<lambda>e. effect_scope e = sc) es))"
  by (induction es arbitrary: h) (auto simp: credit_def)

lemma post_effects_held:
  "post_effects ctx now rv es st = Inr (ts, st') \<Longrightarrow> scope_total st' = fold credit es (scope_total st)"
  by (rule ext) (simp add: held_fold_credit post_effects_total effect_scope_def)

lemma post_effect_held:
  assumes "post_effect ctx now rv e st = Inr (t, st')"
  shows "scope_total st' = credit e (scope_total st)"
  using post_effects_held [of ctx now rv "[e]" st "[t]" st'] assms by simp

lemma command_done_iff: "(c, feat, key) \<in> commands (book_of st) \<longleftrightarrow> find_reservation st c feat key \<noteq> None"
  by (auto simp: book_of_def find_reservation_def find_None_iff)

lemma step_command_book:
  assumes "create_reserved_effects digest (\<lambda>st. st) ctx now c feat key es intent st = Inr (rows, created, st')"
  shows "book_of st' = book_step (CommandOp c feat key es) (book_of st)"
  using assms
proof (cases rule: create_reserved_effects_cases)
  case (fresh fp r)
  have "scope_total st' = fold credit es (scope_total st)"
    unfolding post_effects_held [OF fresh(7)] by (rule arg_cong [of _ _ "fold credit es"]) (simp add: scope_total_def fun_eq_iff)
  moreover have "reservations st' = reservations st @ [r]" using post_effects_shape(1) [OF fresh(7)] by simp
  ultimately show ?thesis
    using fresh(1,6) command_done_iff [of c feat key st] by (simp add: book_of_def)
qed (auto simp: command_done_iff)

interpretation booked: forward_simulation "ledger_step digest" book_step book_of ledger_ok
  for digest :: "fprint \<Rightarrow> 'h"
proof
  show "ledger_ok st'" if "ledger_step digest x st st'" "ledger_ok st" for x and st st' :: "'h ledger"
    using that by (cases rule: ledger_step.cases) (auto dest: post_effect_ok create_reserved_effects_ok settle_ok)
  show "book_of st' = book_step x (book_of st)" if "ledger_step digest x st st'" "ledger_ok st"
    for x and st st' :: "'h ledger"
    using that
  proof (cases rule: ledger_step.cases)
    case (step_post ctx now e t)
    have "reservations st' = reservations st" using post_effect_cases [OF step_post(2)] by (metis ledger.select_convs(3) ledger.update_convs(1) ledger.surjective)
    with post_effect_held [OF step_post(2)] show ?thesis by (simp add: step_post(1) book_of_def)
  next
    case (step_command ctx now c feat key es intent rows created)
    then show ?thesis using step_command_book by blast
  next
    case (step_settle ro now s c)
    note settled = settle_same_effects [OF step_settle(2) ledger_ok_core [OF that(2)]]
    have "reservations st' = reservations st"
      using step_settle(2) ledger_ok_core [OF that(2)] by (cases rule: settle_cases) auto
    with same_effect_total [OF settled] show ?thesis by (simp add: step_settle(1) book_of_def ext)
  qed
qed

section \<open>Interleaved executions\<close>

text \<open>
  An execution as the sessions run it: a command reads the ledger, others commit, then it writes. Its
  label is an order in which the same steps are taken one after the other.
\<close>

inductive ledger_exec :: "(fprint \<Rightarrow> 'h) \<Rightarrow> book_op list \<Rightarrow> 'h ledger \<Rightarrow> 'h ledger \<Rightarrow> bool" for digest where
  exec_none: "ledger_exec digest [] st st"
| exec_step: "ledger_exec digest xs st st1 \<Longrightarrow> ledger_step digest x st1 st2 \<Longrightarrow> ledger_exec digest (xs @ [x]) st st2"
| exec_race: "ledger_exec digest xs st st1 \<Longrightarrow> ledger_exec digest ys st1 (race st1)
    \<Longrightarrow> find_reservation st1 c feat key = None
    \<Longrightarrow> create_reserved_effects digest race ctx now c feat key es intent st1 = Inr (rows, created, st2)
    \<Longrightarrow> ledger_exec digest (xs @ ys @ [CommandOp c feat key es]) st st2"

lemma command_after_race:
  "find_reservation st c feat key = None \<Longrightarrow>
     create_reserved_effects digest race ctx now c feat key es intent st
     = create_reserved_effects digest (\<lambda>st. st) ctx now c feat key es intent (race st)"
  by (cases "find_reservation (race st) c feat key") (simp_all add: create_reserved_effects_def Let_def)

lemma exec_steps: "ledger_exec digest xs st st' \<Longrightarrow> steps (ledger_step digest) xs st st'"
proof (induction rule: ledger_exec.induct)
  case (exec_race xs st st1 ys race c feat key ctx now es intent rows created st2)
  have "ledger_step digest (CommandOp c feat key es) (race st1) st2"
    using exec_race.hyps(4) command_after_race [OF exec_race.hyps(3)] by (metis step_command)
  from steps_more [OF steps_append [OF exec_race.IH(2,1)] this] show ?case by simp
qed (auto intro: steps.intros)

lemma empty_ledger_book: "book_of (empty_ledger seats classes) = empty_book"
  by (simp add: book_of_def empty_ledger_def empty_book_def scope_total_def fun_eq_iff)

lemma example_execution:
  "ledger_exec (\<lambda>x. x) [CommandOp ''A'' ''FEAT-STOR-001'' ''k'' [example_effect (-12345/1000)], SettleOp ''A'' 1]
     ledger0 ledger2"
proof -
  obtain rows where "run_command (\<lambda>x. x) (example_command (-12345/1000)) example_env ledger0 = Inr (rows, True, ledger1)"
    using ledger1_created by blast
  then have "ledger_step (\<lambda>x. x) (CommandOp ''A'' ''FEAT-STOR-001'' ''k'' [example_effect (-12345/1000)]) ledger0 ledger1"
    unfolding run_command_def by (simp add: example_command_def example_env_def step_command)
  from exec_step [OF exec_none this] have "ledger_exec (\<lambda>x. x)
    [CommandOp ''A'' ''FEAT-STOR-001'' ''k'' [example_effect (-12345/1000)]] ledger0 ledger1" by simp
  from exec_step [OF this step_settle [OF ledger2_settled]] show ?thesis by simp
qed

text \<open>
  C3. The ledger refines the account book. After any interleaved execution from the empty ledger (posted
  effects, reserved commands raced by other sessions' commits, settlements), the available balance the
  ledger reads, which adds a snapshot and the pending rows, is what the book holds after the same steps one
  after the other, and a command identity is reserved exactly when the book has done it. So a command
  counts once whatever is repeated or raced, and settlement is invisible.
\<close>

theorem ledger_refines_the_account_book:
  assumes "ledger_exec digest xs (empty_ledger seats classes) st"
  shows "get_available_balance st s c a =
        rbind (require_balance_scope s c a) (\<lambda>_. Inr (held (fold book_step xs empty_book) (c, s, a)))
     \<and> (find_reservation st c' feat key \<noteq> None \<longleftrightarrow> (c', feat, key) \<in> commands (fold book_step xs empty_book))"
proof -
  note run = exec_steps [OF assms]
  have book: "book_of st = fold book_step xs empty_book"
    using booked.steps_spec [OF run empty_ledger_ok] by (simp add: empty_ledger_book)
  have "held (book_of st) = scope_total st" by (simp add: book_of_def)
  then have "get_available_balance st s c a =
      rbind (require_balance_scope s c a) (\<lambda>_. Inr (held (fold book_step xs empty_book) (c, s, a)))"
    using available_is_total [OF ledger_ok_core [OF booked.steps_good [OF run empty_ledger_ok]]]
    by (simp add: get_available_balance_def book)
  moreover have "find_reservation st c' feat key \<noteq> None \<longleftrightarrow> (c', feat, key) \<in> commands (fold book_step xs empty_book)"
    using command_done_iff [of c' feat key st] by (simp add: book)
  ultimately show ?thesis by blast
qed

lemma ledger_refines_the_account_book_witness:
  "get_available_balance ledger2 1 ''A'' ''checking'' = Inr (-1234)
     \<and> find_reservation ledger2 ''A'' ''FEAT-STOR-001'' ''k'' \<noteq> None
     \<and> find_reservation ledger2 ''A'' ''FEAT-STOR-001'' ''other'' = None"
proof -
  let ?xs = "[CommandOp ''A'' ''FEAT-STOR-001'' ''k'' [example_effect (-12345/1000)], SettleOp ''A'' 1]"
  have "held (fold book_step ?xs empty_book) (''A'', 1, ''checking'') = -1234"
    by (simp add: empty_book_def credit_def effect_scope_def example_effect_def) code_simp
  moreover have "require_balance_scope 1 ''A'' ''checking'' = Inr ()" by code_simp
  moreover have "(''A'', ''FEAT-STOR-001'', ''k'') \<in> commands (fold book_step ?xs empty_book)"
    "(''A'', ''FEAT-STOR-001'', ''other'') \<notin> commands (fold book_step ?xs empty_book)"
    by (simp_all add: empty_book_def)
  moreover note ledger_refines_the_account_book [OF example_execution [unfolded ledger0_def], where s = 1 and c = "''A''"
      and a = "''checking''" and c' = "''A''" and feat = "''FEAT-STOR-001''"]
  ultimately show ?thesis by (metis rbind_Inr)
qed

end
