(* ===== verification/Ledger_Transfer.thy ===== *)
theory Ledger_Transfer
  imports Ledger_Claims
begin

text \<open>
  Internal account transfers: \<^verbatim>\<open>app/services/ledger_transfer_service.py\<close> (the two-leg effect pair and
  its own replay), \<^verbatim>\<open>app/feats/transfer_feat.py\<close> (the student's transfer under the seat lock) and the
  transfer proof of \<^verbatim>\<open>app/services/ledger_balance_query_service.py\<close>.
\<close>

section \<open>The effect pair\<close>

definition build_transfer_effect_pair ::
    "seat_id \<Rightarrow> class_id \<Rightarrow> seat_id option \<Rightarrow> seat_id option \<Rightarrow> string \<Rightarrow> string option \<Rightarrow> rat \<Rightarrow> string \<Rightarrow> string
       \<Rightarrow> string \<Rightarrow> string \<Rightarrow> led_error + effect list" where
  "build_transfer_effect_pair seat c target actor mechanism corr amount from to withdraw deposit =
     rbind (rguard (account_known from \<and> account_known to)
              (ValueErr ''Internal transfers require checking/savings account types.'')) (\<lambda>_.
     rbind (rguard (from \<noteq> to)
              (ValueErr ''Internal transfers require distinct source and destination accounts.'')) (\<lambda>_.
     rbind (rguard (0 < cents_even amount)
              (ValueErr ''Internal transfer amount must be greater than zero.'')) (\<lambda>_.
       let leg = (\<lambda>account cents type text.
            \<lparr>ef_seat = seat, ef_class = c,
             ef_target = (case target of None \<Rightarrow> seat | Some s \<Rightarrow> s),
             ef_actor = (case actor of None \<Rightarrow> seat | Some s \<Rightarrow> s),
             ef_mechanism = mechanism, ef_amount = of_cents cents, ef_account = account, ef_type = type,
             ef_description = text, ef_original = None, ef_policy = None, ef_subtype = None,
             ef_correlation = corr, ef_comp_origin = None, ef_comp_cents = 0, ef_intent = None\<rparr>)
       in Inr [leg from (- cents_even amount) ''Withdrawal'' withdraw,
               leg to (cents_even amount) ''Deposit'' deposit])))"

section \<open>The reserved pair\<close>

text \<open>
  \<^verbatim>\<open>create_transfer_pair\<close>. Its reservation carries the transfer family's own fingerprint. A reservation
  committed by another session between the read and the flush is the unique-constraint error, which the
  code does not catch.
\<close>

definition transfer_fingerprint :: "seat_id \<Rightarrow> rat \<Rightarrow> string \<Rightarrow> string \<Rightarrow> int \<Rightarrow> led_error + fprint" where
  "transfer_fingerprint seat amount from to version =
     command_fingerprint seat seat amount (from @ ''->'' @ to) ''internal_transfer'' None None version"

definition exactly_two :: "'a list \<Rightarrow> 'e \<Rightarrow> 'e + ('a \<times> 'a)" where
  "exactly_two xs e = (if length xs = 2 then Inr (xs ! 0, xs ! 1) else Inl e)"

lemma exactly_two_Inr [simp, res_simps]: "exactly_two xs e = Inr (a, b) \<longleftrightarrow> xs = [a, b]"
  by (auto simp: exactly_two_def numeral_2_eq_2 length_Suc_conv)

definition create_transfer_pair ::
    "(fprint \<Rightarrow> 'h) \<Rightarrow> ('h ledger \<Rightarrow> 'h ledger) \<Rightarrow> feat_ctx \<Rightarrow> int \<Rightarrow> seat_id \<Rightarrow> class_id \<Rightarrow> rat \<Rightarrow> string \<Rightarrow> string
       \<Rightarrow> string \<Rightarrow> string \<Rightarrow> string option \<Rightarrow> 'h ledger \<Rightarrow> led_error + (tx \<times> tx \<times> 'h ledger)" where
  "create_transfer_pair digest race ctx now seat c amount from to withdraw deposit key0 st =
     rbind (rguard (c \<noteq> [] \<and> seat \<noteq> 0)
              (ValueErr ''FATAL: Internal transfer requires explicit class_id and seat_id.'')) (\<lambda>_.
     let key = (let k = str_or key0 [] in if k \<noteq> [] then k else str_or (fc_key ctx) []);
         feat = str_or (fc_name ctx) [] in
     rbind (rguard (key \<noteq> [] \<and> feat \<noteq> [])
              (ValueErr ''Internal transfers require a command idempotency reservation.'')) (\<lambda>_.
     rbind (build_transfer_effect_pair seat c None None ''self'' None amount from to withdraw deposit) (\<lambda>effects.
     let fingerprint_for = transfer_fingerprint seat (of_cents (cents_even amount)) from to in
     rbind (fingerprint_for fingerprint_version) (\<lambda>fp.
       case find_reservation st c feat key of
         Some r \<Rightarrow> rbind (fingerprint_matches_reservation digest r fingerprint_for) (\<lambda>ok.
           if \<not> ok then Inl (ValueErr ''Replay fingerprint mismatch for existing transfer reservation.'')
           else rbind (exactly_two (reserved_txs st (rv_id r))
                         (RuntimeErr ''Transfer reservation does not have exactly two effects.''))
                  (\<lambda>(w, d). Inr (w, d, st)))
       | None \<Rightarrow>
         (let st1 = race st in
          if find_reservation st1 c feat key \<noteq> None then Inl (RuntimeErr ''IntegrityError'')
          else (let r = \<lparr>rv_id = next_rv_id st1, rv_class = c, rv_feat = feat, rv_key = key,
                    rv_fingerprint = digest fp, rv_version = fingerprint_version\<rparr>
            in rbind (post_effects ctx now (Some r) effects (st1\<lparr>reservations := reservations st1 @ [r]\<rparr>))
                 (\<lambda>(rows, st2). rbind (exactly_two rows (RuntimeErr ''IndexError'')) (\<lambda>(w, d). Inr (w, d, st2)))))))))"

text \<open>\<^verbatim>\<open>execute_account_transfer\<close>: the seat row is locked, the source balance read, the pair created.\<close>

definition execute_account_transfer ::
    "(fprint \<Rightarrow> 'h) \<Rightarrow> ('h ledger \<Rightarrow> 'h ledger) \<Rightarrow> feat_ctx \<Rightarrow> int \<Rightarrow> seat_id \<Rightarrow> class_id \<Rightarrow> rat \<Rightarrow> string \<Rightarrow> string
       \<Rightarrow> 'h ledger \<Rightarrow> led_error + (tx \<times> tx \<times> 'h ledger)" where
  "execute_account_transfer digest race ctx now seat c amount from to st =
     (if seat_class st seat \<noteq> Some c
      then Inl (ValueErr ''FATAL: Transfer seat is outside the transaction class scope.'')
      else rbind (get_available_balance st seat c from) (\<lambda>balance.
        if of_cents balance < amount then Inl (InsufficientFunds from)
        else create_transfer_pair digest race ctx now seat c amount from to
               (''Transfer to '' @ to) (''Transfer from '' @ from) None st))"

section \<open>The transfer proof\<close>

datatype transfer_outcome = TPass | TFail | TUnavailable string

definition correlated :: "'h ledger \<Rightarrow> class_id \<Rightarrow> string \<Rightarrow> tx list" where
  "correlated st c corr = filter (\<lambda>t. tx_class t = c \<and> tx_correlation t = corr) (txs st)"

text \<open>The boundaries are a Python dict with the two accounts, or anything else (\<open>None\<close>); a missing cursor is \<open>None\<close> inside.\<close>

definition verify_transfer ::
    "'h ledger \<Rightarrow> class_id \<Rightarrow> string \<Rightarrow> (int option \<times> int option) option \<Rightarrow> transfer_outcome" where
  "verify_transfer st c corr bounds =
     (if c = [] \<or> corr = [] then TUnavailable ''invalid_scope''
      else (let rows = correlated st c corr; amounts = map tx_cents rows in
        if rows = [] then TUnavailable ''missing_transfer''
        else (let scope_ok = card (tx_seat ` set rows) = 1;
                  pair_ok = (length rows = 2 \<and> tx_account ` set rows = {''checking'', ''savings''}
                    \<and> (\<lambda>v. 0 < v) ` set amounts = {True, False});
                  magnitude_ok = (length amounts = 2 \<and> \<bar>amounts ! 0\<bar> = \<bar>amounts ! 1\<bar>);
                  zero_sum = (sum_list amounts = 0)
              in case bounds of
                Some (Some ck, Some sv) \<Rightarrow>
                  if ck < 0 \<or> sv < 0 then TUnavailable ''missing_posting_evidence''
                  else (let posting_ok = (\<forall>t \<in> set rows. case tx_sequence t of None \<Rightarrow> False
                          | Some q \<Rightarrow> (tx_account t = ''checking'' \<and> q \<le> ck) \<or> (tx_account t = ''savings'' \<and> q \<le> sv))
                        in if \<not> posting_ok \<and> scope_ok \<and> pair_ok \<and> magnitude_ok \<and> zero_sum
                           then TUnavailable ''missing_posting_evidence''
                           else if scope_ok \<and> pair_ok \<and> magnitude_ok \<and> zero_sum \<and> posting_ok then TPass else TFail)
              | _ \<Rightarrow> TUnavailable ''missing_posting_evidence'')))"

definition get_transfer_posting_boundaries ::
    "'h ledger \<Rightarrow> class_id \<Rightarrow> string \<Rightarrow> led_error + (int option \<times> int option) option" where
  "get_transfer_posting_boundaries st c corr =
     (case remdups (map tx_seat (correlated st c corr)) of
        [seat] \<Rightarrow> rbind (get_account_posting_boundary st seat c ''checking'') (\<lambda>ck.
          rbind (get_account_posting_boundary st seat c ''savings'') (\<lambda>sv. Inr (Some (ck, sv))))
      | _ \<Rightarrow> Inr None)"

section \<open>Reserving and posting in one step\<close>

text \<open>What every command family does on its fresh branch, with its own fingerprint in the reservation.\<close>

lemma reserve_and_post:
  assumes "post_effects ctx now (Some r) es (st\<lparr>reservations := reservations st @ [r]\<rparr>) = Inr (rows, st')"
    and "ledger_ok st" "find_reservation st (rv_class r) (rv_feat r) (rv_key r) = None"
    and "rv_id r = next_rv_id st" "es \<noteq> []"
  shows "ledger_ok st'" "extends st st'" "find_reservation st' (rv_class r) (rv_feat r) (rv_key r) = Some r"
    "reserved_txs st' (rv_id r) = rows" "txs st' = txs st @ rows"
proof -
  note shape = post_effects_shape [OF assms(1)]
  have res: "\<And>t. t \<in> set rows \<Longrightarrow> tx_reservation t = Some (rv_id r)"
    using shape(3) by (auto simp: list_all2_conv_all_nth in_set_conv_nth)
  have st': "st' = st\<lparr>reservations := reservations st @ [r], txs := txs st @ rows\<rparr>" using shape(1) by simp
  have "core_ok st'"
    by (rule post_effects_core [OF assms(1)]) (use assms(2) ledger_ok_core in simp)
  moreover have "reservations_ok st'"
  proof -
    have "rows \<noteq> []" using shape(2) assms(5) by auto
    then show ?thesis
      using fresh_reservation_ok [of st r rows] assms(2-4) res unfolding st' by (simp add: ledger_ok_def)
  qed
  ultimately show ok: "ledger_ok st'" by (simp add: ledger_ok_def core_ok_def)
  have "rv_id r \<notin> rv_id ` set (reservations st)" using assms(4) by (auto dest: next_rv_id_fresh)
  then show "extends st st'" using extends_append [OF st'] res by auto
  show "find_reservation st' (rv_class r) (rv_feat r) (rv_key r) = Some r"
    using assms(3) by (simp add: st' find_reservation_def find_append)
  have "filter (\<lambda>t. tx_reservation t = Some (rv_id r)) (txs st) = []"
    using \<open>rv_id r \<notin> rv_id ` set (reservations st)\<close> assms(2)
    by (fastforce simp: filter_empty_conv ledger_ok_def reservations_ok_def)
  moreover have "rows_ok (txs st')" using ok by (simp add: ledger_ok_def)
  ultimately show "reserved_txs st' (rv_id r) = rows"
    unfolding reserved_txs_sorted [OF \<open>rows_ok (txs st')\<close>] using res by (simp add: st')
  show "txs st' = txs st @ rows" by (simp add: st')
qed

lemma pair_shape:
  assumes "build_transfer_effect_pair seat c target actor mech corr amount from to wd dd = Inr es"
  shows "account_known from" "account_known to" "from \<noteq> to" "0 < cents_even amount" "length es = 2"
    "map (\<lambda>e. (ef_class e, ef_seat e, ef_account e)) es = [(c, seat, from), (c, seat, to)]"
    "map (\<lambda>e. cents_even (ef_amount e)) es = [- cents_even amount, cents_even amount]"
    "map ef_correlation es = [corr, corr]"
  using assms by (auto simp: build_transfer_effect_pair_def Let_def res_simps)

text \<open>The two ways a transfer pair is returned.\<close>

definition transfer_key :: "feat_ctx \<Rightarrow> string option \<Rightarrow> string" where
  "transfer_key ctx key0 = (let k = str_or key0 [] in if k \<noteq> [] then k else str_or (fc_key ctx) [])"

lemma create_transfer_pair_cases:
  assumes "create_transfer_pair digest race ctx now seat c amount from to wd dd key0 st = Inr (w, d, st')"
  obtains (replay) r where "find_reservation st c (str_or (fc_name ctx) []) (transfer_key ctx key0) = Some r" "st' = st"
      "fingerprint_matches_reservation digest r (transfer_fingerprint seat (of_cents (cents_even amount)) from to) = Inr True"
      "reserved_txs st (rv_id r) = [w, d]"
  | (fresh) es r fp where "find_reservation st c (str_or (fc_name ctx) []) (transfer_key ctx key0) = None"
      "find_reservation (race st) c (str_or (fc_name ctx) []) (transfer_key ctx key0) = None"
      "build_transfer_effect_pair seat c None None ''self'' None amount from to wd dd = Inr es"
      "transfer_fingerprint seat (of_cents (cents_even amount)) from to fingerprint_version = Inr fp"
      "r = \<lparr>rv_id = next_rv_id (race st), rv_class = c, rv_feat = str_or (fc_name ctx) [],
            rv_key = transfer_key ctx key0, rv_fingerprint = digest fp, rv_version = fingerprint_version\<rparr>"
      "post_effects ctx now (Some r) es ((race st)\<lparr>reservations := reservations (race st) @ [r]\<rparr>) = Inr ([w, d], st')"
proof -
  let ?feat = "str_or (fc_name ctx) []" and ?key = "transfer_key ctx key0"
  note def = assms [unfolded create_transfer_pair_def Let_def, folded transfer_key_def [unfolded Let_def]]
  from def obtain es fp where es: "build_transfer_effect_pair seat c None None ''self'' None amount from to wd dd = Inr es"
    "transfer_fingerprint seat (of_cents (cents_even amount)) from to fingerprint_version = Inr fp"
    by (auto simp only: rbind_eq_Inr)
  have guards: "c \<noteq> [] \<and> seat \<noteq> 0" "?key \<noteq> [] \<and> ?feat \<noteq> []"
    using def by (auto simp only: rbind_eq_Inr rguard_Inr)
  show thesis
  proof (cases "find_reservation st c ?feat ?key")
    case (Some r)
    with def es guards show thesis
      by (intro replay [of r]) (auto simp: res_simps split: if_splits)
  next
    case None
    with def es guards show thesis
      by (intro fresh [of es fp]) (auto simp: res_simps split: if_splits)
  qed
qed

lemma create_transfer_pair_later:
  assumes "create_transfer_pair digest race ctx now seat c amount from to wd dd key0 st = Inr (w, d, st')"
    and "ledger_ok st" "ledger_later st (race st)"
  shows "ledger_later st st'"
    "\<exists>r. find_reservation st' c (str_or (fc_name ctx) []) (transfer_key ctx key0) = Some r \<and> reserved_txs st' (rv_id r) = [w, d]
       \<and> fingerprint_matches_reservation digest r (transfer_fingerprint seat (of_cents (cents_even amount)) from to) = Inr True"
proof -
  have "ledger_later st st' \<and> (\<exists>r. find_reservation st' c (str_or (fc_name ctx) []) (transfer_key ctx key0) = Some r
      \<and> reserved_txs st' (rv_id r) = [w, d]
      \<and> fingerprint_matches_reservation digest r (transfer_fingerprint seat (of_cents (cents_even amount)) from to) = Inr True)"
    using assms(1)
  proof (cases rule: create_transfer_pair_cases)
    case (replay r)
    with assms(2) show ?thesis by (auto simp: ledger_later_def)
  next
    case (fresh es r fp)
    have "es \<noteq> []" using pair_shape(5) [OF fresh(3)] by auto
    with fresh reserve_and_post [OF fresh(6)] assms(3)
    have "ledger_ok st'" "extends (race st) st'" "find_reservation st' (rv_class r) (rv_feat r) (rv_key r) = Some r"
      "reserved_txs st' (rv_id r) = [w, d]" by (auto simp: ledger_later_def)
    with assms(3) fresh(4,5) extends_trans show ?thesis
      by (auto simp: ledger_later_def fingerprint_matches_reservation_def supported_version_def fingerprint_version_def)
  qed
  then show "ledger_later st st'"
    "\<exists>r. find_reservation st' c (str_or (fc_name ctx) []) (transfer_key ctx key0) = Some r \<and> reserved_txs st' (rv_id r) = [w, d]
       \<and> fingerprint_matches_reservation digest r (transfer_fingerprint seat (of_cents (cents_even amount)) from to) = Inr True"
    by auto
qed

section \<open>Transfers as replayable commands\<close>

record transfer =
  tr_feat :: string
  tr_key :: string
  tr_seat :: seat_id
  tr_class :: class_id
  tr_amount :: rat
  tr_from :: string
  tr_to :: string
  tr_withdraw :: string
  tr_deposit :: string

definition run_transfer :: "(fprint \<Rightarrow> 'h) \<Rightarrow> transfer \<Rightarrow> 'h environment \<Rightarrow> 'h ledger \<Rightarrow> led_error + ((tx \<times> tx) \<times> bool \<times> 'h ledger)" where
  "run_transfer digest x env st =
     rbind (create_transfer_pair digest (env_race env) ((env_ctx env)\<lparr>fc_name := Some (tr_feat x), fc_key := Some (tr_key x)\<rparr>)
              (env_now env) (tr_seat x) (tr_class x) (tr_amount x) (tr_from x) (tr_to x) (tr_withdraw x) (tr_deposit x) None st)
       (\<lambda>(w, d, st'). Inr ((w, d), find_reservation st (tr_class x) (tr_feat x) (tr_key x) = None, st'))"

definition same_pair :: "tx \<times> tx \<Rightarrow> tx \<times> tx \<Rightarrow> bool" where
  "same_pair p q = (same_effect (fst p) (fst q) \<and> same_effect (snd p) (snd q))"

lemma transfer_key_ctx [simp]: "transfer_key (ctx\<lparr>fc_name := n, fc_key := Some k\<rparr>) None = k"
  by (simp add: transfer_key_def str_or_def)

lemma str_or_Some [simp]: "str_or (Some x) [] = x"
  by (simp add: str_or_def)

lemma run_transfer_later:
  assumes "run_transfer digest x env st = Inr (rows, created, st')" "environment_ok env" "ledger_ok st"
  shows "ledger_later st st'"
proof -
  obtain w d where "create_transfer_pair digest (env_race env) ((env_ctx env)\<lparr>fc_name := Some (tr_feat x), fc_key := Some (tr_key x)\<rparr>)
      (env_now env) (tr_seat x) (tr_class x) (tr_amount x) (tr_from x) (tr_to x) (tr_withdraw x) (tr_deposit x) None st = Inr (w, d, st')"
    using assms(1) by (auto simp: run_transfer_def res_simps)
  from create_transfer_pair_later(1) [OF this assms(3)] assms(2,3) show ?thesis by (auto simp: environment_ok_def)
qed

lemma run_transfer_replays:
  assumes "run_transfer digest x env st = Inr (rows, created, st')" "environment_ok env" "ledger_ok st" "ledger_later st' st2"
  shows "\<exists>rows2. run_transfer digest x env2 st2 = Inr (rows2, False, st2) \<and> same_pair rows rows2"
proof -
  let ?ctx = "(env_ctx env)\<lparr>fc_name := Some (tr_feat x), fc_key := Some (tr_key x)\<rparr>"
  let ?fp = "transfer_fingerprint (tr_seat x) (of_cents (cents_even (tr_amount x))) (tr_from x) (tr_to x)"
  obtain w d where rows: "rows = (w, d)" and run: "create_transfer_pair digest (env_race env) ?ctx
      (env_now env) (tr_seat x) (tr_class x) (tr_amount x) (tr_from x) (tr_to x) (tr_withdraw x) (tr_deposit x) None st = Inr (w, d, st')"
    using assms(1) by (auto simp: run_transfer_def res_simps)
  have "ledger_later st (env_race env st)" using assms(2,3) by (simp add: environment_ok_def)
  from create_transfer_pair_later(2) [OF run assms(3) this] obtain r where r:
    "find_reservation st' (tr_class x) (tr_feat x) (tr_key x) = Some r" "reserved_txs st' (rv_id r) = [w, d]"
    "fingerprint_matches_reservation digest r ?fp = Inr True" by auto
  obtain rs where "reservations st2 = reservations st' @ rs"
    using assms(4) by (auto simp: ledger_later_def extends_def)
  note f2 = find_reservation_append [OF r(1) this]
  have "list_all2 same_effect [w, d] (reserved_txs st2 (rv_id r))"
    using reserved_txs_extends [of st' st2 r] find_reservation_Some(1) [OF r(1)] r(2) assms(4)
    by (simp add: ledger_later_def ledger_ok_def)
  then obtain w2 d2 where "reserved_txs st2 (rv_id r) = [w2, d2]" "same_effect w w2" "same_effect d d2"
    by (auto simp: list_all2_Cons1)
  moreover have "tr_class x \<noteq> [] \<and> tr_seat x \<noteq> 0" "tr_key x \<noteq> [] \<and> tr_feat x \<noteq> []"
    "\<exists>es. build_transfer_effect_pair (tr_seat x) (tr_class x) None None ''self'' None (tr_amount x) (tr_from x) (tr_to x) (tr_withdraw x) (tr_deposit x) = Inr es"
    "\<exists>fp. ?fp fingerprint_version = Inr fp"
    using run unfolding create_transfer_pair_def Let_def
    by (auto simp only: rbind_eq_Inr rguard_Inr) (auto simp: str_or_def)
  ultimately show ?thesis
    using f2 r(3) by (auto simp: run_transfer_def create_transfer_pair_def Let_def rows same_pair_def str_or_def exactly_two_def)
qed

interpretation transfers: replayable_command "run_transfer digest" environment_ok ledger_later same_pair
  for digest :: "fprint \<Rightarrow> 'h"
proof
  show "ledger_later st st2" if "ledger_later st st1" "ledger_later st1 st2" for st st1 st2 :: "'h ledger"
    using that extends_trans by (auto simp: ledger_later_def)
  show "ledger_later st st'"
    if "run_transfer digest x env st = Inr (rows, created, st')" "environment_ok env" "ledger_later st st"
    for x env and st st' :: "'h ledger" and rows created
    using that(3) run_transfer_later [OF that(1,2)] by (auto simp: ledger_later_def)
  show "\<exists>rows2. run_transfer digest x env2 st2 = Inr (rows2, False, st2) \<and> same_pair rows rows2"
    if "run_transfer digest x env st = Inr (rows, created, st')" "environment_ok env" "ledger_later st st"
      "ledger_later st' st2" for x env env2 and st st' st2 :: "'h ledger" and rows created
    using that(3) run_transfer_replays [OF that(1,2) _ that(4)] by (auto simp: ledger_later_def)
qed (auto simp: ledger_later_def)

section \<open>What a transfer does to the balances\<close>

lemma post_effects_correlation:
  "post_effects ctx now rv es st = Inr (ts, st') \<Longrightarrow>
     map tx_correlation ts = map (\<lambda>e. str_or (ef_correlation e) (fc_correlation ctx)) es"
proof (induction es arbitrary: st ts)
  case (Cons e es)
  then obtain t st1 ts1 where s: "post_effect ctx now rv e st = Inr (t, st1)"
    "post_effects ctx now rv es st1 = Inr (ts1, st')" "ts = t # ts1" by (auto simp: res_simps)
  have "tx_correlation t = str_or (ef_correlation e) (fc_correlation ctx)"
    using s(1) by (auto simp: post_effect_def Let_def res_simps split: option.splits)
  with Cons.IH [OF s(2)] s(3) show ?case by simp
qed simp

lemma fresh_transfer_rows:
  assumes "execute_account_transfer digest race ctx now seat c amount from to st = Inr (w, d, st')"
    and "ledger_ok (race st)" "find_reservation st c (str_or (fc_name ctx) []) (transfer_key ctx None) = None"
  shows "ledger_ok st'" "extends (race st) st'" "txs st' = txs (race st) @ [w, d]" "from \<noteq> to" "account_known from" "account_known to"
    "0 < cents_even amount" "amount \<le> of_cents (available_balance_expression st seat c from)"
    "tx_scope w = (c, seat, from)" "tx_scope d = (c, seat, to)"
    "tx_cents w = - cents_even amount" "tx_cents d = cents_even amount"
    "tx_correlation w = fc_correlation ctx" "tx_correlation d = fc_correlation ctx"
    "seat_class st seat = Some c" "c \<noteq> []" "seat \<noteq> 0"
proof -
  from assms(1) have pair: "create_transfer_pair digest race ctx now seat c amount from to
      (''Transfer to '' @ to) (''Transfer from '' @ from) None st = Inr (w, d, st')"
    and b: "amount \<le> of_cents (available_balance_expression st seat c from)" "seat_class st seat = Some c"
    "c \<noteq> []" "seat \<noteq> 0"
    by (auto simp: execute_account_transfer_def get_available_balance_def require_balance_scope_def res_simps split: if_splits)
  from pair assms(3) obtain es r fp where f: "find_reservation (race st) c (str_or (fc_name ctx) []) (transfer_key ctx None) = None"
    "build_transfer_effect_pair seat c None None ''self'' None amount from to (''Transfer to '' @ to) (''Transfer from '' @ from) = Inr es"
    "r = \<lparr>rv_id = next_rv_id (race st), rv_class = c, rv_feat = str_or (fc_name ctx) [],
          rv_key = transfer_key ctx None, rv_fingerprint = digest fp, rv_version = fingerprint_version\<rparr>"
    "post_effects ctx now (Some r) es ((race st)\<lparr>reservations := reservations (race st) @ [r]\<rparr>) = Inr ([w, d], st')"
    by (cases rule: create_transfer_pair_cases) auto
  note p = pair_shape [OF f(2)]
  have "es \<noteq> []" using p(5) by auto
  with reserve_and_post [OF f(4) assms(2)] f(1,3) show "ledger_ok st'" "extends (race st) st'" "txs st' = txs (race st) @ [w, d]"
    by auto
  from p(5) obtain e1 e2 where es: "es = [e1, e2]" by (auto simp: numeral_2_eq_2 length_Suc_conv)
  from post_effects_shape(3) [OF f(4)] p(6,7) show "tx_scope w = (c, seat, from)" "tx_scope d = (c, seat, to)"
    "tx_cents w = - cents_even amount" "tx_cents d = cents_even amount" by (auto simp: es)
  from post_effects_correlation [OF f(4)] p(8) show "tx_correlation w = fc_correlation ctx" "tx_correlation d = fc_correlation ctx"
    by (auto simp: es str_or_def)
  show "from \<noteq> to" "account_known from" "account_known to" "0 < cents_even amount"
    "amount \<le> of_cents (available_balance_expression st seat c from)" "seat_class st seat = Some c" "c \<noteq> []" "seat \<noteq> 0"
    using p(1-4) b by auto
qed

section \<open>A worked transfer\<close>

definition bank0 :: "fprint ledger" where
  "bank0 = (case run_command (\<lambda>x. x) (example_command 5) example_env ledger0 of Inr (rows, created, st) \<Rightarrow> st | Inl e \<Rightarrow> ledger0)"

definition bank_ctx :: feat_ctx where
  "bank_ctx = \<lparr>fc_name = Some ''FEAT-LED-005'', fc_correlation = ''corr-1'', fc_key = Some ''t1''\<rparr>"

definition bank_transfer :: "fprint ledger \<Rightarrow> led_error + (tx \<times> tx \<times> fprint ledger)" where
  "bank_transfer = execute_account_transfer (\<lambda>x. x) (\<lambda>st. st) bank_ctx 8 1 ''A'' 5 ''checking'' ''savings''"

definition bank1 :: "fprint ledger" where
  "bank1 = (case bank_transfer bank0 of Inr (w, d, st) \<Rightarrow> st | Inl e \<Rightarrow> bank0)"

definition bank2 :: "fprint ledger" where
  "bank2 = (case settle_balances False 9 1 ''A'' bank1 of Inr st \<Rightarrow> st | Inl e \<Rightarrow> bank1)"

lemma bank0_ok: "ledger_ok bank0"
proof -
  have "\<not> isl (run_command (\<lambda>x. x) (example_command 5) example_env ledger0)" by code_simp
  then obtain rows created where "run_command (\<lambda>x. x) (example_command 5) example_env ledger0 = Inr (rows, created, bank0)"
    by (cases "run_command (\<lambda>x. x) (example_command 5) example_env ledger0") (auto simp: bank0_def)
  from run_command_later [OF this example_env_ok ledger0_ok] show ?thesis by (simp add: ledger_later_def)
qed

lemma bank1_created: "\<exists>w d. bank_transfer bank0 = Inr (w, d, bank1)"
proof -
  have "\<not> isl (bank_transfer bank0)" by code_simp
  then show ?thesis by (cases "bank_transfer bank0") (auto simp: bank1_def)
qed

lemma bank_key_free: "find_reservation bank0 ''A'' (str_or (fc_name bank_ctx) []) (transfer_key bank_ctx None) = None"
  by code_simp

lemma bank2_settled: "settle_balances False 9 1 ''A'' bank1 = Inr bank2"
proof -
  have "\<not> isl (settle_balances False 9 1 ''A'' bank1)" by code_simp
  then show ?thesis by (auto simp: bank2_def split: sum.splits)
qed

section \<open>Properties\<close>

text \<open>
  C5. A student's transfer moves exactly the quantized amount from the source to the destination account,
  changes no other balance, and never overdraws the source, although the amount is quantized to cents
  (half to even) only after the sufficiency check. The seat lock is the hypothesis that what concurrent
  sessions commit does not change this seat's own totals.
\<close>

theorem transfer_conserves_and_never_overdraws:
  assumes "execute_account_transfer digest race ctx now seat c amount from to st = Inr (w, d, st')"
    and "ledger_ok st" "ledger_ok (race st)"
    and "find_reservation st c (str_or (fc_name ctx) []) (transfer_key ctx None) = None"
    and "\<And>a. scope_total (race st) (c, seat, a) = scope_total st (c, seat, a)"
  shows "0 < cents_even amount
    \<and> available_balance_expression st' seat c from = available_balance_expression st seat c from - cents_even amount
    \<and> 0 \<le> available_balance_expression st' seat c from
    \<and> available_balance_expression st' seat c to = available_balance_expression st seat c to + cents_even amount
    \<and> (\<forall>s' c' a. (c', s', a) \<notin> {(c, seat, from), (c, seat, to)} \<longrightarrow>
         available_balance_expression st' s' c' a = available_balance_expression (race st) s' c' a)"
proof -
  note r = fresh_transfer_rows [OF assms(1,3,4)]
  note avail = available_is_total [OF ledger_ok_core]
  have total: "scope_total st' sc = scope_total (race st) sc
      + (if sc = (c, seat, from) then - cents_even amount else 0) + (if sc = (c, seat, to) then cents_even amount else 0)" for sc
    using scope_total_append [OF r(3)] r(4) by (auto simp: r(9-12))
  have "cents_even amount \<le> available_balance_expression st seat c from"
    using cents_even_mono [OF r(8)] by simp
  with r(4,7) total assms(5) show ?thesis
    by (auto simp: avail [OF r(1)] avail [OF assms(2)] avail [OF assms(3)])
qed

lemma transfer_conserves_and_never_overdraws_witness:
  "available_balance_expression bank1 1 ''A'' ''checking'' = available_balance_expression bank0 1 ''A'' ''checking'' - 500
    \<and> available_balance_expression bank1 1 ''A'' ''savings'' = available_balance_expression bank0 1 ''A'' ''savings'' + 500"
proof -
  have c: "cents_even 5 = 500" by code_simp
  obtain w d where "execute_account_transfer (\<lambda>x. x) (\<lambda>st. st) bank_ctx 8 1 ''A'' 5 ''checking'' ''savings'' bank0 = Inr (w, d, bank1)"
    using bank1_created by (auto simp: bank_transfer_def)
  from transfer_conserves_and_never_overdraws [OF this bank0_ok bank0_ok bank_key_free] show ?thesis
    by (simp add: c)
qed

lemma correlated_append:
  "txs st' = txs st @ rows \<Longrightarrow> correlated st' c corr = correlated st c corr @ filter (\<lambda>t. tx_class t = c \<and> tx_correlation t = corr) rows"
  by (simp add: correlated_def)

lemma correlated_same:
  assumes "list_all2 same_effect ts us"
  shows "list_all2 same_effect (filter (\<lambda>t. tx_class t = c \<and> tx_correlation t = corr) ts)
    (filter (\<lambda>t. tx_class t = c \<and> tx_correlation t = corr) us)"
proof -
  have "tx_correlation u = tx_correlation t" if "same_effect t u" for t u
    using that by (cases t; cases u) (simp add: same_effect_def)
  note corr = this
  from assms show ?thesis
    by (induction rule: list_all2_induct) (auto simp: same_effectD corr)
qed

text \<open>
  C25. A new transfer, once its seat is settled, passes the independent transfer proof at the seat's own
  posting boundaries: two legs of one seat, opposite and equal, summing to zero, both posted.
\<close>

theorem settled_transfer_passes_its_proof:
  assumes "execute_account_transfer digest race ctx now seat c amount from to st = Inr (w, d, st1)"
    and "ledger_ok (race st)" "find_reservation st c (str_or (fc_name ctx) []) (transfer_key ctx None) = None"
    and "correlated (race st) c (fc_correlation ctx) = []" "fc_correlation ctx \<noteq> []"
    and "settle_balances False later seat c st1 = Inr st2"
  shows "\<exists>bounds. get_transfer_posting_boundaries st2 c (fc_correlation ctx) = Inr bounds
    \<and> verify_transfer st2 c (fc_correlation ctx) bounds = TPass"
proof -
  note r = fresh_transfer_rows [OF assms(1,2,3)]
  have core: "core_ok st1" using r(1) ledger_ok_core by blast
  have cls: "tx_class w = c" "tx_seat w = seat" "tx_account w = from" "tx_class d = c" "tx_seat d = seat" "tx_account d = to"
    using r(9,10) by (auto simp: tx_scope_def)
  have "correlated st1 c (fc_correlation ctx) = [w, d]"
    using correlated_append [OF r(3), of c "fc_correlation ctx"] assms(4) r(13,14) cls by simp
  then have "list_all2 same_effect [w, d] (correlated st2 c (fc_correlation ctx))"
    using correlated_same [OF settle_same_effects [OF assms(6) core], of c "fc_correlation ctx"]
    by (simp add: correlated_def)
  then obtain w2 d2 where rows: "correlated st2 c (fc_correlation ctx) = [w2, d2]" and eff: "same_effect w w2" "same_effect d d2"
    by (auto simp: list_all2_Cons1)
  note w2 = same_effectD [OF eff(1)] and d2 = same_effectD [OF eff(2)]
  have ok2: "ledger_ok st2" using settle_ok [OF assms(6) r(1)] .
  have "t \<in> set (txs st2) \<Longrightarrow> tx_class t = c \<Longrightarrow> tx_seat t = seat \<Longrightarrow> tx_state st2 t = POSTED" for t
    using settle_leaves_nothing_pending [OF assms(6) core] by (auto simp: pending_txs_def filter_empty_conv tx_state_PENDING)
  moreover have "w2 \<in> set (txs st2)" "d2 \<in> set (txs st2)"
    using rows unfolding correlated_def by (metis filter_is_subset list.set_intros subset_iff)+
  ultimately have "tx_state st2 w2 = POSTED" "tx_state st2 d2 = POSTED" using w2 d2 cls by auto
  then obtain qw kw qd kd where q: "tx_sequence w2 = Some qw" "scope_cursor st2 (c, seat, from) = Some kw" "qw \<le> kw"
    "tx_sequence d2 = Some qd" "scope_cursor st2 (c, seat, to) = Some kd" "qd \<le> kd"
    using w2(2) d2(2) r(9,10) by (auto simp: tx_state_POSTED)
  have pos: "0 < k" if "scope_cursor st2 sc = Some k" for sc k
    using that ok2 snapshots_okD(3) by (fastforce simp: scope_cursor_def ledger_ok_def split: option.splits)
  have acc: "{from, to} = {''checking'', ''savings''}" "(from = ''checking'' \<and> to = ''savings'') \<or> (from = ''savings'' \<and> to = ''checking'')"
    using r(4,5,6) by (auto simp: account_known_def)
  obtain ck sv where b: "scope_cursor st2 (c, seat, ''checking'') = Some ck" "scope_cursor st2 (c, seat, ''savings'') = Some sv"
    "from = ''checking'' \<Longrightarrow> qw \<le> ck \<and> qd \<le> sv" "from = ''savings'' \<Longrightarrow> qw \<le> sv \<and> qd \<le> ck"
    using q acc(2) by auto
  have "get_transfer_posting_boundaries st2 c (fc_correlation ctx) = Inr (Some (Some ck, Some sv))"
    using rows w2 d2 cls b r(16,17)
    by (simp add: get_transfer_posting_boundaries_def get_account_posting_boundary_def require_balance_scope_def account_known_def)
  moreover have "verify_transfer st2 c (fc_correlation ctx) (Some (Some ck, Some sv)) = TPass"
  proof -
    have "tx_seat ` set [w2, d2] = {seat}" "tx_account ` set [w2, d2] = {''checking'', ''savings''}"
      "map tx_cents [w2, d2] = [- cents_even amount, cents_even amount]"
      using w2 d2 cls r(11,12) acc(1) by simp_all
    moreover have "(\<lambda>v. 0 < v) ` set [- cents_even amount, cents_even amount] = {True, False}"
      using r(7) by auto
    moreover have "\<forall>t \<in> set [w2, d2]. case tx_sequence t of None \<Rightarrow> False
        | Some q \<Rightarrow> (tx_account t = ''checking'' \<and> q \<le> ck) \<or> (tx_account t = ''savings'' \<and> q \<le> sv)"
      using q(1,4) b(3,4) w2(7) d2(7) cls(3,6) acc(2) by auto
    ultimately show ?thesis
      unfolding verify_transfer_def Let_def rows
      using assms(5) r(16) pos [OF b(1)] pos [OF b(2)] by simp
  qed
  ultimately show ?thesis by blast
qed

lemma settled_transfer_passes_its_proof_witness:
  "\<exists>bounds. get_transfer_posting_boundaries bank2 ''A'' ''corr-1'' = Inr bounds \<and> verify_transfer bank2 ''A'' ''corr-1'' bounds = TPass"
proof -
  obtain w d where "execute_account_transfer (\<lambda>x. x) (\<lambda>st. st) bank_ctx 8 1 ''A'' 5 ''checking'' ''savings'' bank0 = Inr (w, d, bank1)"
    using bank1_created by (auto simp: bank_transfer_def)
  moreover have "correlated bank0 ''A'' (fc_correlation bank_ctx) = []" by code_simp
  moreover have "fc_correlation bank_ctx = ''corr-1''" by (simp add: bank_ctx_def)
  ultimately show ?thesis
    using settled_transfer_passes_its_proof [where race = "\<lambda>st. st", OF _ bank0_ok bank_key_free _ _ bank2_settled] by simp
qed

text \<open>
  C26. Transfer pairs delivered repeatedly take effect once: a successful sequence of transfer commands,
  with any repetitions, ends in the same ledger as its first deliveries alone.
\<close>

theorem repeated_transfers_take_effect_once:
  assumes "deliver_all (run_transfer digest) ds st = Inr (rs, st')" "ledger_ok st"
    and "\<And>x env. (x, env) \<in> set ds \<Longrightarrow> environment_ok env"
  shows "\<exists>rs'. deliver_all (run_transfer digest) (first_deliveries [] ds) st = Inr (rs', st')"
  by (rule transfers.deliveries_take_effect_once [OF assms(1)]) (use assms(2,3) in \<open>auto simp: ledger_later_def\<close>)

definition example_transfer :: transfer where
  "example_transfer = \<lparr>tr_feat = ''FEAT-LED-005'', tr_key = ''t1'', tr_seat = 1, tr_class = ''A'', tr_amount = 5,
     tr_from = ''checking'', tr_to = ''savings'', tr_withdraw = ''w'', tr_deposit = ''d''\<rparr>"

lemma repeated_transfers_take_effect_once_witness:
  "\<exists>rs st' rs'. deliver_all (run_transfer (\<lambda>x. x)) [(example_transfer, example_env), (example_transfer, example_env)] bank0 = Inr (rs, st')
    \<and> deliver_all (run_transfer (\<lambda>x. x)) (first_deliveries [] [(example_transfer, example_env), (example_transfer, example_env)]) bank0
      = Inr (rs', st')"
proof -
  let ?ds = "[(example_transfer, example_env), (example_transfer, example_env)]"
  have "\<not> isl (deliver_all (run_transfer (\<lambda>x. x)) ?ds bank0)" by code_simp
  then obtain rs st' where d: "deliver_all (run_transfer (\<lambda>x. x)) ?ds bank0 = Inr (rs, st')"
    by (cases "deliver_all (run_transfer (\<lambda>x. x)) ?ds bank0") auto
  from repeated_transfers_take_effect_once [OF d bank0_ok] d show ?thesis
    by (auto simp: example_env_ok)
qed

text \<open>
  C28. The student's transfer reads the balance before it looks for its reservation, so retrying a
  committed transfer with its own key can be refused for insufficient funds instead of replayed: here the
  whole balance was moved by the first delivery.
\<close>

theorem retried_transfer_is_refused_for_funds:
  "(\<exists>w d. bank_transfer bank0 = Inr (w, d, bank1)) \<and> bank_transfer bank1 = Inl (InsufficientFunds ''checking'')
    \<and> (\<exists>w d. create_transfer_pair (\<lambda>x. x) (\<lambda>st. st) bank_ctx 9 1 ''A'' 5 ''checking'' ''savings''
         ''Transfer to savings'' ''Transfer from checking'' None bank1 = Inr (w, d, bank1))"
proof -
  have "case bank_transfer bank1 of Inl (InsufficientFunds a) \<Rightarrow> a = ''checking'' | _ \<Rightarrow> False" by code_simp
  then have refused: "bank_transfer bank1 = Inl (InsufficientFunds ''checking'')"
    by (auto split: sum.splits led_error.splits)
  have "find_reservation bank1 ''A'' (str_or (fc_name bank_ctx) []) (transfer_key bank_ctx None) \<noteq> None
    \<and> \<not> isl (create_transfer_pair (\<lambda>x. x) (\<lambda>st. st) bank_ctx 9 1 ''A'' 5 ''checking'' ''savings''
         ''Transfer to savings'' ''Transfer from checking'' None bank1)" by code_simp
  then obtain w d st' where t: "create_transfer_pair (\<lambda>x. x) (\<lambda>st. st) bank_ctx 9 1 ''A'' 5 ''checking'' ''savings''
      ''Transfer to savings'' ''Transfer from checking'' None bank1 = Inr (w, d, st')"
    and found: "find_reservation bank1 ''A'' (str_or (fc_name bank_ctx) []) (transfer_key bank_ctx None) \<noteq> None"
    by (cases "create_transfer_pair (\<lambda>x. x) (\<lambda>st. st) bank_ctx 9 1 ''A'' 5 ''checking'' ''savings''
      ''Transfer to savings'' ''Transfer from checking'' None bank1") auto
  from t found have "st' = bank1" by (cases rule: create_transfer_pair_cases) auto
  with t refused bank1_created show ?thesis by blast
qed

end
