(* ===== verification/Ledger_Plans.thy ===== *)
theory Ledger_Plans
  imports Ledger_Transfer
begin

text \<open>
  Charge plans: \<^verbatim>\<open>app/services/ledger_resolution_service.py\<close> (intended plan, funding and fee resolution,
  one reservation that posts funding legs, principal and fee), \<^verbatim>\<open>replay_reserved_charge\<close> of the command
  service, \<^verbatim>\<open>app/services/ledger_fee_service.py\<close> and \<^verbatim>\<open>app/services/ledger_penalty_service.py\<close>. Plan amounts
  are quantized to cents by the code before anything is computed from them, so they are cents here.
\<close>

section \<open>Decimals read from configuration\<close>

text \<open>A Decimal is a finite number, an infinity or quiet NaN, or the NaN that signals when computed with.\<close>

datatype dec = Finite rat | NotFinite | SignalingNaN

definition digit :: "char \<Rightarrow> nat option" where
  "digit ch = (let n = of_char ch :: nat in if 48 \<le> n \<and> n \<le> 57 then Some (n - 48) else None)"

fun read_digits :: "string \<Rightarrow> nat \<Rightarrow> nat \<Rightarrow> nat \<times> nat \<times> string" where
  "read_digits [] acc n = (acc, n, [])"
| "read_digits (ch # cs) acc n =
     (case digit ch of None \<Rightarrow> (acc, n, ch # cs) | Some d \<Rightarrow> read_digits cs (10 * acc + d) (Suc n))"

definition read_sign :: "string \<Rightarrow> rat \<times> string" where
  "read_sign s = (case s of CHR ''-'' # cs \<Rightarrow> (-1, cs) | CHR ''+'' # cs \<Rightarrow> (1, cs) | _ \<Rightarrow> (1, s))"

definition read_exponent :: "string \<Rightarrow> int option" where
  "read_exponent s = (case s of [] \<Rightarrow> Some 0
     | e # cs \<Rightarrow> if e = CHR ''e'' \<or> e = CHR ''E''
         then (let (sg, cs') = read_sign cs; (v, n, rest) = read_digits cs' 0 0
               in if n = 0 \<or> rest \<noteq> [] then None else Some (if sg = 1 then int v else - int v))
         else None)"

text \<open>
  \<^verbatim>\<open>Decimal(text)\<close> for ASCII text: surrounding blanks and underscores dropped, a sign, digits with an
  optional fraction and exponent, or one of the special values. \<open>None\<close> is \<^verbatim>\<open>InvalidOperation\<close>.
\<close>

definition parse_decimal :: "string \<Rightarrow> dec option" where
  "parse_decimal text =
     (let (sg, body) = read_sign (filter (\<lambda>ch. ch \<noteq> CHR ''_'') (str_strip text)); name = str_lower body in
      if name \<in> {''inf'', ''infinity''} \<or> rev (dropWhile (\<lambda>ch. digit ch \<noteq> None) (rev name)) = ''nan'' then Some NotFinite
      else if rev (dropWhile (\<lambda>ch. digit ch \<noteq> None) (rev name)) = ''snan'' then Some SignalingNaN
      else (let (whole, n, rest) = read_digits body 0 0;
                (num, m, rest') = (case rest of CHR ''.'' # cs \<Rightarrow> read_digits cs whole 0 | _ \<Rightarrow> (whole, 0, rest))
            in if n + m = 0 then None
               else (case read_exponent rest' of None \<Rightarrow> None
                 | Some e \<Rightarrow> Some (Finite (sg * of_nat num / 10 ^ m * (if 0 \<le> e then 10 ^ nat e else 1 / 10 ^ nat (- e)))))))"

section \<open>Plans\<close>

record ledger_plan =
  pl_seat :: seat_id
  pl_class :: class_id
  pl_debit :: int
  pl_description :: string
  pl_type :: string
  pl_actor :: seat_id
  pl_target :: seat_id
  pl_mechanism :: string
  pl_fee_actor :: "seat_id option"
  pl_source :: string
  pl_target_account :: "string option"
  pl_origin :: "string option"
  pl_intent_locator :: "string option"
  pl_original :: "nat option"
  pl_correlation :: "string option"
  pl_intent :: "fval list option"
  pl_subtype :: "string option"

text \<open>\<^verbatim>\<open>build_intended_ledger_plan\<close>: the given fields, with the debit quantized.\<close>

definition build_intended_ledger_plan :: "rat \<Rightarrow> ledger_plan \<Rightarrow> led_error + ledger_plan" where
  "build_intended_ledger_plan debit p =
     (if cents_even debit < 0 \<or> \<not> account_known (pl_source p)
      then Inl (ValueErr ''Charge plans require a nonnegative canonical-account debit.'')
      else Inr (p\<lparr>pl_debit := cents_even debit\<rparr>))"

text \<open>The tiers of a progressive schedule are JSON values: text, a number, or something \<^verbatim>\<open>Decimal\<close> rejects.\<close>

datatype tier_value = TierText string | TierNumber rat | TierOther

record banking_directive =
  bd_class :: class_id
  bd_version :: "string option"
  bd_protection :: bool
  bd_flat_fee :: "dec option"
  bd_progressive :: "(string \<times> tier_value) list option"
  bd_cwi :: "dec option"
  bd_period_start :: "int option"

type_synonym directive_id =
  "class_id \<times> string option \<times> bool \<times> (dec option \<times> (string \<times> tier_value) list option \<times> dec option \<times> int option) option"

definition directive_identity :: "banking_directive \<Rightarrow> bool \<Rightarrow> directive_id" where
  "directive_identity d include_fees = (bd_class d, bd_version d, bd_protection d,
     if include_fees then Some (bd_flat_fee d, bd_progressive d, bd_cwi d, bd_period_start d) else None)"

record resolved_plan =
  rs_outcome :: string
  rs_plan :: ledger_plan
  rs_shortfall :: int
  rs_transfer :: int
  rs_fee :: int
  rs_checking_before :: int
  rs_savings_before :: int
  rs_checking_after :: int
  rs_savings_after :: int
  rs_identity :: "directive_id option"

section \<open>Fees\<close>

text \<open>\<^verbatim>\<open>Decimal(str(raw).strip().rstrip("%")) / 100\<close>.\<close>

definition rstrip_percent :: "string \<Rightarrow> string" where
  "rstrip_percent s = rev (dropWhile (\<lambda>ch. ch = CHR ''%'') (rev s))"

definition tier_rate :: "tier_value option \<Rightarrow> led_error + rat" where
  "tier_rate raw =
     (case (case raw of None \<Rightarrow> None | Some TierOther \<Rightarrow> None | Some (TierNumber q) \<Rightarrow> Some (Finite q)
            | Some (TierText s) \<Rightarrow> parse_decimal (rstrip_percent (str_strip s))) of
        None \<Rightarrow> Inl (ValueErr ''Unavailable banking fee directive.'')
      | Some SignalingNaN \<Rightarrow> Inl (ValueErr ''Unavailable banking fee directive.'')
      | Some NotFinite \<Rightarrow> Inl (ValueErr ''Invalid banking fee directive.'')
      | Some (Finite q) \<Rightarrow> if ddiv q 100 < 0 then Inl (ValueErr ''Invalid banking fee directive.'') else Inr (ddiv q 100))"

definition fee_count :: "'h ledger \<Rightarrow> class_id \<Rightarrow> seat_id \<Rightarrow> int \<Rightarrow> nat" where
  "fee_count st c s start = length (filter (\<lambda>t. tx_class t = c \<and> tx_seat t = s
     \<and> tx_type t = ''overdraft_fee'' \<and> start \<le> tx_timestamp t) (txs st))"

definition fee_tier :: "nat \<Rightarrow> string" where
  "fee_tier n = (if n = 0 then ''tier_1'' else if n = 1 then ''tier_2'' else ''tier_3'')"

definition fee_amount :: "ledger_plan \<Rightarrow> banking_directive \<Rightarrow> 'h ledger \<Rightarrow> led_error + int" where
  "fee_amount p d st =
     (case bd_flat_fee d of
        Some (Finite q) \<Rightarrow> if q < 0 then Inl (ValueErr ''Invalid banking fee directive.'') else Inr (cents_even q)
      | Some _ \<Rightarrow> Inl (ValueErr ''Invalid banking fee directive.'')
      | None \<Rightarrow>
        (case bd_progressive d of
           None \<Rightarrow> Inl (ValueErr ''Unavailable banking fee directive.'')
         | Some [] \<Rightarrow> Inr 0
         | Some tiers \<Rightarrow>
           (case (bd_cwi d, bd_period_start d) of
              (Some (Finite cwi), Some start) \<Rightarrow>
                if cwi < 0 then Inl (ValueErr ''Invalid banking fee directive.'')
                else rbind (tier_rate (map_of (rev tiers) (fee_tier (fee_count st (pl_class p) (pl_seat p) start))))
                       (\<lambda>rate. Inr (cents_even (dmul cwi rate)))
            | (Some _, Some start) \<Rightarrow> Inl (ValueErr ''Invalid banking fee directive.'')
            | _ \<Rightarrow> Inl (ValueErr ''Unavailable banking fee directive.''))))"

section \<open>Resolution\<close>

text \<open>Whether a fee is due: an explicit fee when forced or overdrawn, an agreement's when it fails unprotected.\<close>

definition charge_fee ::
    "ledger_plan \<Rightarrow> banking_directive \<Rightarrow> string \<Rightarrow> bool \<Rightarrow> int \<Rightarrow> int \<Rightarrow> 'h ledger \<Rightarrow> led_error + int" where
  "charge_fee p d authority force ck sv st =
     (let shortfall = max (pl_debit p - ck) 0; can_protect = (bd_protection d \<and> shortfall \<le> sv) in
      if authority = ''EXPLICIT_FEE'' \<and> (force \<or> ck < 0) then fee_amount p d st
      else if authority = ''FAILED_AGREEMENT'' \<and> 0 < shortfall \<and> \<not> can_protect then fee_amount p d st
      else Inr 0)"

text \<open>The plan against checking once the fee is known.\<close>

definition checking_plan :: "ledger_plan \<Rightarrow> banking_directive \<Rightarrow> string \<Rightarrow> int \<Rightarrow> int \<Rightarrow> int \<Rightarrow> resolved_plan" where
  "checking_plan p d authority ck sv fee =
     (let total = pl_debit p + fee;
          shortfall = (if total \<noteq> 0 then max (total - ck) 0 else 0);
          transfer = (if 0 < shortfall \<and> bd_protection d \<and> shortfall \<le> sv then shortfall else 0)
      in \<lparr>rs_outcome = (if transfer \<noteq> 0 \<or> fee \<noteq> 0 then ''TRANSFORM'' else ''ACCEPT''), rs_plan = p,
          rs_shortfall = shortfall, rs_transfer = transfer, rs_fee = fee,
          rs_checking_before = ck, rs_savings_before = sv,
          rs_checking_after = ck + transfer - total, rs_savings_after = sv - transfer,
          rs_identity = Some (directive_identity d (authority \<noteq> ''NONE''))\<rparr>)"

definition savings_plan :: "ledger_plan \<Rightarrow> int \<Rightarrow> int \<Rightarrow> resolved_plan" where
  "savings_plan p ck sv = \<lparr>rs_outcome = ''ACCEPT'', rs_plan = p, rs_shortfall = 0, rs_transfer = 0, rs_fee = 0,
     rs_checking_before = ck, rs_savings_before = sv, rs_checking_after = ck, rs_savings_after = sv - pl_debit p,
     rs_identity = None\<rparr>"

definition resolve_intended_ledger_plan ::
    "ledger_plan \<Rightarrow> banking_directive \<Rightarrow> string \<Rightarrow> bool \<Rightarrow> 'h ledger \<Rightarrow> led_error + resolved_plan" where
  "resolve_intended_ledger_plan p d authority force st =
     (if bd_class d \<noteq> pl_class p \<or> authority \<notin> {''NONE'', ''FAILED_AGREEMENT'', ''EXPLICIT_FEE''}
      then Inl (ValueErr ''Invalid funding directive scope or fee authority.'')
      else rbind (get_available_balances st (pl_seat p) (pl_class p)) (\<lambda>(ck, sv).
        if pl_source p = ''savings'' then
          (if authority \<noteq> ''NONE'' then Inl (ValueErr ''Savings recovery cannot create a checking fee.'')
           else Inr (savings_plan p ck sv))
        else rbind (charge_fee p d authority force ck sv st) (\<lambda>fee. Inr (checking_plan p d authority ck sv fee))))"

section \<open>Application\<close>

record plan_result =
  pr_reason :: string
  pr_effects :: "tx list"
  pr_created :: "bool option"
  pr_principal :: "tx option"
  pr_fee_transaction :: "nat option"

text \<open>The scope lock: the seat must belong to the class, the class must exist.\<close>

definition lock_recovery_scope :: "class_id \<Rightarrow> seat_id \<Rightarrow> 'h ledger \<Rightarrow> led_error + unit" where
  "lock_recovery_scope c s st =
     (if seat_class st s \<noteq> Some c then Inl (RecoveryIntegrity ''Invalid scoped seat.'')
      else if \<not> class_exists st c then Inl NoResultFound else Inr ())"

definition plan_effect :: "ledger_plan \<Rightarrow> int \<Rightarrow> effect" where
  "plan_effect p cents = \<lparr>ef_seat = pl_seat p, ef_class = pl_class p, ef_target = pl_target p, ef_actor = pl_actor p,
     ef_mechanism = pl_mechanism p, ef_amount = of_cents cents, ef_account = pl_source p, ef_type = pl_type p,
     ef_description = pl_description p, ef_original = None, ef_policy = None, ef_subtype = None,
     ef_correlation = pl_correlation p, ef_comp_origin = None, ef_comp_cents = 0, ef_intent = None\<rparr>"

definition principal_effect :: "ledger_plan \<Rightarrow> effect" where
  "principal_effect p = (plan_effect p (- pl_debit p))\<lparr>ef_original := pl_original p, ef_subtype := pl_subtype p,
     ef_comp_origin := pl_origin p, ef_intent := pl_intent_locator p,
     ef_comp_cents := (if str_or (pl_origin p) [] \<noteq> [] then pl_debit p else 0)\<rparr>"

definition fee_effect :: "ledger_plan \<Rightarrow> seat_id \<Rightarrow> int \<Rightarrow> effect" where
  "fee_effect p actor cents = (plan_effect p (- cents))\<lparr>ef_actor := actor, ef_mechanism := ''system'',
     ef_target := pl_seat p, ef_account := ''checking'', ef_type := ''overdraft_fee'',
     ef_description := ''Non-sufficient funds fee''\<rparr>"

text \<open>The effect vector, with the positions of the principal and of the fee.\<close>

definition plan_effects :: "string \<Rightarrow> resolved_plan \<Rightarrow> led_error + (effect list \<times> nat option \<times> nat option)" where
  "plan_effects funding r =
     (let p = rs_plan r in
      rbind (if rs_transfer r \<noteq> 0
             then build_transfer_effect_pair (pl_seat p) (pl_class p) (Some (pl_seat p)) (Some (pl_actor p)) (pl_mechanism p)
                    (Some funding) (of_cents (rs_transfer r)) ''savings'' ''checking''
                    ''Overdraft protection transfer to checking'' ''Overdraft protection transfer from savings''
             else Inr []) (\<lambda>legs.
      let with_principal = legs @ (if pl_debit p \<noteq> 0 then [principal_effect p] else []);
          principal = (if pl_debit p \<noteq> 0 then Some (length legs) else None) in
      if rs_fee r = 0 then Inr (with_principal, principal, None)
      else (case pl_fee_actor p of
              None \<Rightarrow> Inl (ValueErr ''A fee requires its resolved authority actor.'')
            | Some actor \<Rightarrow> Inr (with_principal @ [fee_effect p actor (rs_fee r)], principal, Some (length with_principal)))))"

text \<open>
  \<^verbatim>\<open>apply_resolved_ledger_plan\<close>. \<open>funding_locator\<close> is the hashed correlation of the funding legs; \<open>race\<close> is
  what other sessions commit before the scope lock is held, \<open>race2\<close> what they commit before the flush.
\<close>

definition at_index :: "'a list \<Rightarrow> nat \<Rightarrow> led_error + 'a" where
  "at_index xs i = (if i < length xs then Inr (xs ! i) else Inl (RuntimeErr ''IndexError''))"

definition at_optional :: "'a list \<Rightarrow> nat option \<Rightarrow> led_error + 'a option" where
  "at_optional xs i = (case i of None \<Rightarrow> Inr None | Some j \<Rightarrow> rbind (at_index xs j) (\<lambda>x. Inr (Some x)))"

definition apply_resolved_ledger_plan ::
    "(fprint \<Rightarrow> 'h) \<Rightarrow> (class_id \<Rightarrow> string option \<Rightarrow> string \<Rightarrow> string) \<Rightarrow> ('h ledger \<Rightarrow> 'h ledger) \<Rightarrow> ('h ledger \<Rightarrow> 'h ledger)
       \<Rightarrow> feat_ctx \<Rightarrow> int \<Rightarrow> resolved_plan \<Rightarrow> string \<Rightarrow> 'h ledger \<Rightarrow> led_error + (plan_result \<times> 'h ledger)" where
  "apply_resolved_ledger_plan digest funding_locator race race2 ctx now r key st =
     (let p = rs_plan r; feat = str_or (fc_name ctx) [] in
      rbind (plan_effects (funding_locator (pl_class p) (fc_name ctx) key) r) (\<lambda>(effects, principal, fee).
      if effects = [] then Inr (\<lparr>pr_reason = rs_outcome r, pr_effects = [], pr_created = None, pr_principal = None,
          pr_fee_transaction = None\<rparr>, st)
      else rbind (if find_reservation st (pl_class p) feat key \<noteq> None then Inr st
             else (let st1 = race st in
               rbind (lock_recovery_scope (pl_class p) (pl_seat p) st1) (\<lambda>_.
               rbind (get_available_balances st1 (pl_seat p) (pl_class p)) (\<lambda>(checking, savings).
                 if checking \<noteq> rs_checking_before r \<or> savings \<noteq> rs_savings_before r
                 then Inl (ValueErr ''PREVIEW_CHANGED'') else Inr st1)))) (\<lambda>st1.
        rbind (create_reserved_effects digest race2 ctx now (pl_class p) feat key effects (pl_intent p) st1) (\<lambda>(rows, created, st2).
        rbind (at_optional rows principal) (\<lambda>pt.
        rbind (at_optional rows fee) (\<lambda>ft.
          Inr (\<lparr>pr_reason = rs_outcome r, pr_effects = rows, pr_created = Some created, pr_principal = pt,
                pr_fee_transaction = map_option tx_id ft\<rparr>, st2)))))))"

section \<open>Replaying a charge\<close>

text \<open>The effect a stored row stands for: \<^verbatim>\<open>{key: getattr(row, key)}\<close> over the fingerprint's keys.\<close>

definition effect_of_tx :: "tx \<Rightarrow> effect" where
  "effect_of_tx t = \<lparr>ef_seat = tx_seat t, ef_class = tx_class t, ef_target = tx_target t, ef_actor = tx_actor t,
     ef_mechanism = tx_mechanism t, ef_amount = of_cents (tx_cents t), ef_account = tx_account t, ef_type = tx_type t,
     ef_description = tx_description t, ef_original = tx_original t, ef_policy = tx_policy t,
     ef_subtype = tx_subtype t, ef_correlation = Some (tx_correlation t), ef_comp_origin = tx_comp_origin t,
     ef_comp_cents = tx_comp_cents t, ef_intent = tx_intent t\<rparr>"

definition replay_reserved_charge ::
    "(fprint \<Rightarrow> 'h) \<Rightarrow> class_id \<Rightarrow> string \<Rightarrow> string \<Rightarrow> seat_id \<Rightarrow> seat_id \<Rightarrow> string \<Rightarrow> fval list option \<Rightarrow> 'h ledger
       \<Rightarrow> led_error + (tx \<times> tx list) option" where
  "replay_reserved_charge digest c feat key seat actor type intent st =
     (case find_reservation st c feat key of
        None \<Rightarrow> Inr None
      | Some r \<Rightarrow>
        (let rows = reserved_txs st (rv_id r) in
         case filter (\<lambda>t. tx_type t = type \<and> tx_cents t < 0 \<and> tx_account t = ''checking'') rows of
           [t] \<Rightarrow> if tx_seat t \<noteq> seat \<or> tx_actor t \<noteq> actor
             then Inl (ValueErr ''Replay fingerprint mismatch for charge scope or principal.'')
             else rbind (assert_replay_matches digest r (map effect_of_tx rows) intent) (\<lambda>_. Inr (Some (t, rows)))
         | _ \<Rightarrow> Inl (ValueErr ''Replay fingerprint mismatch for charge scope or principal.'')))"

definition fee_plan :: "class_id \<Rightarrow> seat_id \<Rightarrow> seat_id \<Rightarrow> bool \<Rightarrow> ledger_plan" where
  "fee_plan c seat actor force = \<lparr>pl_seat = seat, pl_class = c, pl_debit = 0, pl_description = ''Overdraft fee'',
     pl_type = ''overdraft_fee'', pl_actor = actor, pl_target = seat, pl_mechanism = ''system'',
     pl_fee_actor = Some actor, pl_source = ''checking'', pl_target_account = None, pl_origin = None,
     pl_intent_locator = None, pl_original = None, pl_correlation = None,
     pl_intent = Some [VStr ''OVERDRAFT_FEE'', VBool force], pl_subtype = None\<rparr>"

text \<open>\<^verbatim>\<open>apply_overdraft_fee_if_needed\<close>: accepted, the fee in cents, and the state.\<close>

definition apply_overdraft_fee_if_needed ::
    "(fprint \<Rightarrow> 'h) \<Rightarrow> (class_id \<Rightarrow> string option \<Rightarrow> string \<Rightarrow> string) \<Rightarrow> ('h ledger \<Rightarrow> 'h ledger) \<Rightarrow> ('h ledger \<Rightarrow> 'h ledger)
       \<Rightarrow> feat_ctx \<Rightarrow> int \<Rightarrow> class_id \<Rightarrow> seat_id \<Rightarrow> banking_directive \<Rightarrow> seat_id \<Rightarrow> bool \<Rightarrow> string \<Rightarrow> 'h ledger
       \<Rightarrow> led_error + (bool \<times> int \<times> 'h ledger)" where
  "apply_overdraft_fee_if_needed digest funding_locator race race2 ctx now c seat d actor force key st =
     rbind (lock_recovery_scope c seat st) (\<lambda>_.
     let plan0 = fee_plan c seat actor force in
     rbind (if key \<noteq> [] then replay_reserved_charge digest c (str_or (fc_name ctx) []) key seat actor ''overdraft_fee''
              (pl_intent plan0) st else Inr None) (\<lambda>prior.
     case prior of
       Some (t, rows) \<Rightarrow> Inr (True, \<bar>tx_cents t\<bar>, st)
     | None \<Rightarrow> rbind (build_intended_ledger_plan 0 plan0) (\<lambda>p.
         rbind (resolve_intended_ledger_plan p d ''EXPLICIT_FEE'' force st) (\<lambda>r.
         rbind (apply_resolved_ledger_plan digest funding_locator race race2 ctx now r key st) (\<lambda>(res, st').
           Inr (True, rs_fee r, st'))))))"

section \<open>Penalties\<close>

definition penalty_description :: "string \<Rightarrow> string" where
  "penalty_description reason = take 255 (''Fine: '' @ str_strip reason)"

text \<open>
  \<^verbatim>\<open>resolve_penalty_plans\<close>: one plan per distinct seat, in ascending order, always without a fee.
\<close>

definition penalty_plan :: "class_id \<Rightarrow> int \<Rightarrow> string \<Rightarrow> seat_id \<Rightarrow> seat_id \<Rightarrow> ledger_plan" where
  "penalty_plan c cents reason actor seat = \<lparr>pl_seat = seat, pl_class = c, pl_debit = cents,
     pl_description = penalty_description reason, pl_type = ''penalty'', pl_actor = actor, pl_target = seat,
     pl_mechanism = ''teacher'', pl_fee_actor = None, pl_source = ''checking'', pl_target_account = None,
     pl_origin = None, pl_intent_locator = None, pl_original = None, pl_correlation = None,
     pl_intent = Some [VStr ''penalty'', VInt (int seat), VAmount (of_cents cents), VStr (penalty_description reason)],
     pl_subtype = None\<rparr>"

definition resolve_penalty_plans ::
    "class_id \<Rightarrow> seat_id list \<Rightarrow> rat \<Rightarrow> string \<Rightarrow> seat_id \<Rightarrow> banking_directive \<Rightarrow> 'h ledger \<Rightarrow> led_error + resolved_plan list" where
  "resolve_penalty_plans c seats amount reason actor d st =
     (if cents_even amount \<le> 0 then Inl (ValueErr ''A penalty must be a positive amount.'')
      else rmapM (\<lambda>seat.
        rbind (build_intended_ledger_plan (of_cents (cents_even amount)) (penalty_plan c (cents_even amount) reason actor seat))
          (\<lambda>p. resolve_intended_ledger_plan p d ''NONE'' False st)) (sorted_list_of_set (set seats)))"

end
