(* ===== verification/Ledger_Charges.thy ===== *)
theory Ledger_Charges
  imports Ledger_Plans
begin

text \<open>
  What resolving and applying a charge plan guarantees: protection moves the whole shortfall or nothing,
  applying a plan lands on the previewed balances or is refused, and a fee under a key is charged once.
\<close>

section \<open>Resolution\<close>

lemma tier_rate_nonneg: "tier_rate raw = Inr q \<Longrightarrow> 0 \<le> q"
  by (auto simp: tier_rate_def split: option.splits tier_value.splits dec.splits if_splits)

lemma fee_amount_nonneg:
  assumes "fee_amount p d st = Inr fee"
  shows "0 \<le> fee"
proof -
  have "0 \<le> dmul x y" if "0 \<le> x" "0 \<le> y" for x y
    using that by (simp add: dmul_def ctx28_nonneg)
  with assms show ?thesis
    by (auto simp: fee_amount_def res_simps tier_rate_nonneg cents_even_nonneg
        split: option.splits dec.splits if_splits list.splits)
qed

lemma resolve_cases:
  assumes "resolve_intended_ledger_plan p d authority force st = Inr r"
  obtains (from_savings) ck sv where "pl_source p = ''savings''" "authority = ''NONE''"
      "get_available_balances st (pl_seat p) (pl_class p) = Inr (ck, sv)" "r = savings_plan p ck sv"
  | (from_checking) ck sv fee where "pl_source p \<noteq> ''savings''"
      "get_available_balances st (pl_seat p) (pl_class p) = Inr (ck, sv)"
      "charge_fee p d authority force ck sv st = Inr fee" "r = checking_plan p d authority ck sv fee"
proof (cases "pl_source p = ''savings''")
  case True
  with assms show thesis
    by (auto simp: resolve_intended_ledger_plan_def rbind_eq_Inr split: if_splits intro: from_savings)
next
  case False
  with assms show thesis
    by (auto simp: resolve_intended_ledger_plan_def rbind_eq_Inr split: if_splits intro: from_checking)
qed

lemma charge_fee_cases:
  assumes "charge_fee p d authority force ck sv st = Inr fee"
  shows "0 \<le> fee" "authority = ''NONE'' \<Longrightarrow> fee = 0"
    "authority = ''FAILED_AGREEMENT'' \<Longrightarrow> fee \<noteq> 0 \<Longrightarrow> ck < pl_debit p \<and> \<not> (bd_protection d \<and> pl_debit p - ck \<le> sv)"
  using assms fee_amount_nonneg by (auto simp: charge_fee_def Let_def split: if_splits)

lemma resolved_fee_nonneg:
  "resolve_intended_ledger_plan p d authority force st = Inr r \<Longrightarrow> 0 \<le> rs_fee r"
  by (erule resolve_cases) (auto simp: savings_plan_def checking_plan_def Let_def charge_fee_cases(1))

text \<open>
  C17. Overdraft protection is all or nothing: a resolved checking charge moves the whole shortfall from
  savings, ending at exactly zero in checking and no debt in savings, or moves nothing; money is conserved
  up to the principal and the fee; a charge that failed its agreement pays a fee only when it is not
  protected, and a covered charge changes nothing else.
\<close>

theorem protection_is_all_or_nothing:
  assumes "resolve_intended_ledger_plan p d authority force st = Inr r" "pl_source p = ''checking''" "0 \<le> pl_debit p"
  shows "rs_checking_after r + rs_savings_after r = rs_checking_before r + rs_savings_before r - pl_debit p - rs_fee r
    \<and> 0 \<le> rs_fee r
    \<and> (rs_transfer r \<noteq> 0 \<longrightarrow> bd_protection d \<and> rs_checking_after r = 0 \<and> 0 \<le> rs_savings_after r \<and> rs_transfer r = rs_shortfall r)
    \<and> (rs_transfer r = 0 \<longrightarrow> rs_savings_after r = rs_savings_before r)
    \<and> (authority = ''FAILED_AGREEMENT'' \<and> rs_fee r \<noteq> 0 \<longrightarrow> rs_transfer r = 0)
    \<and> (authority \<noteq> ''EXPLICIT_FEE'' \<and> pl_debit p \<le> rs_checking_before r \<longrightarrow>
        rs_outcome r = ''ACCEPT'' \<and> rs_checking_after r = rs_checking_before r - pl_debit p)"
  using assms(1)
proof (cases rule: resolve_cases)
  case (from_checking ck sv fee)
  note fee = charge_fee_cases [OF from_checking(3)]
  have "authority \<in> {''NONE'', ''FAILED_AGREEMENT'', ''EXPLICIT_FEE''}"
    using assms(1) by (auto simp: resolve_intended_ledger_plan_def split: if_splits)
  then have fee0: "authority \<noteq> ''EXPLICIT_FEE'' \<and> pl_debit p \<le> ck \<Longrightarrow> fee = 0"
    using fee(2,3) by auto
  have failed: "authority = ''FAILED_AGREEMENT'' \<and> fee \<noteq> 0 \<Longrightarrow> rs_transfer r = 0"
    using fee(1,3) by (auto simp: from_checking(4) checking_plan_def Let_def)
  show ?thesis
    using fee(1) failed fee0 assms(3) by (auto simp: from_checking(4) checking_plan_def Let_def)
qed (use assms(2) in auto)

definition example_directive :: banking_directive where
  "example_directive = \<lparr>bd_class = ''A'', bd_version = Some ''v'', bd_protection = True, bd_flat_fee = Some (Finite 2),
     bd_progressive = None, bd_cwi = None, bd_period_start = None\<rparr>"

lemma protection_is_all_or_nothing_witness:
  "\<exists>r. resolve_intended_ledger_plan (penalty_plan ''A'' 300 ''late'' 2 1) example_directive ''NONE'' False bank1 = Inr r
    \<and> rs_transfer r = 300 \<and> rs_checking_after r = 0 \<and> rs_savings_after r = 200"
proof -
  let ?p = "penalty_plan ''A'' 300 ''late'' 2 1"
  have "case resolve_intended_ledger_plan ?p example_directive ''NONE'' False bank1 of
      Inr r \<Rightarrow> rs_transfer r = 300 \<and> rs_savings_before r = 500 \<and> rs_checking_before r = 0 \<and> rs_fee r = 0 | Inl e \<Rightarrow> False" by code_simp
  then obtain r where r: "resolve_intended_ledger_plan ?p example_directive ''NONE'' False bank1 = Inr r"
    "rs_transfer r = 300" "rs_savings_before r = 500" "rs_checking_before r = 0" "rs_fee r = 0" by (auto split: sum.splits)
  from protection_is_all_or_nothing [OF r(1)] r show ?thesis by (auto simp: penalty_plan_def)
qed

section \<open>Application\<close>

lemma pair_effects:
  assumes "build_transfer_effect_pair seat c target actor mech corr amount from to wd dd = Inr es"
  obtains e1 e2 where "es = [e1, e2]" "(ef_class e1, ef_seat e1, ef_account e1) = (c, seat, from)"
    "(ef_class e2, ef_seat e2, ef_account e2) = (c, seat, to)"
    "cents_even (ef_amount e1) = - cents_even amount" "cents_even (ef_amount e2) = cents_even amount"
proof -
  note p = pair_shape [OF assms]
  from p(5) obtain e1 e2 where es: "es = [e1, e2]" by (auto simp: numeral_2_eq_2 length_Suc_conv)
  with p(6,7) show thesis by (intro that [of e1 e2]) auto
qed

text \<open>The effects of a plan sum, per account, to the change the plan previews.\<close>

lemma plan_effects_total:
  assumes "plan_effects funding r = Inr (es, i, j)" "account_known (pl_source (rs_plan r))"
  shows "sum_list (map (\<lambda>e. cents_even (ef_amount e)) (filter (\<lambda>e. (ef_class e, ef_seat e, ef_account e) = sc) es)) =
    (if sc = (pl_class (rs_plan r), pl_seat (rs_plan r), ''checking'')
       then rs_transfer r - (if pl_source (rs_plan r) = ''checking'' then pl_debit (rs_plan r) else 0) - rs_fee r else 0)
    + (if sc = (pl_class (rs_plan r), pl_seat (rs_plan r), ''savings'')
       then - rs_transfer r - (if pl_source (rs_plan r) = ''savings'' then pl_debit (rs_plan r) else 0) else 0)"
proof -
  let ?sum = "\<lambda>es. sum_list (map (\<lambda>e. cents_even (ef_amount e)) (filter (\<lambda>e. (ef_class e, ef_seat e, ef_account e) = sc) es))"
  let ?p = "rs_plan r"
  from assms(1) obtain legs where legs: "(if rs_transfer r \<noteq> 0
      then build_transfer_effect_pair (pl_seat ?p) (pl_class ?p) (Some (pl_seat ?p)) (Some (pl_actor ?p)) (pl_mechanism ?p)
        (Some funding) (of_cents (rs_transfer r)) ''savings'' ''checking''
        ''Overdraft protection transfer to checking'' ''Overdraft protection transfer from savings''
      else Inr []) = Inr legs"
    by (auto simp: plan_effects_def Let_def rbind_eq_Inr)
  have legsum: "?sum legs = (if sc = (pl_class ?p, pl_seat ?p, ''checking'') then rs_transfer r else 0)
      + (if sc = (pl_class ?p, pl_seat ?p, ''savings'') then - rs_transfer r else 0)"
  proof (cases "rs_transfer r = 0")
    case True
    with legs show ?thesis by simp
  next
    case False
    with legs have "build_transfer_effect_pair (pl_seat ?p) (pl_class ?p) (Some (pl_seat ?p)) (Some (pl_actor ?p)) (pl_mechanism ?p)
        (Some funding) (of_cents (rs_transfer r)) ''savings'' ''checking''
        ''Overdraft protection transfer to checking'' ''Overdraft protection transfer from savings'' = Inr legs" by simp
    from pair_effects [OF this] obtain e1 e2 where "legs = [e1, e2]"
      "(ef_class e1, ef_seat e1, ef_account e1) = (pl_class ?p, pl_seat ?p, ''savings'')"
      "(ef_class e2, ef_seat e2, ef_account e2) = (pl_class ?p, pl_seat ?p, ''checking'')"
      "cents_even (ef_amount e1) = - rs_transfer r" "cents_even (ef_amount e2) = rs_transfer r"
      by (metis cents_even_of_cents)
    then show ?thesis by auto
  qed
  obtain extra where es: "es = legs @ (if pl_debit ?p \<noteq> 0 then [principal_effect ?p] else []) @ extra"
    and extra: "extra = [] \<and> rs_fee r = 0 \<or> (\<exists>actor. extra = [fee_effect ?p actor (rs_fee r)])"
    using assms(1) legs by (auto simp: plan_effects_def Let_def rbind_eq_Inr split: if_splits option.splits)
  have e2: "?sum (if pl_debit ?p \<noteq> 0 then [principal_effect ?p] else []) =
      (if sc = (pl_class ?p, pl_seat ?p, pl_source ?p) then - pl_debit ?p else 0)"
    by (simp add: principal_effect_def plan_effect_def)
  have e3: "?sum extra = (if sc = (pl_class ?p, pl_seat ?p, ''checking'') then - rs_fee r else 0)"
    using extra by (auto simp: fee_effect_def plan_effect_def)
  have "?sum es = ?sum legs + ?sum (if pl_debit ?p \<noteq> 0 then [principal_effect ?p] else []) + ?sum extra"
    unfolding es by simp
  then show ?thesis
    unfolding legsum e2 e3 using assms(2) by (auto simp: account_known_def)
qed

lemma plan_effects_nonempty:
  assumes "plan_effects f r = Inr (es, i, j)" "rs_transfer r \<noteq> 0 \<or> pl_debit (rs_plan r) \<noteq> 0 \<or> rs_fee r \<noteq> 0"
  shows "es \<noteq> []"
proof (cases "rs_transfer r = 0")
  case True
  with assms show ?thesis by (auto simp: plan_effects_def Let_def split: option.splits if_splits)
next
  case False
  with assms(1) show ?thesis
    by (auto simp: plan_effects_def build_transfer_effect_pair_def Let_def rbind_eq_Inr split: if_splits option.splits)
qed

text \<open>The ways an application with effects succeeds.\<close>

lemma apply_plan_created:
  assumes "apply_resolved_ledger_plan digest funding_locator race race2 ctx now r key st = Inr (res, st')"
    and "pr_created res = Some True"
  obtains es i j rv where "plan_effects (funding_locator (pl_class (rs_plan r)) (fc_name ctx) key) r = Inr (es, i, j)" "es \<noteq> []"
    "get_available_balances (race st) (pl_seat (rs_plan r)) (pl_class (rs_plan r)) = Inr (rs_checking_before r, rs_savings_before r)"
    "find_reservation (race2 (race st)) (rv_class rv) (rv_feat rv) (rv_key rv) = None"
    "rv_id rv = next_rv_id (race2 (race st))"
    "post_effects ctx now (Some rv) es ((race2 (race st))\<lparr>reservations := reservations (race2 (race st)) @ [rv]\<rparr>) = Inr (pr_effects res, st')"
    "rv_class rv = pl_class (rs_plan r)" "rv_feat rv = str_or (fc_name ctx) []" "rv_key rv = key" "rv_version rv = fingerprint_version"
    "\<exists>fp. replay_fingerprint es fingerprint_version (pl_intent (rs_plan r)) = Inr fp \<and> rv_fingerprint rv = digest fp"
    "lock_recovery_scope (pl_class (rs_plan r)) (pl_seat (rs_plan r)) (race st) = Inr ()"
proof -
  let ?feat = "str_or (fc_name ctx) []" and ?p = "rs_plan r"
  from assms obtain es i j where es: "plan_effects (funding_locator (pl_class ?p) (fc_name ctx) key) r = Inr (es, i, j)" "es \<noteq> []"
    by (auto simp: apply_resolved_ledger_plan_def Let_def rbind_eq_Inr split: if_splits)
  note def = assms(1) [unfolded apply_resolved_ledger_plan_def Let_def es rbind_Inr prod.case]
  from def es(2) obtain st1 where st1: "(if find_reservation st (pl_class ?p) ?feat key \<noteq> None then Inr st
      else rbind (lock_recovery_scope (pl_class ?p) (pl_seat ?p) (race st)) (\<lambda>_.
        rbind (get_available_balances (race st) (pl_seat ?p) (pl_class ?p)) (\<lambda>(checking, savings).
          if checking \<noteq> rs_checking_before r \<or> savings \<noteq> rs_savings_before r
          then Inl (ValueErr ''PREVIEW_CHANGED'') else Inr (race st)))) = Inr st1"
    and run: "create_reserved_effects digest race2 ctx now (pl_class ?p) ?feat key es (pl_intent ?p) st1 = Inr (pr_effects res, True, st')"
    using assms(2) by (auto simp: rbind_eq_Inr)
  from run st1 show thesis
  proof (cases rule: create_reserved_effects_cases)
    case (fresh fp rv)
    from fresh(1) st1 have "st1 = race st" and
      "get_available_balances (race st) (pl_seat ?p) (pl_class ?p) = Inr (rs_checking_before r, rs_savings_before r)"
      "lock_recovery_scope (pl_class ?p) (pl_seat ?p) (race st) = Inr ()"
      by (auto simp: rbind_eq_Inr split: if_splits)
    note b = this
    show thesis by (rule that [OF es b(2), of rv]) (use fresh b(1,3) in auto)
  qed auto
qed

lemma balances_total:
  assumes "ledger_ok st" "get_available_balances st s c = Inr (ck, sv)"
  shows "ck = scope_total st (c, s, ''checking'')" "sv = scope_total st (c, s, ''savings'')" "s \<noteq> 0" "c \<noteq> []"
  using assms(2) available_is_total [OF ledger_ok_core [OF assms(1)]]
  by (auto simp: get_available_balances_def require_balance_scope_def res_simps)

lemma balances_of_total:
  assumes "ledger_ok st" "s \<noteq> 0" "c \<noteq> []"
  shows "get_available_balances st s c = Inr (scope_total st (c, s, ''checking''), scope_total st (c, s, ''savings''))"
  using assms(2,3) available_is_total [OF ledger_ok_core [OF assms(1)]]
  by (simp add: get_available_balances_def require_balance_scope_def account_known_def)

lemma resolve_after:
  assumes "resolve_intended_ledger_plan p d authority force st0 = Inr r" "account_known (pl_source p)"
  shows "rs_plan r = p"
    "rs_checking_after r = rs_checking_before r + (rs_transfer r - (if pl_source p = ''checking'' then pl_debit p else 0) - rs_fee r)"
    "rs_savings_after r = rs_savings_before r + (- rs_transfer r - (if pl_source p = ''savings'' then pl_debit p else 0))"
proof -
  have "rs_plan r = p \<and> rs_checking_after r = rs_checking_before r + (rs_transfer r - (if pl_source p = ''checking'' then pl_debit p else 0) - rs_fee r)
    \<and> rs_savings_after r = rs_savings_before r + (- rs_transfer r - (if pl_source p = ''savings'' then pl_debit p else 0))"
    using assms(1)
  proof (cases rule: resolve_cases)
    case (from_checking ck sv fee)
    with assms(2) show ?thesis by (auto simp: account_known_def checking_plan_def Let_def)
  qed (simp add: savings_plan_def)
  then show "rs_plan r = p"
    "rs_checking_after r = rs_checking_before r + (rs_transfer r - (if pl_source p = ''checking'' then pl_debit p else 0) - rs_fee r)"
    "rs_savings_after r = rs_savings_before r + (- rs_transfer r - (if pl_source p = ''savings'' then pl_debit p else 0))"
    by auto
qed

text \<open>What a first application leaves: a lawful ledger that extends the old one, the previewed change, its rows under its reservation.\<close>

lemma applied_plan_totals:
  assumes "resolve_intended_ledger_plan p d authority force st0 = Inr r" "account_known (pl_source p)"
    and "apply_resolved_ledger_plan digest funding_locator race race2 ctx now r key st = Inr (res, st')"
    and "pr_created res = Some True" "ledger_ok (race st)" "ledger_ok (race2 (race st))"
  shows "ledger_ok st'" "extends (race2 (race st)) st'" "txs st' = txs (race2 (race st)) @ pr_effects res"
    "get_available_balances (race st) (pl_seat p) (pl_class p) = Inr (rs_checking_before r, rs_savings_before r)"
    "scope_total st' sc = scope_total (race2 (race st)) sc
      + (if sc = (pl_class p, pl_seat p, ''checking'') then rs_transfer r - (if pl_source p = ''checking'' then pl_debit p else 0) - rs_fee r else 0)
      + (if sc = (pl_class p, pl_seat p, ''savings'') then - rs_transfer r - (if pl_source p = ''savings'' then pl_debit p else 0) else 0)"
proof -
  note after = resolve_after [OF assms(1,2)]
  from apply_plan_created [OF assms(3,4)] obtain es i j rv where a:
    "plan_effects (funding_locator (pl_class p) (fc_name ctx) key) r = Inr (es, i, j)" "es \<noteq> []"
    "get_available_balances (race st) (pl_seat p) (pl_class p) = Inr (rs_checking_before r, rs_savings_before r)"
    "find_reservation (race2 (race st)) (rv_class rv) (rv_feat rv) (rv_key rv) = None"
    "rv_id rv = next_rv_id (race2 (race st))"
    "post_effects ctx now (Some rv) es ((race2 (race st))\<lparr>reservations := reservations (race2 (race st)) @ [rv]\<rparr>) = Inr (pr_effects res, st')"
    unfolding after(1) by metis
  note rap = reserve_and_post [OF a(6) assms(6) a(4,5,2)]
  from rap show "ledger_ok st'" "extends (race2 (race st)) st'" "txs st' = txs (race2 (race st)) @ pr_effects res" by auto
  show "get_available_balances (race st) (pl_seat p) (pl_class p) = Inr (rs_checking_before r, rs_savings_before r)" by (rule a(3))
  show "scope_total st' sc = scope_total (race2 (race st)) sc
      + (if sc = (pl_class p, pl_seat p, ''checking'') then rs_transfer r - (if pl_source p = ''checking'' then pl_debit p else 0) - rs_fee r else 0)
      + (if sc = (pl_class p, pl_seat p, ''savings'') then - rs_transfer r - (if pl_source p = ''savings'' then pl_debit p else 0) else 0)"
    using post_effects_total [OF a(6), of sc] plan_effects_total [OF a(1), of sc] assms(2)
    by (simp add: after(1) scope_total_def del: if_split)
qed

text \<open>
  C29. Applying a resolved plan for the first time lands exactly on the balances the plan previewed, and
  changes no other account: funding legs, principal and fee are one reservation, and a plan whose previewed
  balances no longer hold under the scope lock is refused. Concurrent commits may change anything but this
  seat's totals between the lock and the flush.
\<close>

theorem applied_plan_lands_on_preview:
  assumes "resolve_intended_ledger_plan p d authority force st0 = Inr r" "account_known (pl_source p)"
    and "apply_resolved_ledger_plan digest funding_locator race race2 ctx now r key st = Inr (res, st')"
    and "pr_created res = Some True" "ledger_ok (race st)" "ledger_ok (race2 (race st))"
    and "\<And>a. scope_total (race2 (race st)) (pl_class p, pl_seat p, a) = scope_total (race st) (pl_class p, pl_seat p, a)"
  shows "get_available_balances st' (pl_seat p) (pl_class p) = Inr (rs_checking_after r, rs_savings_after r)
    \<and> (\<forall>s c a. (c, s) \<noteq> (pl_class p, pl_seat p) \<longrightarrow>
        available_balance_expression st' s c a = available_balance_expression (race2 (race st)) s c a)"
proof -
  note after = resolve_after [OF assms(1,2)] and left = applied_plan_totals [OF assms(1-6)]
  note b = balances_total [OF assms(5) left(4)]
  have "get_available_balances st' (pl_seat p) (pl_class p) = Inr (rs_checking_after r, rs_savings_after r)"
    unfolding balances_of_total [OF left(1) b(3,4)] left(5) assms(7) after(2,3) b(1,2) by simp
  moreover have "available_balance_expression st' s c x = available_balance_expression (race2 (race st)) s c x"
    if "(c, s) \<noteq> (pl_class p, pl_seat p)" for s c x
    using that left(5) [of "(c, s, x)"] available_is_total [OF ledger_ok_core [OF left(1)]] available_is_total [OF ledger_ok_core [OF assms(6)]]
    by auto
  ultimately show ?thesis by blast
qed

definition penalty_ctx :: feat_ctx where
  "penalty_ctx = \<lparr>fc_name = Some ''FEAT-LED-006'', fc_correlation = ''corr-2'', fc_key = None\<rparr>"

lemma applied_plan_lands_on_preview_witness:
  "\<exists>res st'. apply_resolved_ledger_plan (\<lambda>x. x) (\<lambda>c f k. ''corr_funding'') (\<lambda>st. st) (\<lambda>st. st) penalty_ctx 9
      (checking_plan (penalty_plan ''A'' 300 ''late'' 2 1) example_directive ''NONE'' 0 500 0) ''p1'' bank1 = Inr (res, st')
    \<and> get_available_balances st' 1 ''A'' = Inr (0, 200)"
proof -
  let ?p = "penalty_plan ''A'' 300 ''late'' 2 1" and ?r = "checking_plan (penalty_plan ''A'' 300 ''late'' 2 1) example_directive ''NONE'' 0 500 0"
  let ?run = "apply_resolved_ledger_plan (\<lambda>x. x) (\<lambda>c f k. ''corr_funding'') (\<lambda>st. st) (\<lambda>st. st) penalty_ctx 9 ?r ''p1'' bank1"
  have ok: "ledger_ok bank1"
  proof -
    obtain w d where "execute_account_transfer (\<lambda>x. x) (\<lambda>st. st) bank_ctx 8 1 ''A'' 5 ''checking'' ''savings'' bank0 = Inr (w, d, bank1)"
      using bank1_created by (auto simp: bank_transfer_def)
    from fresh_transfer_rows(1) [OF this bank0_ok bank_key_free] show ?thesis .
  qed
  have "get_available_balances bank1 1 ''A'' = Inr (0, 500)" by code_simp
  then have res: "resolve_intended_ledger_plan ?p example_directive ''NONE'' False bank1 = Inr ?r"
    by (simp add: resolve_intended_ledger_plan_def charge_fee_def penalty_plan_def example_directive_def Let_def)
  have "case ?run of Inr (res, st') \<Rightarrow> pr_created res = Some True | Inl e \<Rightarrow> False" by code_simp
  then obtain res st' where run: "?run = Inr (res, st')" "pr_created res = Some True" by (auto split: sum.splits)
  have "account_known (pl_source ?p)" by code_simp
  from applied_plan_lands_on_preview [OF res this run ok ok] run(1) show ?thesis
    by (auto simp: checking_plan_def penalty_plan_def example_directive_def Let_def)
qed

text \<open>
  C30. A preview that no longer holds is refused: if either available balance differs under the scope lock
  from what the plan was resolved against, an application that is not a replay and would post anything
  raises and posts nothing.
\<close>

theorem stale_preview_is_refused:
  assumes "get_available_balances (race st) (pl_seat (rs_plan r)) (pl_class (rs_plan r)) = Inr (ck, sv)"
    and "ck \<noteq> rs_checking_before r \<or> sv \<noteq> rs_savings_before r"
    and "find_reservation st (pl_class (rs_plan r)) (str_or (fc_name ctx) []) key = None" "rs_transfer r \<noteq> 0 \<or> pl_debit (rs_plan r) \<noteq> 0 \<or> rs_fee r \<noteq> 0"
  shows "isl (apply_resolved_ledger_plan digest funding_locator race race2 ctx now r key st)"
proof -
  from assms(1,2,3) plan_effects_nonempty [OF _ assms(4)]
  have "\<not> (\<exists>x. apply_resolved_ledger_plan digest funding_locator race race2 ctx now r key st = Inr x)"
    by (auto simp: apply_resolved_ledger_plan_def Let_def rbind_eq_Inr split: if_splits)
  then show ?thesis
    by (cases "apply_resolved_ledger_plan digest funding_locator race race2 ctx now r key st") auto
qed

lemma stale_preview_is_refused_witness:
  "isl (apply_resolved_ledger_plan (\<lambda>x. x) (\<lambda>c f k. ''corr_funding'') (\<lambda>st. st) (\<lambda>st. st) penalty_ctx 9
      (checking_plan (penalty_plan ''A'' 300 ''late'' 2 1) example_directive ''NONE'' 500 0 0) ''p1'' bank1)"
proof (rule stale_preview_is_refused)
  show "get_available_balances bank1 (pl_seat (rs_plan (checking_plan (penalty_plan ''A'' 300 ''late'' 2 1) example_directive ''NONE'' 500 0 0)))
      (pl_class (rs_plan (checking_plan (penalty_plan ''A'' 300 ''late'' 2 1) example_directive ''NONE'' 500 0 0))) = Inr (0, 500)" by code_simp
qed code_simp+

section \<open>A charge rebuilt from its rows\<close>

lemma post_effect_fields:
  assumes "post_effect ctx now rv e st = Inr (t, st')" "4 \<le> v"
  shows "effect_fields v (effect_of_tx t) = effect_fields v e"
proof -
  have "tx_seat t = ef_seat e" "tx_target t = ef_target e" "tx_actor t = ef_actor e" "tx_mechanism t = ef_mechanism e"
    "tx_cents t = cents_even (ef_amount e)" "tx_account t = ef_account e" "tx_type t = ef_type e" "tx_original t = ef_original e"
    "tx_policy t = ef_policy e" "tx_comp_origin t = ef_comp_origin e" "tx_comp_cents t = ef_comp_cents e"
    "tx_intent t = ef_intent e" "tx_subtype t = ef_subtype e"
    using assms(1) by (auto simp: post_effect_def Let_def res_simps split: option.splits)
  then show ?thesis using assms(2) by (simp add: effect_fields_def effect_of_tx_def cong: if_cong)
qed

lemma post_effects_fields:
  "post_effects ctx now rv es st = Inr (ts, st') \<Longrightarrow> 4 \<le> v \<Longrightarrow> map (effect_fields v \<circ> effect_of_tx) ts = map (effect_fields v) es"
proof (induction es arbitrary: st ts)
  case (Cons e es)
  then obtain t st1 ts1 where s: "post_effect ctx now rv e st = Inr (t, st1)"
    "post_effects ctx now rv es st1 = Inr (ts1, st')" "ts = t # ts1" by (auto simp: res_simps)
  with Cons.IH [OF s(2) Cons.prems(2)] post_effect_fields [OF s(1) Cons.prems(2)] show ?case by simp
qed simp

lemma rmapM_cong_map: "map f xs = map g ys \<Longrightarrow> rmapM f xs = rmapM g ys"
  by (induction xs arbitrary: ys) auto

text \<open>The fingerprint of the rows of a command is the fingerprint it was accepted under.\<close>

lemma replay_fingerprint_rows:
  assumes "map (effect_fields fingerprint_version \<circ> effect_of_tx) ts = map (effect_fields fingerprint_version) es"
  shows "replay_fingerprint (map effect_of_tx ts) fingerprint_version intent = replay_fingerprint es fingerprint_version intent"
proof -
  have m: "rmapM (effect_fields fingerprint_version) (map effect_of_tx ts) = rmapM (effect_fields fingerprint_version) es"
    by (rule rmapM_cong_map) (use assms in simp)
  have "length ts = length es" using map_eq_imp_length_eq [OF assms] .
  then show ?thesis
    using m by (auto simp: replay_fingerprint_def fingerprint_version_def split: list.splits)
qed

lemma find_reservation_before:
  assumes "extends st st'" "find_reservation st' c feat key = None"
  shows "find_reservation st c feat key = None"
proof -
  obtain rs where rs: "reservations st' = reservations st @ rs" using assms(1) by (auto simp: extends_def)
  show ?thesis
    using assms(2) find_reservation_append [OF _ rs] by (cases "find_reservation st c feat key") auto
qed

lemma apply_plan_first:
  assumes "apply_resolved_ledger_plan digest funding_locator race race2 ctx now r key st = Inr (res, st')"
    and "rs_transfer r \<noteq> 0 \<or> pl_debit (rs_plan r) \<noteq> 0 \<or> rs_fee r \<noteq> 0"
    and "find_reservation st (pl_class (rs_plan r)) (str_or (fc_name ctx) []) key = None"
    and "find_reservation (race2 (race st)) (pl_class (rs_plan r)) (str_or (fc_name ctx) []) key = None"
    and "extends (race st) (race2 (race st))"
  shows "pr_created res = Some True"
proof -
  from assms(1) obtain es i j where p: "plan_effects (funding_locator (pl_class (rs_plan r)) (fc_name ctx) key) r = Inr (es, i, j)"
    by (auto simp: apply_resolved_ledger_plan_def Let_def rbind_eq_Inr split: if_splits)
  note def = assms(1) [unfolded apply_resolved_ledger_plan_def Let_def p rbind_Inr prod.case]
  from def plan_effects_nonempty [OF p assms(2)] assms(3) obtain created where c: "pr_created res = Some created"
    "\<exists>rows. create_reserved_effects digest race2 ctx now (pl_class (rs_plan r)) (str_or (fc_name ctx) []) key es
      (pl_intent (rs_plan r)) (race st) = Inr (rows, created, st')"
    by (auto simp: rbind_eq_Inr split: if_splits)
  from c(2) obtain rows where c3: "create_reserved_effects digest race2 ctx now (pl_class (rs_plan r)) (str_or (fc_name ctx) []) key es
      (pl_intent (rs_plan r)) (race st) = Inr (rows, created, st')" by blast
  from c3 have created
    using find_reservation_before [OF assms(5,4)] assms(4) by (cases rule: create_reserved_effects_cases) auto
  with c(1) show ?thesis by simp
qed

section \<open>Replaying a charge\<close>

lemma post_effects_values:
  "post_effects ctx now rv es st = Inr (ts, st') \<Longrightarrow> list_all2 (\<lambda>e t. tx_type t = ef_type e \<and> tx_actor t = ef_actor e
     \<and> tx_seat t = ef_seat e \<and> tx_account t = ef_account e \<and> tx_cents t = cents_even (ef_amount e)) es ts"
proof (induction es arbitrary: st ts)
  case (Cons e es)
  then obtain t st1 ts1 where s: "post_effect ctx now rv e st = Inr (t, st1)"
    "post_effects ctx now rv es st1 = Inr (ts1, st')" "ts = t # ts1" by (auto simp: res_simps)
  have "tx_type t = ef_type e \<and> tx_actor t = ef_actor e \<and> tx_seat t = ef_seat e \<and> tx_account t = ef_account e
      \<and> tx_cents t = cents_even (ef_amount e)"
    using s(1) by (auto simp: post_effect_def Let_def res_simps split: option.splits)
  with Cons.IH [OF s(2)] s(3) show ?case by simp
qed simp

text \<open>The principal is the row that takes the debit from the payer.\<close>

lemma applied_principal:
  assumes "apply_resolved_ledger_plan digest funding_locator race race2 ctx now r key st = Inr (res, st')"
    and "pr_created res = Some True" "pl_debit (rs_plan r) \<noteq> 0" "rs_fee r = 0"
  obtains t where "pr_principal res = Some t" "t \<in> set (pr_effects res)" "tx_cents t = - pl_debit (rs_plan r)"
    "tx_type t = pl_type (rs_plan r)" "tx_seat t = pl_seat (rs_plan r)" "tx_actor t = pl_actor (rs_plan r)"
    "tx_account t = pl_source (rs_plan r)"
proof -
  let ?p = "rs_plan r"
  from apply_plan_created [OF assms(1,2)] obtain es i j rv where a:
    "plan_effects (funding_locator (pl_class ?p) (fc_name ctx) key) r = Inr (es, i, j)" "es \<noteq> []"
    "post_effects ctx now (Some rv) es ((race2 (race st))\<lparr>reservations := reservations (race2 (race st)) @ [rv]\<rparr>) = Inr (pr_effects res, st')"
    by metis
  obtain legs where legs: "es = legs @ [principal_effect ?p]" "i = Some (length legs)"
    using a(1) assms(3,4) by (auto simp: plan_effects_def Let_def rbind_eq_Inr split: if_splits)
  have pt: "at_optional (pr_effects res) i = Inr (pr_principal res)"
    using assms(1) a(1,2) by (auto simp: apply_resolved_ledger_plan_def Let_def rbind_eq_Inr split: if_splits)
  have len: "length legs < length (pr_effects res)" using post_effects_shape(2) [OF a(3)] legs(1) by simp
  have v: "list_all2 (\<lambda>e t. tx_type t = ef_type e \<and> tx_actor t = ef_actor e \<and> tx_seat t = ef_seat e
      \<and> tx_account t = ef_account e \<and> tx_cents t = cents_even (ef_amount e)) es (pr_effects res)"
    using post_effects_values [OF a(3)] .
  have "pr_principal res = Some (pr_effects res ! length legs)" using pt len legs(2) by (simp add: at_optional_def at_index_def)
  moreover from list_all2_nthD2 [OF v len] have "tx_type (pr_effects res ! length legs) = pl_type ?p \<and> tx_cents (pr_effects res ! length legs) = - pl_debit ?p
      \<and> tx_seat (pr_effects res ! length legs) = pl_seat ?p \<and> tx_actor (pr_effects res ! length legs) = pl_actor ?p
      \<and> tx_account (pr_effects res ! length legs) = pl_source ?p"
    by (simp add: legs(1) principal_effect_def plan_effect_def)
  ultimately show thesis using that len nth_mem by blast
qed

lemma effect_of_same: "same_effect t u \<Longrightarrow> effect_of_tx u = effect_of_tx t"
  by (cases t; cases u) (simp add: same_effect_def effect_of_tx_def)

lemma type_of_same: "same_effect t u \<Longrightarrow> tx_type u = tx_type t"
  by (cases t; cases u) (simp add: same_effect_def)

lemma candidates_same:
  "list_all2 same_effect ts us \<Longrightarrow> list_all2 same_effect
     (filter (\<lambda>t. tx_type t = ty \<and> tx_cents t < 0 \<and> tx_account t = a) ts)
     (filter (\<lambda>t. tx_type t = ty \<and> tx_cents t < 0 \<and> tx_account t = a) us)"
  by (induction rule: list_all2_induct) (auto simp: same_effectD type_of_same)

text \<open>What a charge replayed once, it replays with the same principal in every later ledger.\<close>

lemma replay_charge_later:
  assumes "replay_reserved_charge digest c feat key seat actor ty intent st = Inr (Some (t, rows))" "ledger_later st st2"
  shows "\<exists>t2 rows2. replay_reserved_charge digest c feat key seat actor ty intent st2 = Inr (Some (t2, rows2)) \<and> same_effect t t2"
proof -
  from assms(1) obtain r where r: "find_reservation st c feat key = Some r"
    by (auto simp: replay_reserved_charge_def split: option.splits)
  let ?cand = "filter (\<lambda>t. tx_type t = ty \<and> tx_cents t < 0 \<and> tx_account t = ''checking'')"
  have cand: "?cand (reserved_txs st (rv_id r)) = [t]" "tx_seat t = seat" "tx_actor t = actor"
    "assert_replay_matches digest r (map effect_of_tx (reserved_txs st (rv_id r))) intent = Inr ()"
    using assms(1) r by (auto simp: replay_reserved_charge_def Let_def rbind_eq_Inr split: list.splits if_splits)
  obtain rs where "reservations st2 = reservations st @ rs" using assms(2) by (auto simp: ledger_later_def extends_def)
  note r2 = find_reservation_append [OF r this]
  have same: "list_all2 same_effect (reserved_txs st (rv_id r)) (reserved_txs st2 (rv_id r))"
    using reserved_txs_extends find_reservation_Some(1) [OF r] assms(2) by (auto simp: ledger_later_def ledger_ok_def)
  have "list_all2 same_effect [t] (?cand (reserved_txs st2 (rv_id r)))"
    using candidates_same [OF same, of ty "''checking''"] cand(1) by simp
  then obtain t2 where t2: "?cand (reserved_txs st2 (rv_id r)) = [t2]" "same_effect t t2" by (auto simp: list_all2_Cons1)
  have "map effect_of_tx (reserved_txs st2 (rv_id r)) = map effect_of_tx (reserved_txs st (rv_id r))"
    using same by (induction rule: list_all2_induct) (auto simp: effect_of_same)
  then show ?thesis
    using r2 t2 cand by (simp add: replay_reserved_charge_def Let_def same_effectD)
qed

text \<open>The legs of a plan are no fee candidates; its fee is the one.\<close>

lemma fee_candidate:
  assumes "plan_effects f r = Inr (es, i, j)" "pl_debit (rs_plan r) = 0" "0 < rs_fee r" "pl_fee_actor (rs_plan r) = Some actor"
    and "post_effects ctx now rv es st = Inr (ts, st')"
  shows "\<exists>t. filter (\<lambda>t. tx_type t = ''overdraft_fee'' \<and> tx_cents t < 0 \<and> tx_account t = ''checking'') ts = [t]
    \<and> tx_cents t = - rs_fee r \<and> tx_seat t = pl_seat (rs_plan r) \<and> tx_actor t = actor"
proof -
  from assms(1-4) obtain legs where es: "es = legs @ [fee_effect (rs_plan r) actor (rs_fee r)]"
    and legs: "\<forall>e \<in> set legs. ef_type e \<noteq> ''overdraft_fee''"
    by (auto simp: plan_effects_def build_transfer_effect_pair_def Let_def rbind_eq_Inr split: if_splits)
  from post_effects_values [OF assms(5)] obtain ls t where ts: "ts = ls @ [t]"
    "list_all2 (\<lambda>e t. tx_type t = ef_type e \<and> tx_actor t = ef_actor e \<and> tx_seat t = ef_seat e \<and> tx_account t = ef_account e
       \<and> tx_cents t = cents_even (ef_amount e)) legs ls"
    "tx_type t = ''overdraft_fee''" "tx_actor t = actor" "tx_seat t = pl_seat (rs_plan r)" "tx_account t = ''checking''"
    "tx_cents t = - rs_fee r"
    unfolding es by (auto simp: list_all2_append1 list_all2_Cons1 fee_effect_def plan_effect_def)
  have "\<forall>t \<in> set ls. tx_type t \<noteq> ''overdraft_fee''"
    using ts(2) legs by (auto simp: list_all2_conv_all_nth in_set_conv_nth) (metis nth_mem)
  then have "filter (\<lambda>t. tx_type t = ''overdraft_fee'' \<and> tx_cents t < 0 \<and> tx_account t = ''checking'') ls = []"
    by (auto simp: filter_empty_conv)
  with ts(3-7) assms(3) show ?thesis by (simp add: ts(1))
qed

lemma ledger_later_trans: "ledger_later st st1 \<Longrightarrow> ledger_later st1 st2 \<Longrightarrow> ledger_later st st2"
  using extends_trans [of st st1 st2] by (simp add: ledger_later_def)

lemma fee_first_replays:
  assumes "resolve_intended_ledger_plan (fee_plan c seat actor force) d ''EXPLICIT_FEE'' force st = Inr r" "rs_fee r \<noteq> 0"
    and "apply_resolved_ledger_plan digest funding_locator race race2 ctx now r key st = Inr (res, st')"
    and "ledger_later st (race st)" "ledger_later (race st) (race2 (race st))"
    and "find_reservation st c (str_or (fc_name ctx) []) key = None"
    and "find_reservation (race2 (race st)) c (str_or (fc_name ctx) []) key = None"
  shows "\<exists>t rows. replay_reserved_charge digest c (str_or (fc_name ctx) []) key seat actor ''overdraft_fee''
      (pl_intent (fee_plan c seat actor force)) st' = Inr (Some (t, rows)) \<and> tx_cents t = - rs_fee r"
    "ledger_later st st'"
proof -
  let ?p = "fee_plan c seat actor force"
  have p: "pl_source ?p = ''checking''" "pl_debit ?p = 0" "pl_class ?p = c" "pl_seat ?p = seat" "pl_fee_actor ?p = Some actor"
    by (simp_all add: fee_plan_def)
  have rplan: "rs_plan r = ?p" by (rule resolve_after(1) [OF assms(1)]) (simp add: p account_known_def)
  have pos: "0 < rs_fee r"
    using resolved_fee_nonneg [OF assms(1)] assms(2) by simp
  have created: "pr_created res = Some True"
    by (rule apply_plan_first [OF assms(3) disjI2 [OF disjI2 [OF assms(2)]]]) (use assms(5-7) rplan p in \<open>auto simp: ledger_later_def\<close>)
  from apply_plan_created [OF assms(3) created] obtain es i j rv where a:
    "plan_effects (funding_locator c (fc_name ctx) key) r = Inr (es, i, j)" "es \<noteq> []"
    "find_reservation (race2 (race st)) (rv_class rv) (rv_feat rv) (rv_key rv) = None"
    "rv_id rv = next_rv_id (race2 (race st))"
    "post_effects ctx now (Some rv) es ((race2 (race st))\<lparr>reservations := reservations (race2 (race st)) @ [rv]\<rparr>) = Inr (pr_effects res, st')"
    "rv_class rv = c" "rv_feat rv = str_or (fc_name ctx) []" "rv_key rv = key" "rv_version rv = fingerprint_version"
    "\<exists>fp. replay_fingerprint es fingerprint_version (pl_intent ?p) = Inr fp \<and> rv_fingerprint rv = digest fp"
    unfolding rplan p by metis
  have ok2: "ledger_ok (race2 (race st))" using assms(5) by (simp add: ledger_later_def)
  note rap = reserve_and_post [OF a(5) ok2 a(3,4,2)]
  from fee_candidate [OF a(1) _ pos _ a(5)] obtain t where t:
    "filter (\<lambda>t. tx_type t = ''overdraft_fee'' \<and> tx_cents t < 0 \<and> tx_account t = ''checking'') (pr_effects res) = [t]"
    "tx_cents t = - rs_fee r" "tx_seat t = seat" "tx_actor t = actor"
    by (auto simp: rplan p)
  have "map (effect_fields fingerprint_version \<circ> effect_of_tx) (pr_effects res) = map (effect_fields fingerprint_version) es"
    by (rule post_effects_fields [OF a(5)]) (simp add: fingerprint_version_def)
  note fp = replay_fingerprint_rows [OF this, of "pl_intent ?p"]
  have "assert_replay_matches digest rv (map effect_of_tx (pr_effects res)) (pl_intent ?p) = Inr ()"
    using a(9,10) fp by (auto simp: assert_replay_matches_def fingerprint_matches_reservation_def supported_version_def fingerprint_version_def)
  with t rap(3,4) a(6-8) show "\<exists>t rows. replay_reserved_charge digest c (str_or (fc_name ctx) []) key seat actor ''overdraft_fee''
      (pl_intent ?p) st' = Inr (Some (t, rows)) \<and> tx_cents t = - rs_fee r"
    by (simp add: replay_reserved_charge_def Let_def)
  show "ledger_later st st'"
    using ledger_later_trans [OF ledger_later_trans [OF assms(4,5)]] rap(1,2) ok2 by (simp add: ledger_later_def)
qed

text \<open>
  C33. An overdraft fee under a key is charged once: when the fee command succeeded with a fee, repeating
  it in any later ledger, with whatever balances, directive and clock, reports the same fee and leaves the
  ledger as it is. Concurrent commits extend the ledger; none of them took this key before the first one
  reserved it.
\<close>

theorem overdraft_fee_is_charged_once:
  assumes "apply_overdraft_fee_if_needed digest funding_locator race race2 ctx now c seat d actor force key st = Inr (accepted, fee, st1)"
    and "fee \<noteq> 0" "key \<noteq> []" "ledger_later st (race st)" "ledger_later (race st) (race2 (race st))"
    and "find_reservation st c (str_or (fc_name ctx) []) key = None \<Longrightarrow>
      find_reservation (race2 (race st)) c (str_or (fc_name ctx) []) key = None"
    and "ledger_run digest st1 st2" "fc_name ctx2 = fc_name ctx"
  shows "apply_overdraft_fee_if_needed digest funding_locator race3 race4 ctx2 now2 c seat d2 actor force key st2 = Inr (True, fee, st2)"
proof -
  let ?replay = "replay_reserved_charge digest c (str_or (fc_name ctx) []) key seat actor ''overdraft_fee'' (pl_intent (fee_plan c seat actor force))"
  have ok: "ledger_ok st" using assms(4) by (simp add: ledger_later_def)
  have lock: "lock_recovery_scope c seat st = Inr ()" and def: "rbind (?replay st) (\<lambda>prior. case prior of
       Some (t, rows) \<Rightarrow> Inr (True, \<bar>tx_cents t\<bar>, st)
     | None \<Rightarrow> rbind (build_intended_ledger_plan 0 (fee_plan c seat actor force)) (\<lambda>p.
         rbind (resolve_intended_ledger_plan p d ''EXPLICIT_FEE'' force st) (\<lambda>r.
         rbind (apply_resolved_ledger_plan digest funding_locator race race2 ctx now r key st) (\<lambda>(res, st').
           Inr (True, rs_fee r, st'))))) = Inr (accepted, fee, st1)"
    using assms(1,3) by (auto simp: apply_overdraft_fee_if_needed_def Let_def rbind_eq_Inr)
  have "(\<exists>t rows. ?replay st1 = Inr (Some (t, rows)) \<and> \<bar>tx_cents t\<bar> = fee) \<and> ledger_later st st1"
  proof (cases "\<exists>t rows. ?replay st = Inr (Some (t, rows))")
    case True
    with def ok show ?thesis by (auto simp: ledger_later_def)
  next
    case False
    have build: "build_intended_ledger_plan 0 (fee_plan c seat actor force) = Inr (fee_plan c seat actor force)"
      by (simp add: build_intended_ledger_plan_def fee_plan_def account_known_def cents_even_def)
    obtain prior where "?replay st = Inr prior" using def by (auto simp: rbind_eq_Inr)
    with False have none0: "?replay st = Inr None" by (cases prior) auto
    from def [unfolded none0 rbind_Inr option.case build] obtain r res where r:
      "resolve_intended_ledger_plan (fee_plan c seat actor force) d ''EXPLICIT_FEE'' force st = Inr r"
      "apply_resolved_ledger_plan digest funding_locator race race2 ctx now r key st = Inr (res, st1)" "rs_fee r = fee"
      by (auto simp: rbind_eq_Inr)
    from none0 have none: "find_reservation st c (str_or (fc_name ctx) []) key = None"
      by (auto simp: replay_reserved_charge_def Let_def rbind_eq_Inr split: option.splits list.splits if_splits)
    have "0 \<le> fee" using resolved_fee_nonneg [OF r(1)] r(3) by simp
    with fee_first_replays [OF r(1) _ r(2) assms(4,5) none assms(6) [OF none]] r(3) assms(2) show ?thesis by fastforce
  qed
  then obtain t rows where t: "?replay st1 = Inr (Some (t, rows))" "\<bar>tx_cents t\<bar> = fee" and l1: "ledger_later st st1" by blast
  have l2: "ledger_later st1 st2" using l1 run_ok_extends [OF assms(7)] by (simp add: ledger_later_def)
  from replay_charge_later [OF t(1) l2] obtain t2 rows2 where "?replay st2 = Inr (Some (t2, rows2))" "same_effect t t2" by blast
  moreover have "lock_recovery_scope c seat st2 = Inr ()"
    using lock l1 l2 by (auto simp: lock_recovery_scope_def ledger_later_def extends_def split: if_splits)
  ultimately show ?thesis
    using t(2) assms(3,8) by (simp add: apply_overdraft_fee_if_needed_def Let_def same_effectD)
qed

definition fee_ctx :: feat_ctx where
  "fee_ctx = \<lparr>fc_name = Some ''FEAT-STOR-001'', fc_correlation = ''corr-3'', fc_key = None\<rparr>"

definition charge_fee_twice :: "fprint ledger \<Rightarrow> led_error + (bool \<times> int \<times> fprint ledger)" where
  "charge_fee_twice = apply_overdraft_fee_if_needed (\<lambda>x. x) (\<lambda>c f k. ''corr_funding'') (\<lambda>st. st) (\<lambda>st. st) fee_ctx 9 ''A'' 1
     (example_directive\<lparr>bd_protection := False\<rparr>) 2 True ''fee-1''"

lemma overdraft_fee_is_charged_once_witness:
  "\<exists>st1. charge_fee_twice ledger1 = Inr (True, 200, st1) \<and> charge_fee_twice st1 = Inr (True, 200, st1)"
proof -
  have "case charge_fee_twice ledger1 of Inr (a, fee, st) \<Rightarrow> fee = 200 | Inl e \<Rightarrow> False" by code_simp
  then obtain a st1 where one: "charge_fee_twice ledger1 = Inr (a, 200, st1)" by (auto split: sum.splits)
  have "find_reservation ledger1 ''A'' (str_or (fc_name fee_ctx) []) ''fee-1'' = None" by code_simp
  moreover have "ledger_later ledger1 ledger1" using ledger1_ok by (simp add: ledger_later_def)
  ultimately have two: "charge_fee_twice st1 = Inr (True, 200, st1)"
    using overdraft_fee_is_charged_once [OF one [unfolded charge_fee_twice_def] _ _ _ _ _ run_refl refl]
    unfolding charge_fee_twice_def by simp
  have "a" using one by (auto simp: charge_fee_twice_def apply_overdraft_fee_if_needed_def Let_def rbind_eq_Inr split: option.splits prod.splits)
  with one two show ?thesis by auto
qed

text \<open>
  A class penalty resolves one plan per distinct seat, in ascending order, all for the same positive
  quantized amount and never with a fee; from savings it takes the whole shortfall or nothing.
\<close>

theorem penalties_resolve_each_seat_once:
  assumes "resolve_penalty_plans c seats amount reason actor d st = Inr rs"
  shows "map (\<lambda>r. pl_seat (rs_plan r)) rs = sorted_list_of_set (set seats)
    \<and> (\<forall>r \<in> set rs. pl_debit (rs_plan r) = cents_even amount \<and> 0 < cents_even amount \<and> rs_fee r = 0
        \<and> (rs_transfer r = 0 \<or> rs_transfer r = cents_even amount - rs_checking_before r)
        \<and> rs_checking_after r + rs_savings_after r = rs_checking_before r + rs_savings_before r - cents_even amount)"
proof -
  have pos: "0 < cents_even amount" and m: "list_all2 (\<lambda>seat r. rbind (build_intended_ledger_plan (of_cents (cents_even amount))
      (penalty_plan c (cents_even amount) reason actor seat)) (\<lambda>p. resolve_intended_ledger_plan p d ''NONE'' False st) = Inr r)
      (sorted_list_of_set (set seats)) rs"
    using assms by (auto simp: resolve_penalty_plans_def rmapM_Inr_iff split: if_splits)
  have one: "pl_seat (rs_plan r) = seat \<and> pl_debit (rs_plan r) = cents_even amount \<and> rs_fee r = 0
      \<and> (rs_transfer r = 0 \<or> rs_transfer r = cents_even amount - rs_checking_before r)
      \<and> rs_checking_after r + rs_savings_after r = rs_checking_before r + rs_savings_before r - cents_even amount"
    if "rbind (build_intended_ledger_plan (of_cents (cents_even amount)) (penalty_plan c (cents_even amount) reason actor seat))
        (\<lambda>p. resolve_intended_ledger_plan p d ''NONE'' False st) = Inr r" for seat r
  proof -
    let ?p = "penalty_plan c (cents_even amount) reason actor seat"
    have p: "build_intended_ledger_plan (of_cents (cents_even amount)) ?p = Inr ?p" "pl_source ?p = ''checking''"
      using pos by (auto simp: build_intended_ledger_plan_def penalty_plan_def account_known_def)
    with that have res: "resolve_intended_ledger_plan ?p d ''NONE'' False st = Inr r" by simp
    from res show ?thesis
    proof (cases rule: resolve_cases)
      case (from_checking ck sv fee)
      then have "fee = 0" using charge_fee_cases(2) by blast
      then show ?thesis
        by (auto simp: from_checking(4) checking_plan_def Let_def penalty_plan_def)
    qed (simp add: p)
  qed
  have "map (\<lambda>r. pl_seat (rs_plan r)) rs = sorted_list_of_set (set seats)"
    using m by (intro nth_equalityI) (auto simp: list_all2_conv_all_nth one)
  moreover have "\<forall>r \<in> set rs. \<exists>seat. rbind (build_intended_ledger_plan (of_cents (cents_even amount))
      (penalty_plan c (cents_even amount) reason actor seat)) (\<lambda>p. resolve_intended_ledger_plan p d ''NONE'' False st) = Inr r"
    using m by (fastforce simp: list_all2_conv_all_nth in_set_conv_nth)
  ultimately show ?thesis using one pos by blast
qed

lemma penalties_resolve_each_seat_once_witness:
  "\<exists>rs. resolve_penalty_plans ''A'' [2, 1, 2] 3 ''late'' 2 example_directive bank1 = Inr rs
    \<and> map (\<lambda>r. pl_seat (rs_plan r)) rs = [1, 2]"
proof -
  have "\<not> isl (resolve_penalty_plans ''A'' [2, 1, 2] 3 ''late'' 2 example_directive bank1)" by code_simp
  then obtain rs where rs: "resolve_penalty_plans ''A'' [2, 1, 2] 3 ''late'' 2 example_directive bank1 = Inr rs"
    by (cases "resolve_penalty_plans ''A'' [2, 1, 2] 3 ''late'' 2 example_directive bank1") auto
  have "sorted_list_of_set (set [2, 1, 2 :: nat]) = [1, 2]" by code_simp
  with penalties_resolve_each_seat_once [OF rs] rs show ?thesis by auto
qed

end
