(* ===== verification/Effective_Dating.thy ===== *)
theory Effective_Dating
  imports Calendar "HOL-Library.List_Lexorder" "HOL-Library.Char_ord" "HOL-Library.Product_Lexorder"
begin

text \<open>
  Append-only, effective-dated configuration: the version in force at an instant is the one with the
  greatest effective date at or before it, the latest saved breaking a tie. The interface
  \<open>effective_history\<close> states what a table of versions promises; it is interpreted on the payroll settings
  (\<^verbatim>\<open>app/services/payroll/settings.py\<close>) and on the Economic Engine versions
  (\<^verbatim>\<open>app/services/class_configuration_query_service.py\<close>), whose in-memory timeline is proved to answer
  as the query does.
\<close>

section \<open>Ordering\<close>

text \<open>\<^verbatim>\<open>order_by(... desc)\<close>, and \<^verbatim>\<open>first()\<close>.\<close>

definition newest_first :: "('r \<Rightarrow> 'k :: linorder) \<Rightarrow> 'r list \<Rightarrow> 'r list" where
  "newest_first key rows = rev (sort_key key rows)"

definition first_row :: "'r list \<Rightarrow> 'r option" where
  "first_row xs = (case xs of [] \<Rightarrow> None | x # _ \<Rightarrow> Some x)"

definition in_force :: "('r \<Rightarrow> 'k :: linorder) \<Rightarrow> ('r \<Rightarrow> int) \<Rightarrow> 'r list \<Rightarrow> int \<Rightarrow> 'r option" where
  "in_force key eff rows t = first_row (newest_first key (filter (\<lambda>r. eff r \<le> t) rows))"

lemma first_row_newest: "first_row (newest_first key rows) = (if rows = [] then None else Some (last (sort_key key rows)))"
proof (cases rows rule: rev_cases)
  case (snoc ys y)
  then have "sort_key key rows \<noteq> []" by (metis length_0_conv length_sort snoc_eq_iff_butlast)
  then show ?thesis
    using snoc by (cases "sort_key key rows" rule: rev_cases) (auto simp: first_row_def newest_first_def)
qed (simp add: first_row_def newest_first_def)

lemma last_sort_key:
  assumes "rows \<noteq> []"
  shows "last (sort_key key rows) \<in> set rows" "\<And>x. x \<in> set rows \<Longrightarrow> key x \<le> key (last (sort_key key rows))"
proof -
  have ne: "sort_key key rows \<noteq> []" using assms by (metis length_0_conv length_sort)
  then show "last (sort_key key rows) \<in> set rows" by (metis last_in_set set_sort)
  fix x assume "x \<in> set rows"
  then obtain i where i: "i < length (sort_key key rows)" "x = sort_key key rows ! i"
    by (metis in_set_conv_nth set_sort)
  have "sorted (map key (sort_key key rows))" by simp
  then have "map key (sort_key key rows) ! i \<le> map key (sort_key key rows) ! (length rows - 1)"
    using i(1) by (intro sorted_nth_mono) auto
  with i ne show "key x \<le> key (last (sort_key key rows))" by (simp add: last_conv_nth)
qed

lemma in_force_None: "in_force key eff rows t = None \<longleftrightarrow> (\<forall>r \<in> set rows. t < eff r)"
  by (auto simp: in_force_def first_row_newest filter_empty_conv not_le)

section \<open>The interface\<close>

locale effective_history =
  fixes key :: "'r \<Rightarrow> 'k :: linorder" and eff :: "'r \<Rightarrow> int"
  assumes later_effective_wins: "eff a < eff b \<Longrightarrow> key a < key b"
begin

lemma in_force_greatest:
  assumes "in_force key eff rows t = Some r"
  shows "r \<in> set rows" "eff r \<le> t" "\<And>x. x \<in> set rows \<Longrightarrow> eff x \<le> t \<Longrightarrow> key x \<le> key r \<and> eff x \<le> eff r"
proof -
  have ne: "filter (\<lambda>r. eff r \<le> t) rows \<noteq> []" and r: "r = last (sort_key key (filter (\<lambda>r. eff r \<le> t) rows))"
    using assms by (auto simp: in_force_def first_row_newest split: if_splits)
  from last_sort_key [OF ne, where key = key] show "r \<in> set rows" "eff r \<le> t" unfolding r by auto
  fix x assume "x \<in> set rows" "eff x \<le> t"
  then have k: "key x \<le> key r" using last_sort_key(2) [OF ne, where key = key and x = x] unfolding r by simp
  then show "key x \<le> key r \<and> eff x \<le> eff r" using later_effective_wins [of r x] by force
qed

lemma in_force_unique:
  assumes "inj_on key (set rows)" "r \<in> set rows" "eff r \<le> t"
    and "\<And>x. x \<in> set rows \<Longrightarrow> eff x \<le> t \<Longrightarrow> key x \<le> key r"
  shows "in_force key eff rows t = Some r"
proof -
  obtain r' where r': "in_force key eff rows t = Some r'"
    using assms(2,3) in_force_None [of key eff rows t] by (cases "in_force key eff rows t") auto
  have "key r \<le> key r'" "key r' \<le> key r"
    using in_force_greatest [OF r'] assms(2-4) by auto
  then have "r = r'" using assms(1,2) in_force_greatest(1) [OF r'] by (auto dest: inj_onD)
  with r' show ?thesis by simp
qed

text \<open>A version saved for later changes nothing before its effective date.\<close>

lemma append_changes_nothing_before:
  "t < eff r \<Longrightarrow> in_force key eff (rows @ [r]) t = in_force key eff rows t"
  by (simp add: in_force_def)

text \<open>Between two instants with no version becoming effective, the version in force is the same.\<close>

lemma in_force_constant:
  assumes "t \<le> t'" "\<And>r. r \<in> set rows \<Longrightarrow> \<not> (t < eff r \<and> eff r \<le> t')"
  shows "in_force key eff rows t' = in_force key eff rows t"
proof -
  have "filter (\<lambda>r. eff r \<le> t') rows = filter (\<lambda>r. eff r \<le> t) rows"
    using assms by (intro filter_cong) force+
  then show ?thesis by (simp add: in_force_def)
qed

text \<open>An appended version takes over at its effective date when it is the latest saved for that date.\<close>

lemma append_takes_over:
  assumes "inj_on key (set (rows @ [r]))" "\<And>x. x \<in> set rows \<Longrightarrow> eff x \<le> eff r \<Longrightarrow> key x \<le> key r"
  shows "in_force key eff (rows @ [r]) (eff r) = Some r"
  by (rule in_force_unique [OF assms(1)]) (use assms(2) in auto)

lemma sorted_effective: "sorted (map eff (sort_key key rows))"
proof -
  have "sorted (map key (sort_key key rows))" by simp
  then have "sorted_wrt (\<lambda>a b. key a \<le> key b) (sort_key key rows)" by (simp add: sorted_map)
  then have "sorted_wrt (\<lambda>a b. eff a \<le> eff b) (sort_key key rows)"
    by (rule sorted_wrt_mono_rel [rotated]) (metis later_effective_wins linorder_not_le)
  then show ?thesis by (simp add: sorted_map)
qed

lemma in_force_last:
  "in_force key eff rows t = (let older = takeWhile (\<lambda>r. eff r \<le> t) (sort_key key rows)
     in if older = [] then None else Some (last older))"
proof -
  have tw: "takeWhile P xs = filter P xs" if "sorted_wrt (\<lambda>a b. P b \<longrightarrow> P a) xs" for P and xs :: "'r list"
    using that by (induction xs) (auto simp: filter_empty_conv)
  have "sorted_wrt (\<lambda>a b. eff a \<le> eff b) (sort_key key rows)" using sorted_effective by (simp add: sorted_map)
  then have "sorted_wrt (\<lambda>a b. eff b \<le> t \<longrightarrow> eff a \<le> t) (sort_key key rows)"
    by (rule sorted_wrt_mono_rel [rotated]) auto
  then have "takeWhile (\<lambda>r. eff r \<le> t) (sort_key key rows) = sort_key key (filter (\<lambda>r. eff r \<le> t) rows)"
    using tw by (simp add: filter_sort)
  moreover have "sort_key key xs = [] \<longleftrightarrow> xs = []" for xs by (metis length_0_conv length_sort)
  ultimately show ?thesis by (simp add: in_force_def first_row_newest)
qed

end

section \<open>Bisection\<close>

text \<open>The standard library's \<^verbatim>\<open>bisect_right\<close>, and what it finds in a sorted list.\<close>

function bisect_right :: "int list \<Rightarrow> int \<Rightarrow> nat \<Rightarrow> nat \<Rightarrow> nat" where
  "bisect_right a x lo hi = (if lo < hi then
     (let mid = (lo + hi) div 2 in if x < a ! mid then bisect_right a x lo mid else bisect_right a x (Suc mid) hi)
     else lo)"
  by auto
termination by (relation "measure (\<lambda>(a, x, lo, hi). hi - lo)") auto

declare bisect_right.simps [simp del]

lemma bisect_right_spec:
  assumes "sorted a" "lo \<le> hi" "hi \<le> length a" "\<And>i. i < lo \<Longrightarrow> a ! i \<le> x" "\<And>i. hi \<le> i \<Longrightarrow> i < length a \<Longrightarrow> x < a ! i"
  shows "bisect_right a x lo hi \<le> length a \<and> (\<forall>i < bisect_right a x lo hi. a ! i \<le> x)
    \<and> (\<forall>i. bisect_right a x lo hi \<le> i \<and> i < length a \<longrightarrow> x < a ! i)"
  using assms
proof (induction a x lo hi rule: bisect_right.induct)
  case (1 a x lo hi)
  let ?mid = "(lo + hi) div 2"
  show ?case
  proof (cases "lo < hi")
    case True
    then have mid: "lo \<le> ?mid" "?mid < hi" by auto
    show ?thesis
    proof (cases "x < a ! ?mid")
      case less: True
      have "x < a ! i" if "?mid \<le> i" "i < length a" for i
        using sorted_nth_mono [OF "1.prems"(1) that] less by simp
      with "1.IH"(1) [OF True refl less] "1.prems" mid show ?thesis
        by (subst (1 2 3) bisect_right.simps) (simp add: True less Let_def)
    next
      case ge: False
      have "a ! i \<le> x" if "i < Suc ?mid" for i
        using sorted_nth_mono [OF "1.prems"(1), of i ?mid] that ge mid "1.prems"(3) by simp
      with "1.IH"(2) [OF True refl ge] "1.prems" mid show ?thesis
        by (subst (1 2 3) bisect_right.simps) (simp add: True ge Let_def)
    qed
  next
    case False
    with "1.prems" show ?thesis by (subst (1 2 3) bisect_right.simps) auto
  qed
qed

end
