(* ===== verification/Payroll_Settings.thy ===== *)
theory Payroll_Settings
  imports Prelude Effective_Dating
begin

text \<open>
  \<^verbatim>\<open>app/services/payroll/settings.py\<close>, the one resolver of the append-only \<^verbatim>\<open>payroll_settings\<close>, and the
  Economic Engine version queries of \<^verbatim>\<open>app/services/class_configuration_query_service.py\<close> with their
  in-memory timeline. Both tables are instances of the effective-dated history. The unique constraints of
  the tables (class, effective date, creation time; version id) are the hypothesis \<open>settings_unique\<close> where a
  statement needs one winner.
\<close>

section \<open>Payroll settings\<close>

text \<open>The columns of a row; rates are per minute, \<^verbatim>\<open>max_time_per_day\<close> is the float column's exact value.\<close>

record setting_fields =
  sf_pay_rate :: rat
  sf_overtime_threshold :: "rat option"
  sf_overtime_unit :: "string option"
  sf_max_time :: "rat option"
  sf_max_unit :: "string option"
  sf_schedule_type :: string
  sf_first_pay_date :: int

record payroll_setting = setting_fields +
  ps_uuid :: string
  ps_class :: string
  ps_effective :: int
  ps_created :: int

definition setting_key :: "payroll_setting \<Rightarrow> int \<times> int" where
  "setting_key r = (ps_effective r, ps_created r)"

definition for_class :: "string \<Rightarrow> payroll_setting list \<Rightarrow> payroll_setting list" where
  "for_class c rows = filter (\<lambda>r. ps_class r = c) rows"

text \<open>Each query over one class; a missing class is the \<^verbatim>\<open>ValueError\<close> of \<^verbatim>\<open>_for_class\<close>, modelled by \<open>None\<close> outside.\<close>

definition payroll_setting_effective_at :: "payroll_setting list \<Rightarrow> string \<Rightarrow> int \<Rightarrow> payroll_setting option" where
  "payroll_setting_effective_at rows c t = in_force setting_key ps_effective (for_class c rows) t"

definition payroll_setting_in_force_before :: "payroll_setting list \<Rightarrow> string \<Rightarrow> int \<Rightarrow> payroll_setting option" where
  "payroll_setting_in_force_before rows c t =
     first_row (newest_first setting_key (filter (\<lambda>r. ps_effective r < t) (for_class c rows)))"

definition first_payroll_setting :: "payroll_setting list \<Rightarrow> string \<Rightarrow> payroll_setting option" where
  "first_payroll_setting rows c = first_row (sort_key setting_key (for_class c rows))"

definition payroll_setting_governing_work :: "payroll_setting list \<Rightarrow> string \<Rightarrow> int \<Rightarrow> payroll_setting option" where
  "payroll_setting_governing_work rows c closed_at =
     (case payroll_setting_effective_at rows c closed_at of
        Some r \<Rightarrow> Some r | None \<Rightarrow> first_payroll_setting rows c)"

definition class_has_payroll_settings :: "payroll_setting list \<Rightarrow> string \<Rightarrow> bool" where
  "class_has_payroll_settings rows c = (for_class c rows \<noteq> [])"

definition payroll_setting_by_uuid :: "payroll_setting list \<Rightarrow> string \<Rightarrow> string \<Rightarrow> payroll_setting option" where
  "payroll_setting_by_uuid rows c uuid =
     (if uuid = [] then None else first_row (filter (\<lambda>r. ps_uuid r = uuid) (for_class c rows)))"

text \<open>
  \<^verbatim>\<open>pending_payroll_settings\<close>: future rows by effective date, the latest save of each date
  (\<^verbatim>\<open>setdefault\<close> keeps the first row met, the most recently created).
\<close>

fun first_per_date :: "int list \<Rightarrow> payroll_setting list \<Rightarrow> payroll_setting list" where
  "first_per_date seen [] = []"
| "first_per_date seen (r # rs) =
     (if ps_effective r \<in> set seen then first_per_date seen rs
      else r # first_per_date (ps_effective r # seen) rs)"

definition pending_payroll_settings :: "payroll_setting list \<Rightarrow> string \<Rightarrow> int \<Rightarrow> payroll_setting list" where
  "pending_payroll_settings rows c as_of =
     first_per_date [] (sort_key (\<lambda>r. (ps_effective r, - ps_created r)) (filter (\<lambda>r. as_of < ps_effective r) (for_class c rows)))"

definition default_rate :: rat where "default_rate = 25/100"

definition pay_rate_per_minute :: "payroll_setting option \<Rightarrow> rat" where
  "pay_rate_per_minute s = (case s of None \<Rightarrow> default_rate
     | Some r \<Rightarrow> if sf_pay_rate r \<noteq> 0 then sf_pay_rate r else default_rate)"

definition pay_rate_per_second :: "payroll_setting option \<Rightarrow> rat" where
  "pay_rate_per_second s = (case s of None \<Rightarrow> ddiv default_rate 60
     | Some r \<Rightarrow> if sf_pay_rate r \<noteq> 0 then ddiv (sf_pay_rate r) 60 else ddiv default_rate 60)"

definition unit_seconds :: "string \<Rightarrow> int" where
  "unit_seconds u = (if u = ''seconds'' then 1 else if u = ''minutes'' then 60 else if u = ''hours'' then 3600
     else if u = ''days'' then 86400 else 3600)"

text \<open>
  \<^verbatim>\<open>int(setting.max_time_per_day * unit)\<close>, computed here on the exact product of the stored float. The code rounds the
  product to a float first, which can lift it to the next whole number: for 0.35 minutes, stored as a float just below,
  the code has 21 s and this definition 20 s.
\<close>

definition daily_limit_seconds :: "payroll_setting option \<Rightarrow> int option" where
  "daily_limit_seconds s = (case s of None \<Rightarrow> None
     | Some r \<Rightarrow> (case sf_max_time r of None \<Rightarrow> None
         | Some m \<Rightarrow> if m = 0 then None
             else (let q = m * of_int (unit_seconds (str_strip (str_or (sf_max_unit r) ''hours'')))
                   in Some (if 0 \<le> q then \<lfloor>q\<rfloor> else \<lceil>q\<rceil>))))"

text \<open>
  A submission: \<open>None\<close> is a field the submission omits; for a nullable column the inner \<open>None\<close> is NULL.
\<close>

record setting_values =
  sv_pay_rate :: "rat option"
  sv_overtime_threshold :: "rat option option"
  sv_overtime_unit :: "string option option"
  sv_max_time :: "rat option option"
  sv_max_unit :: "string option option"
  sv_schedule_type :: "string option"
  sv_first_pay_date :: "int option"

datatype pay_error = PayTime time_error | PayValue string | PayLookup string | PaySettlement string | PayIntegrity | PayAttribute

text \<open>
  \<^verbatim>\<open>append_payroll_setting\<close>: the guards, then one new row (a missing pay rate violates the NOT NULL column
  at the flush). The unknown-field guard has no counterpart: a submission has only the legal columns.
\<close>

definition or_null :: "'a option option \<Rightarrow> 'a option" where
  "or_null x = (case x of None \<Rightarrow> None | Some v \<Rightarrow> v)"

definition append_payroll_setting :: "string \<Rightarrow> string \<Rightarrow> setting_values \<Rightarrow> int \<Rightarrow> int \<Rightarrow> payroll_setting list
    \<Rightarrow> pay_error + (payroll_setting \<times> payroll_setting list)" where
  "append_payroll_setting uuid c sv effective created rows =
     (case sv_first_pay_date sv of
        None \<Rightarrow> Inl (PayValue ''A payroll setting needs a first pay date: it anchors the schedule.'')
      | Some first_pay \<Rightarrow>
        (case sv_schedule_type sv of
           None \<Rightarrow> Inl (PayValue ''A payroll schedule is weekly, biweekly or monthly.'')
         | Some schedule \<Rightarrow>
           if schedule \<notin> {''weekly'', ''biweekly'', ''monthly''}
           then Inl (PayValue ''A payroll schedule is weekly, biweekly or monthly.'')
           else if effective < created
           then Inl (PayValue ''A payroll setting cannot take effect before it was recorded.'')
           else (case sv_pay_rate sv of None \<Rightarrow> Inl PayIntegrity
             | Some rate \<Rightarrow>
               (let row = \<lparr>sf_pay_rate = rate, sf_overtime_threshold = or_null (sv_overtime_threshold sv),
                    sf_overtime_unit = or_null (sv_overtime_unit sv), sf_max_time = or_null (sv_max_time sv),
                    sf_max_unit = or_null (sv_max_unit sv), sf_schedule_type = schedule, sf_first_pay_date = first_pay,
                    ps_uuid = uuid, ps_class = c, ps_effective = effective, ps_created = created\<rparr>
                in Inr (row, rows @ [row])))))"

text \<open>Fields a submission omits are carried from the setting it will follow.\<close>

definition over :: "'a option \<Rightarrow> 'a \<Rightarrow> 'a option" where
  "over x d = (case x of None \<Rightarrow> Some d | Some v \<Rightarrow> Some v)"

definition carry_settings :: "payroll_setting option \<Rightarrow> setting_values \<Rightarrow> setting_values" where
  "carry_settings predecessor sv = (case predecessor of None \<Rightarrow> sv
     | Some r \<Rightarrow> \<lparr>sv_pay_rate = over (sv_pay_rate sv) (sf_pay_rate r),
         sv_overtime_threshold = over (sv_overtime_threshold sv) (sf_overtime_threshold r),
         sv_overtime_unit = over (sv_overtime_unit sv) (sf_overtime_unit r),
         sv_max_time = over (sv_max_time sv) (sf_max_time r), sv_max_unit = over (sv_max_unit sv) (sf_max_unit r),
         sv_schedule_type = over (sv_schedule_type sv) (sf_schedule_type r),
         sv_first_pay_date = over (sv_first_pay_date sv) (sf_first_pay_date r)\<rparr>)"

interpretation payroll_history: effective_history setting_key ps_effective
  by unfold_locales (simp add: setting_key_def)

section \<open>Economic Engine versions\<close>

record engine_version =
  eg_id :: string
  eg_class :: string
  eg_effective :: int
  eg_created :: int
  eg_mode :: string
  eg_hours :: "rat option"
  eg_interest_rate :: "rat option"
  eg_calculation :: "string option"
  eg_compound :: "string option"
  eg_payout :: "string option"

definition engine_key :: "engine_version \<Rightarrow> int \<times> int \<times> string" where
  "engine_key v = (eg_effective v, eg_created v, eg_id v)"

definition economic_engine_effective_at :: "engine_version list \<Rightarrow> string \<Rightarrow> int \<Rightarrow> engine_version option" where
  "economic_engine_effective_at versions c t =
     (if c = [] then None else in_force engine_key eg_effective (filter (\<lambda>v. eg_class v = c) versions) t)"

text \<open>\<^verbatim>\<open>EconomicEngineTimeline\<close>: the reversed newest-first list, and \<^verbatim>\<open>at\<close> by bisection on the starts.\<close>

definition economic_engine_timeline :: "engine_version list \<Rightarrow> string \<Rightarrow> engine_version list" where
  "economic_engine_timeline versions c =
     (if c = [] then [] else rev (newest_first engine_key (filter (\<lambda>v. eg_class v = c) versions)))"

definition timeline_at :: "engine_version list \<Rightarrow> int \<Rightarrow> engine_version option" where
  "timeline_at timeline t =
     (let i = int (bisect_right (map eg_effective timeline) t 0 (length timeline)) - 1
      in if 0 \<le> i then Some (timeline ! nat i) else None)"

interpretation engine_history: effective_history engine_key eg_effective
  by unfold_locales (simp add: engine_key_def)

section \<open>Properties\<close>

lemma takeWhile_count:
  assumes "n \<le> length xs" "\<forall>i < n. P (xs ! i)" "\<forall>i. n \<le> i \<and> i < length xs \<longrightarrow> \<not> P (xs ! i)"
  shows "takeWhile P xs = take n xs"
proof -
  have "takeWhile P (take n xs @ drop n xs) = take n xs"
  proof (cases "n < length xs")
    case True
    then have "\<not> P (hd (drop n xs))" "drop n xs \<noteq> []" using assms(3) by (auto simp: hd_drop_conv_nth)
    moreover have "\<forall>x \<in> set (take n xs). P x" using assms(1,2) by (auto simp: in_set_conv_nth)
    ultimately show ?thesis by (cases "drop n xs") (auto simp: takeWhile_tail)
  next
    case False
    with assms(1) have "n = length xs" by simp
    moreover have "\<forall>x \<in> set xs. P x" using assms(2) \<open>n = length xs\<close> by (auto simp: in_set_conv_nth)
    ultimately show ?thesis by simp
  qed
  then show ?thesis by simp
qed

text \<open>
  The in-memory timeline answers exactly as the database query: for every class and instant the
  bisection over the sorted versions finds the version with the greatest effective date at or before the
  instant, ties and classes without versions included.
\<close>

theorem timeline_agrees_with_query:
  "timeline_at (economic_engine_timeline versions c) t = economic_engine_effective_at versions c t"
proof (cases "c = []")
  case True
  then show ?thesis
    by (simp add: economic_engine_timeline_def economic_engine_effective_at_def timeline_at_def bisect_right.simps)
next
  case False
  let ?rows = "filter (\<lambda>v. eg_class v = c) versions"
  let ?s = "sort_key engine_key ?rows"
  let ?n = "bisect_right (map eg_effective ?s) t 0 (length ?s)"
  have n: "?n \<le> length ?s" "\<forall>i < ?n. eg_effective (?s ! i) \<le> t" "\<forall>i. ?n \<le> i \<and> i < length ?s \<longrightarrow> \<not> eg_effective (?s ! i) \<le> t"
    using bisect_right_spec [OF engine_history.sorted_effective, of 0 "length ?s" ?rows t] by auto
  from takeWhile_count [OF n] have tw: "takeWhile (\<lambda>v. eg_effective v \<le> t) ?s = take ?n ?s" .
  have tl: "economic_engine_timeline versions c = ?s" using False by (simp add: economic_engine_timeline_def newest_first_def)
  show ?thesis
  proof (cases "?n = 0")
    case True
    then show ?thesis
      using False tw by (simp add: tl timeline_at_def economic_engine_effective_at_def engine_history.in_force_last)
  next
    case pos: False
    have ne: "?s \<noteq> []"
    proof
      assume "?s = []"
      with n(1) have "?n \<le> 0" by (metis list.size(3))
      with pos show False by simp
    qed
    from pos have "last (take ?n ?s) = ?s ! (?n - 1)" using n(1) ne by (subst last_conv_nth) (auto simp del: length_sort)
    moreover have "nat (int ?n - 1) = ?n - 1" by simp
    ultimately show ?thesis
      using False pos tw n(1) ne
      by (auto simp: tl timeline_at_def Let_def economic_engine_effective_at_def engine_history.in_force_last)
  qed
qed

definition settings_unique :: "payroll_setting list \<Rightarrow> bool" where
  "settings_unique rows = distinct (map (\<lambda>r. (ps_class r, ps_effective r, ps_created r)) rows)"

lemma settings_unique_inj: "settings_unique rows \<Longrightarrow> inj_on setting_key (set (for_class c rows))"
  by (auto simp: settings_unique_def for_class_def distinct_map inj_on_def setting_key_def)

lemma first_per_date_mem:
  "r \<in> set (first_per_date seen xs) \<Longrightarrow> ps_effective r \<notin> set seen
     \<and> (\<exists>ys zs. xs = ys @ r # zs \<and> (\<forall>y \<in> set ys. ps_effective y \<noteq> ps_effective r))"
proof (induction seen xs rule: first_per_date.induct)
  case (2 seen x xs)
  show ?case
  proof (cases "ps_effective x \<in> set seen")
    case True
    with 2 have IH: "ps_effective r \<notin> set seen"
      "\<exists>ys zs. xs = ys @ r # zs \<and> (\<forall>y \<in> set ys. ps_effective y \<noteq> ps_effective r)" by auto
    then obtain ys zs where "xs = ys @ r # zs" "\<forall>y \<in> set ys. ps_effective y \<noteq> ps_effective r" by blast
    then have "x # xs = (x # ys) @ r # zs" "\<forall>y \<in> set (x # ys). ps_effective y \<noteq> ps_effective r" using True IH(1) by auto
    with IH(1) show ?thesis by blast
  next
    case False
    show ?thesis
    proof (cases "r = x")
      case True
      with False show ?thesis by (intro conjI exI [of _ "[]"] exI [of _ xs]) auto
    next
      case other: False
      with 2 False have IH: "ps_effective r \<notin> set (ps_effective x # seen)"
        "\<exists>ys zs. xs = ys @ r # zs \<and> (\<forall>y \<in> set ys. ps_effective y \<noteq> ps_effective r)" by auto
      then obtain ys zs where "xs = ys @ r # zs" "\<forall>y \<in> set ys. ps_effective y \<noteq> ps_effective r" by blast
      then have "x # xs = (x # ys) @ r # zs" "\<forall>y \<in> set (x # ys). ps_effective y \<noteq> ps_effective r" using IH(1) by auto
      moreover have "ps_effective r \<notin> set seen" using IH(1) by simp
      ultimately show ?thesis by blast
    qed
  qed
qed simp

lemma pending_mem:
  assumes "r \<in> set (pending_payroll_settings rows c as_of)"
  shows "r \<in> set (for_class c rows)" "as_of < ps_effective r"
    "\<And>x. x \<in> set (for_class c rows) \<Longrightarrow> ps_effective x = ps_effective r \<Longrightarrow> ps_created x \<le> ps_created r"
proof -
  let ?k = "\<lambda>r. (ps_effective r, - ps_created r)"
  let ?s = "sort_key ?k (filter (\<lambda>r. as_of < ps_effective r) (for_class c rows))"
  from first_per_date_mem [OF assms [unfolded pending_payroll_settings_def]] obtain ys zs where
    s: "?s = ys @ r # zs" "\<forall>y \<in> set ys. ps_effective y \<noteq> ps_effective r" by blast
  have "r \<in> set ?s" unfolding s(1) by simp
  then show "r \<in> set (for_class c rows)" "as_of < ps_effective r" by auto
  fix x assume x: "x \<in> set (for_class c rows)" "ps_effective x = ps_effective r"
  have "x \<in> set ?s" using x \<open>as_of < ps_effective r\<close> by simp
  then have "x = r \<or> x \<in> set zs" using s x(2) by auto
  moreover have "sorted (map ?k (ys @ r # zs))"
    using sorted_sort_key [of ?k "filter (\<lambda>r. as_of < ps_effective r) (for_class c rows)"] unfolding s(1) .
  ultimately show "ps_created x \<le> ps_created r" using x(2) by (auto simp: sorted_append)
qed

text \<open>
  A pending payroll setting is exactly what will be in force at its own effective date, there is one
  per future date, and nothing pending is in force yet.
\<close>

theorem pending_settings_take_over_on_their_date:
  assumes "settings_unique rows" "r \<in> set (pending_payroll_settings rows c as_of)"
  shows "payroll_setting_effective_at rows c (ps_effective r) = Some r
    \<and> payroll_setting_effective_at rows c as_of \<noteq> Some r
    \<and> (\<forall>r' \<in> set (pending_payroll_settings rows c as_of). ps_effective r' = ps_effective r \<longrightarrow> r' = r)"
proof -
  note p = pending_mem [OF assms(2)]
  note inj = settings_unique_inj [OF assms(1), of c]
  have "payroll_setting_effective_at rows c (ps_effective r) = Some r"
    unfolding payroll_setting_effective_at_def
    by (rule payroll_history.in_force_unique [OF inj p(1)]) (use p(3) in \<open>force simp: setting_key_def\<close>)+
  moreover have "payroll_setting_effective_at rows c as_of \<noteq> Some r"
    using payroll_history.in_force_greatest(2) [of "for_class c rows" as_of r] p(2)
    by (auto simp: payroll_setting_effective_at_def)
  moreover have "r' = r" if "r' \<in> set (pending_payroll_settings rows c as_of)" "ps_effective r' = ps_effective r" for r'
  proof -
    note q = pending_mem [OF that(1)]
    have "setting_key r' = setting_key r"
      using p(3) [OF q(1) that(2)] q(3) [OF p(1)] that(2) by (simp add: setting_key_def)
    with inj p(1) q(1) show ?thesis by (auto dest: inj_onD)
  qed
  ultimately show ?thesis by blast
qed

definition example_setting :: "string \<Rightarrow> int \<Rightarrow> int \<Rightarrow> payroll_setting" where
  "example_setting uuid effective created = \<lparr>sf_pay_rate = 1/4, sf_overtime_threshold = None, sf_overtime_unit = None,
     sf_max_time = None, sf_max_unit = None, sf_schedule_type = ''weekly'', sf_first_pay_date = 0,
     ps_uuid = uuid, ps_class = ''A'', ps_effective = effective, ps_created = created\<rparr>"

lemma pending_settings_take_over_on_their_date_witness:
  "payroll_setting_effective_at [example_setting ''a'' 0 0, example_setting ''b'' 9 3, example_setting ''c'' 9 5] ''A'' 9
     = Some (example_setting ''c'' 9 5)"
proof -
  let ?rows = "[example_setting ''a'' 0 0, example_setting ''b'' 9 3, example_setting ''c'' 9 5]"
  have u: "settings_unique ?rows" by code_simp
  have "pending_payroll_settings ?rows ''A'' 6 = [example_setting ''c'' 9 5]" by code_simp
  then have m: "example_setting ''c'' 9 5 \<in> set (pending_payroll_settings ?rows ''A'' 6)" by simp
  have "ps_effective (example_setting ''c'' 9 5) = 9" by (simp add: example_setting_def)
  with pending_settings_take_over_on_their_date [OF u m] show ?thesis by simp
qed

end
