(* ===== verification/Payroll_Schedule.thy ===== *)
theory Payroll_Schedule
  imports Temporal Payroll_Settings
begin

text \<open>
  \<^verbatim>\<open>app/services/payroll/schedule.py\<close>: paydays as boundaries of one recurrence anchored on the first pay
  date, the search for the first boundary after an instant, and the next payroll date derived from the
  setting in force and the last SYSTEM occurrence. Time goes through the canonical resolver of
  \<^verbatim>\<open>Temporal\<close> at class level, as the code does.
\<close>

section \<open>Through the resolver\<close>

definition pay_time :: "time_error + 'a \<Rightarrow> pay_error + 'a" where
  "pay_time m = (case m of Inl e \<Rightarrow> Inl (PayTime e) | Inr x \<Rightarrow> Inr x)"

lemma pay_time_Inr [simp, res_simps]: "pay_time m = Inr x \<longleftrightarrow> m = Inr x"
  by (simp add: pay_time_def split: sum.splits)

lemma pay_time_simps [simp]: "pay_time (Inr x) = Inr x" "pay_time (Inl e) = Inl (PayTime e)"
  by (simp_all add: pay_time_def)

definition cle :: "time_env \<Rightarrow> string \<Rightarrow> string \<Rightarrow> timestamp option \<Rightarrow> kwargs \<Rightarrow> pay_error + tresult" where
  "cle env c primitive ref kw =
     rbind (pay_time (canonical_temporal_resolver env ''CLE'' (Some (Some c)) primitive ref kw)) (\<lambda>ev. Inr (ev_result ev))"

definition evaluation_day :: "time_env \<Rightarrow> string \<Rightarrow> int \<Rightarrow> pay_error + date" where
  "evaluation_day env c instant = rbind (cle env c ''current_evaluation_day'' (Some (Aware instant)) no_kwargs)
     (\<lambda>r. case r of RDay d \<Rightarrow> Inr d | _ \<Rightarrow> Inl PayAttribute)"

definition later_than :: "time_env \<Rightarrow> string \<Rightarrow> int \<Rightarrow> int \<Rightarrow> pay_error + bool" where
  "later_than env c candidate ref = rbind (cle env c ''later_than'' None
     (no_kwargs\<lparr>kw_candidate := Some (Aware candidate), kw_reference := Some (Aware ref)\<rparr>))
     (\<lambda>r. case r of RLater b \<Rightarrow> Inr b | _ \<Rightarrow> Inl PayAttribute)"

section \<open>Cadence and boundaries\<close>

record cadence =
  cd_unit :: string
  cd_step :: int

definition pay_cadence :: "string \<Rightarrow> pay_error + cadence" where
  "pay_cadence schedule = (let t = str_lower (str_strip schedule) in
     if t = ''weekly'' then Inr \<lparr>cd_unit = ''week'', cd_step = 1\<rparr>
     else if t = ''biweekly'' then Inr \<lparr>cd_unit = ''week'', cd_step = 2\<rparr>
     else if t = ''monthly'' then Inr \<lparr>cd_unit = ''month'', cd_step = 1\<rparr>
     else Inl (PayValue ''Unsupported pay schedule; payroll runs weekly, biweekly or monthly.''))"

definition schedule_boundary :: "time_env \<Rightarrow> string \<Rightarrow> date \<Rightarrow> cadence \<Rightarrow> int \<Rightarrow> pay_error + int" where
  "schedule_boundary env c anchor cad n =
     rbind (cle env c ''anchored_recurrence_boundary'' None
       (no_kwargs\<lparr>kw_anchor_date := Some (PDate anchor), kw_cadence := Some (cd_unit cad),
          kw_index := Some (PInt (cd_step cad * n)),
          kw_overflow := (if cd_unit cad = ''month'' then Some ''roll_forward'' else None)\<rparr>))
     (\<lambda>r. case r of RRecur d start \<Rightarrow> Inr start | _ \<Rightarrow> Inl PayAttribute)"

definition index_estimate :: "date \<Rightarrow> cadence \<Rightarrow> date \<Rightarrow> int" where
  "index_estimate anchor cad today =
     (if cd_unit cad = ''month''
      then max 0 (((year today - year anchor) * 12 + (month today - month anchor)) div cd_step cad - 1)
      else max 0 ((toordinal today - toordinal anchor) div 7 div cd_step cad - 1))"

definition max_boundary_steps :: nat where "max_boundary_steps = 10000"

fun search_boundary :: "nat \<Rightarrow> time_env \<Rightarrow> string \<Rightarrow> date \<Rightarrow> cadence \<Rightarrow> int \<Rightarrow> int \<Rightarrow> pay_error + int" where
  "search_boundary 0 env c anchor cad instant n = Inl (PayValue ''No payroll boundary found'')"
| "search_boundary (Suc steps) env c anchor cad instant n =
     rbind (schedule_boundary env c anchor cad n) (\<lambda>b.
     rbind (later_than env c b instant) (\<lambda>later.
       if later then Inr n else search_boundary steps env c anchor cad instant (n + 1)))"

definition first_index_after :: "time_env \<Rightarrow> string \<Rightarrow> date \<Rightarrow> cadence \<Rightarrow> int \<Rightarrow> pay_error + int" where
  "first_index_after env c anchor cad instant =
     rbind (evaluation_day env c instant) (\<lambda>today.
       search_boundary max_boundary_steps env c anchor cad instant (index_estimate anchor cad today))"

definition first_boundary_after :: "time_env \<Rightarrow> string \<Rightarrow> date \<Rightarrow> cadence \<Rightarrow> int \<Rightarrow> pay_error + int" where
  "first_boundary_after env c anchor cad instant =
     rbind (first_index_after env c anchor cad instant) (\<lambda>n. schedule_boundary env c anchor cad n)"

section \<open>The next payroll date\<close>

definition derive_next_payroll_date :: "time_env \<Rightarrow> string \<Rightarrow> int \<Rightarrow> string \<Rightarrow> int option \<Rightarrow> pay_error + int" where
  "derive_next_payroll_date env c first_pay schedule last_occurrence =
     rbind (pay_cadence schedule) (\<lambda>cad.
     rbind (evaluation_day env c first_pay) (\<lambda>anchor.
       case last_occurrence of None \<Rightarrow> schedule_boundary env c anchor cad 0
       | Some occurrence \<Rightarrow> first_boundary_after env c anchor cad occurrence))"

text \<open>The events the schedule reads: kind, mechanism, when recorded, row id, and the recorded occurrence.\<close>

record payroll_event =
  pe_id :: nat
  pe_class :: string
  pe_type :: string
  pe_mechanism :: string
  pe_recorded :: int
  pe_occurrence :: "int option"

definition last_system_payroll_occurrence :: "payroll_event list \<Rightarrow> string \<Rightarrow> int option \<Rightarrow> int option" where
  "last_system_payroll_occurrence events c as_of =
     (case first_row (newest_first (\<lambda>e. (pe_recorded e, pe_id e))
         (filter (\<lambda>e. pe_class e = c \<and> pe_type e = ''payroll'' \<and> pe_mechanism e = ''SYSTEM''
            \<and> (case as_of of None \<Rightarrow> True | Some t \<Rightarrow> pe_recorded e \<le> t)) events)) of
        None \<Rightarrow> None
      | Some e \<Rightarrow> Some (case pe_occurrence e of None \<Rightarrow> pe_recorded e | Some o' \<Rightarrow> o'))"

definition next_payroll_date ::
    "time_env \<Rightarrow> payroll_setting list \<Rightarrow> payroll_event list \<Rightarrow> string \<Rightarrow> int \<Rightarrow> pay_error + int option" where
  "next_payroll_date env rows events c as_of =
     (case payroll_setting_effective_at rows c as_of of
        None \<Rightarrow> Inr None
      | Some s \<Rightarrow> rbind (derive_next_payroll_date env c (sf_first_pay_date s) (sf_schedule_type s)
                      (last_system_payroll_occurrence events c (Some as_of))) (\<lambda>b. Inr (Some b)))"

definition pay_period_containing ::
    "time_env \<Rightarrow> payroll_setting list \<Rightarrow> string \<Rightarrow> int \<Rightarrow> pay_error + (int \<times> int) option" where
  "pay_period_containing env rows c instant =
     (case payroll_setting_effective_at rows c instant of
        None \<Rightarrow> Inr None
      | Some s \<Rightarrow>
        rbind (pay_cadence (sf_schedule_type s)) (\<lambda>cad.
        rbind (evaluation_day env c (sf_first_pay_date s)) (\<lambda>anchor.
        rbind (first_index_after env c anchor cad instant) (\<lambda>i.
        let n = max 1 i in
        rbind (schedule_boundary env c anchor cad (n - 1)) (\<lambda>start.
        rbind (schedule_boundary env c anchor cad n) (\<lambda>stop. Inr (Some (start, stop))))))))"

definition next_payroll_boundary_after ::
    "time_env \<Rightarrow> payroll_setting list \<Rightarrow> payroll_event list \<Rightarrow> string \<Rightarrow> int \<Rightarrow> pay_error + int option" where
  "next_payroll_boundary_after env rows events c instant =
     rbind (next_payroll_date env rows events c instant) (\<lambda>boundary.
       case boundary of None \<Rightarrow> Inr None
       | Some b \<Rightarrow> rbind (later_than env c b instant) (\<lambda>later.
           if later then Inr (Some b)
           else (case payroll_setting_effective_at rows c instant of
               None \<Rightarrow> Inl PayAttribute
             | Some s \<Rightarrow>
               rbind (pay_cadence (sf_schedule_type s)) (\<lambda>cad.
               rbind (evaluation_day env c (sf_first_pay_date s)) (\<lambda>anchor.
               rbind (first_boundary_after env c anchor cad instant) (\<lambda>b'. Inr (Some b')))))))"

definition effective_date_for_new_setting ::
    "time_env \<Rightarrow> payroll_setting list \<Rightarrow> payroll_event list \<Rightarrow> string \<Rightarrow> int \<Rightarrow> pay_error + int option" where
  "effective_date_for_new_setting env rows events c recorded =
     (if payroll_setting_effective_at rows c recorded = None then Inr (Some recorded)
      else next_payroll_boundary_after env rows events c recorded)"

text \<open>\<^verbatim>\<open>save_payroll_setting\<close>, the single writer: an append effective at the next payroll boundary.\<close>

definition save_payroll_setting ::
    "time_env \<Rightarrow> payroll_event list \<Rightarrow> string \<Rightarrow> string \<Rightarrow> setting_values \<Rightarrow> int \<Rightarrow> payroll_setting list
       \<Rightarrow> pay_error + (payroll_setting \<times> payroll_setting list)" where
  "save_payroll_setting env events uuid c sv recorded rows =
     rbind (effective_date_for_new_setting env rows events c recorded) (\<lambda>effective.
       case effective of None \<Rightarrow> Inl PayAttribute
       | Some e \<Rightarrow> append_payroll_setting uuid c (carry_settings (payroll_setting_effective_at rows c e) sv) e recorded rows)"

text \<open>
  \<^verbatim>\<open>due_payroll_occurrences\<close>: each class on its own; a class whose date cannot be derived is left out.
\<close>

definition class_due :: "time_env \<Rightarrow> payroll_setting list \<Rightarrow> payroll_event list \<Rightarrow> int \<Rightarrow> string \<Rightarrow> pay_error + int option" where
  "class_due env rows events now c =
     rbind (next_payroll_date env rows events c now) (\<lambda>occurrence.
       case occurrence of None \<Rightarrow> Inr None
       | Some o' \<Rightarrow> rbind (later_than env c o' now) (\<lambda>later. Inr (if later then None else Some o')))"

definition due_payroll_occurrences :: "time_env \<Rightarrow> payroll_setting list \<Rightarrow> payroll_event list \<Rightarrow> int \<Rightarrow> (string \<times> int) list" where
  "due_payroll_occurrences env rows events now =
     List.map_filter (\<lambda>c. case class_due env rows events now c of Inr (Some o') \<Rightarrow> Some (c, o') | _ \<Rightarrow> None)
       (sort (remdups (map ps_class rows)))"


section \<open>What the resolver gives the schedule\<close>

text \<open>The zone of a class, as the class-level authority resolves it.\<close>

definition class_zone :: "time_env \<Rightarrow> string \<Rightarrow> tzinfo option" where
  "class_zone env c = (if c = [] then None else case class_rows env c of
       Some (Some name) \<Rightarrow> if name = [] then None
         else Option.bind (pytz_zones env name) (\<lambda>t. pytz_zones env (zone t))
     | _ \<Rightarrow> None)"

lemma cle_class_zone:
  assumes "class_zone env c = Some tz" "dispatch primitive = Some h"
  shows "cle env c primitive ref kw =
    pay_time (rbind (case ref of None \<Rightarrow> Inr (utc_clock env) | Some _ \<Rightarrow> ensure_aware_utc ref) (\<lambda>now. h now tz kw))"
proof -
  have c: "c \<noteq> []" using assms(1) by (auto simp: class_zone_def)
  obtain name t where n: "class_rows env c = Some (Some name)" "name \<noteq> []" "pytz_zones env name = Some t"
    "pytz_zones env (zone t) = Some tz"
    using assms(1) by (auto simp: class_zone_def split: option.splits if_splits bind_splits)
  have a: "resolve_authority env ''CLE'' (Some (Some c)) = Inr (zone t, Some c)"
    using c n by (simp add: resolve_authority_def get_class_timezone_def)
  show ?thesis
    using n(4) assms(2) a
    by (simp add: cle_def canonical_temporal_resolver_def rbind_def pay_time_def split: sum.splits option.splits)
qed

lemma dispatch_schedule [simp]:
  "dispatch ''current_evaluation_day'' = Some p_current_evaluation_day"
  "dispatch ''later_than'' = Some p_later_than"
  "dispatch ''anchored_recurrence_boundary'' = Some p_anchored_recurrence_boundary"
  by (simp_all add: dispatch_def)

lemma evaluation_day_zone [simp]: "class_zone env c = Some tz \<Longrightarrow> evaluation_day env c t = Inr (local_date tz t)"
  by (simp add: evaluation_day_def cle_class_zone ensure_aware_utc_def p_current_evaluation_day_def)

lemma later_than_zone [simp]: "class_zone env c = Some tz \<Longrightarrow> later_than env c a b = Inr (b < a)"
  by (simp add: later_than_def cle_class_zone ensure_aware_utc_def p_later_than_def no_kwargs_def)

definition lawful_cadence :: "cadence \<Rightarrow> bool" where
  "lawful_cadence cad = (cad \<in> {\<lparr>cd_unit = ''week'', cd_step = 1\<rparr>, \<lparr>cd_unit = ''week'', cd_step = 2\<rparr>, \<lparr>cd_unit = ''month'', cd_step = 1\<rparr>})"

lemma pay_cadence_lawful: "pay_cadence schedule = Inr cad \<Longrightarrow> lawful_cadence cad"
  by (auto simp: pay_cadence_def lawful_cadence_def Let_def split: if_splits)

text \<open>The date of payday \<open>n\<close>.\<close>

definition payday :: "date \<Rightarrow> cadence \<Rightarrow> int \<Rightarrow> time_error + date" where
  "payday anchor cad n = recurrence_date anchor (cd_unit cad) (cd_step cad * n) ''roll_forward''"

lemma norm_lower_units: "norm_lower (Some ''month'') [] = ''month''" "norm_lower (Some ''week'') [] = ''week''"
  "norm_lower (Some ''roll_forward'') [] = ''roll_forward''"
  by code_simp+

lemma schedule_boundary_zone:
  assumes "class_zone env c = Some tz" "lawful_cadence cad" "0 \<le> n"
  shows "schedule_boundary env c anchor cad n = pay_time (rbind (payday anchor cad n) (\<lambda>d. Inr (midnight tz d)))"
proof -
  have w: "recurrence_date anchor ''week'' k ov = recurrence_date anchor ''week'' k ''roll_forward''" for k ov
    by (simp add: recurrence_date_def)
  have n: "0 \<le> cd_step cad * n" and u: "cd_unit cad = ''week'' \<or> cd_unit cad = ''month''"
    using assms(2,3) by (auto simp: lawful_cadence_def)
  from u show ?thesis
  proof
    assume "cd_unit cad = ''week''"
    then show ?thesis
      using n w [of "cd_step cad * n" "norm_lower (Some []) []"]
      by (cases "recurrence_date anchor ''week'' (cd_step cad * n) ''roll_forward''")
        (simp_all add: schedule_boundary_def cle_class_zone [OF assms(1)] p_anchored_recurrence_boundary_def
          norm_lower_units payday_def no_kwargs_def)
  next
    assume "cd_unit cad = ''month''"
    then show ?thesis
      using n by (cases "recurrence_date anchor ''month'' (cd_step cad * n) ''roll_forward''")
        (simp_all add: schedule_boundary_def cle_class_zone [OF assms(1)] p_anchored_recurrence_boundary_def
          norm_lower_units payday_def no_kwargs_def)
  qed
qed

end
