(* ===== verification/Payroll_Paydays.thy ===== *)
theory Payroll_Paydays
  imports Payroll_Schedule
begin

text \<open>
  What the payroll schedule of \<^verbatim>\<open>Payroll_Schedule\<close> guarantees: the search finds the first payday strictly
  after an instant within three steps of its estimate, paydays never drift however late a run is, the pay
  period holds its instant, and a saved setting never reprices the open cycle.
\<close>

section \<open>Payday dates\<close>

lemma toordinal_range:
  assumes "valid_date d" "1 \<le> year d"
  shows "1 \<le> toordinal d" "year d \<le> 9998 \<Longrightarrow> toordinal d + 365 \<le> max_ordinal"
proof -
  have "0 \<le> days_before_year (year d)"
    using days_before_year_less [of 1 "year d"] assms(2)
    by (cases "year d = 1") (auto simp: days_before_year_def year_length_def)
  with toordinal_year(1) [OF assms(1)] show "1 \<le> toordinal d" by linarith
  assume "year d \<le> 9998"
  then have "days_before_year (year d) + year_length (year d) \<le> days_before_year 9999"
    by (intro days_before_year_less) simp
  moreover have "days_before_year 9999 + 365 = max_ordinal" by (simp add: days_before_year_def max_ordinal_def)
  ultimately show "toordinal d + 365 \<le> max_ordinal" using toordinal_year(2) [OF assms(1)] by linarith
qed

lemma payday_valid: "valid_date anchor \<Longrightarrow> lawful_cadence cad \<Longrightarrow> payday anchor cad n = Inr d \<Longrightarrow> valid_date d"
  using recurrence_month_cases(1) [of anchor "cd_unit cad" "cd_step cad * n" "''roll_forward''" d]
  by (auto simp: payday_def lawful_cadence_def recurrence_date_def add_days_Inr)

text \<open>A monthly payday exists up to the year 9998 and lies in its month or on the first of the next.\<close>

lemma monthly_payday:
  assumes "valid_date anchor" "1 \<le> year anchor" "0 \<le> n" "month_number anchor + n \<le> 9998 * 12 + 13"
  shows "\<exists>d. recurrence_date anchor ''month'' n ''roll_forward'' = Inr d"
proof -
  obtain y m where ym: "month_after anchor n = (y, m)" by fastforce
  note k = month_after_number [OF ym]
  have "13 \<le> y * 12 + m" "y * 12 + m \<le> 9998 * 12 + 13"
    using k(1) assms by (auto simp: month_number_def valid_date_def)
  with k(2,3) have y: "1 \<le> y" "y \<le> 9999" "y = 9999 \<longrightarrow> m = 1" by linarith+
  show ?thesis
  proof (cases "day anchor \<le> month_days y m")
    case True
    then have "mk_date y m (day anchor) = Inr (Date y m (day anchor))"
      using y k(2,3) assms(1) by (auto simp: mk_date_Inr valid_date_def)
    with True ym show ?thesis by (simp add: recurrence_date_def)
  next
    case False
    then have m1: "m \<noteq> 1" using assms(1) month_days_bounds(2) [of "year anchor" "month anchor"]
      by (auto simp: valid_date_def month_days_def)
    have f: "mk_date y m 1 = Inr (Date y m 1)"
      using y k(2,3) month_days_bounds(1) [of y m] by (auto simp: mk_date_Inr valid_date_def)
    obtain y' m' where ym': "month_after (Date y m 1) 1 = (y', m')" by fastforce
    note k' = month_after_number [OF ym']
    have "1 \<le> y' \<and> y' \<le> 9999" using k'(1,2,3) k(2,3) y m1 unfolding month_number_def date.sel by linarith
    then have "mk_date y' m' 1 = Inr (Date y' m' 1)"
      using k'(2,3) month_days_bounds(1) [of y' m'] by (auto simp: mk_date_Inr valid_date_def)
    with False ym f ym' show ?thesis by (simp add: recurrence_date_def)
  qed
qed

lemma div_step_bounds:
  fixes x w :: int
  assumes "0 < w"
  shows "w * (x div w) \<le> x" "x < w * (x div w + 1)"
proof -
  have "w * (x div w) + x mod w = x" by simp
  moreover have "0 \<le> x mod w" "x mod w < w" using assms by auto
  ultimately show "w * (x div w) \<le> x" "x < w * (x div w + 1)"
    unfolding distrib_left by linarith+
qed

text \<open>
  The estimate: everything before it is at or before the day, the payday two after it (or the anchor, when the day
  is before the anchor) is after the day, and all of them exist.
\<close>

definition payday_limit :: "date \<Rightarrow> cadence \<Rightarrow> date \<Rightarrow> int" where
  "payday_limit anchor cad today =
     (if cd_unit cad = ''month'' then max 0 (month_number today - month_number anchor + 1)
      else max 0 ((toordinal today - toordinal anchor) div 7 div cd_step cad + 1))"

lemma payday_limit_weeks:
  assumes v: "valid_date anchor" "valid_date today" and y: "1 \<le> year anchor" "year anchor \<le> 9999" "year today \<le> 9998"
    and cad: "cd_unit cad = ''week''" "cd_step cad \<in> {1, 2}"
  shows "0 \<le> k \<Longrightarrow> k \<le> payday_limit anchor cad today \<Longrightarrow> \<exists>d. payday anchor cad k = Inr d"
    "0 \<le> k \<Longrightarrow> k < index_estimate anchor cad today \<Longrightarrow> payday anchor cad k = Inr d \<Longrightarrow> d \<le> today"
    "payday anchor cad (payday_limit anchor cad today) = Inr d \<Longrightarrow> today < d"
proof -
  let ?w = "7 * cd_step cad" let ?x = "toordinal today - toordinal anchor"
  have w: "0 < ?w" "?w \<le> 14" using cad(2) by auto
  have q: "?x div 7 div cd_step cad = ?x div ?w" using cad(2) by (intro zdiv_zmult2_eq [symmetric]) auto
  note b = div_step_bounds [OF w(1), of ?x]
  have pd: "payday anchor cad k = Inr d \<longleftrightarrow> d = fromordinal (toordinal anchor + ?w * k)
      \<and> 1 \<le> toordinal anchor + ?w * k \<and> toordinal anchor + ?w * k \<le> max_ordinal" for k d
    using cad(1) by (simp add: payday_def recurrence_date_def add_days_Inr algebra_simps)
  have a: "1 \<le> toordinal anchor" "toordinal anchor \<le> max_ordinal"
    using toordinal_range [OF v(1) y(1)] toordinal_year(2) [OF v(1)] days_before_year_less [of "year anchor" 10000] y(2)
    by (auto simp: days_before_year_def max_ordinal_def)
  have cmp: "d \<le> today \<longleftrightarrow> toordinal d \<le> toordinal today" if "valid_date d" for d
    using toordinal_less_iff [OF v(2) that] by (simp add: not_less [symmetric])
  have t: "toordinal today + 365 \<le> max_ordinal"
    using toordinal_year(2) [OF v(2)] days_before_year_less [of "year today" 9999] y(3)
    by (simp add: days_before_year_def max_ordinal_def)
  show "\<exists>d. payday anchor cad k = Inr d" if k: "0 \<le> k" "k \<le> payday_limit anchor cad today"
  proof -
    have "?w * k \<le> max 0 (?x + ?w)"
    proof (cases "k = 0")
      case False
      with k have "k \<le> ?x div ?w + 1" using cad(1) q by (auto simp: payday_limit_def)
      then have "?w * k \<le> ?w * (?x div ?w + 1)" using w(1) by (intro mult_left_mono) auto
      with b(1) show ?thesis by (simp add: algebra_simps)
    qed auto
    moreover have "0 \<le> ?w * k" using k(1) w(1) by (intro mult_nonneg_nonneg) auto
    ultimately have "1 \<le> toordinal anchor + ?w * k" "toordinal anchor + ?w * k \<le> max_ordinal"
      using a t w(2) by linarith+
    then show ?thesis unfolding pd by blast
  qed
  show "d \<le> today" if k: "0 \<le> k" "k < index_estimate anchor cad today" and d: "payday anchor cad k = Inr d"
  proof -
    have "k \<le> ?x div ?w" using k cad(1) q by (auto simp: index_estimate_def)
    then have "?w * k \<le> ?w * (?x div ?w)" using w(1) by (intro mult_left_mono) auto
    with b(1) d show ?thesis unfolding pd by (subst cmp) auto
  qed
  show "today < d" if d: "payday anchor cad (payday_limit anchor cad today) = Inr d"
  proof -
    have "?x div ?w + 1 \<le> payday_limit anchor cad today" using cad(1) q by (simp add: payday_limit_def)
    then have "?w * (?x div ?w + 1) \<le> ?w * payday_limit anchor cad today" using w(1) by (intro mult_left_mono) auto
    with b(2) d have "toordinal today < toordinal d" "valid_date d" unfolding pd by auto
    then show ?thesis using toordinal_less_iff [OF v(2)] by simp
  qed
qed

lemma month_number_le: "valid_date a \<Longrightarrow> valid_date b \<Longrightarrow> a \<le> b \<Longrightarrow> month_number a \<le> month_number b"
  using month_number_less [of b a] by force

lemma payday_limit_months:
  assumes v: "valid_date anchor" "valid_date today" and y: "1 \<le> year anchor" "year anchor \<le> 9999" "year today \<le> 9998"
    and cad: "cd_unit cad = ''month''" "cd_step cad = 1"
  shows "0 \<le> k \<Longrightarrow> k \<le> payday_limit anchor cad today \<Longrightarrow> \<exists>d. payday anchor cad k = Inr d"
    "0 \<le> k \<Longrightarrow> k < index_estimate anchor cad today \<Longrightarrow> payday anchor cad k = Inr d \<Longrightarrow> d \<le> today"
    "payday anchor cad (payday_limit anchor cad today) = Inr d \<Longrightarrow> today < d"
proof -
  have pd: "payday anchor cad k = recurrence_date anchor ''month'' k ''roll_forward''" for k
    using cad by (simp add: payday_def)
  have m: "(year today - year anchor) * 12 + (month today - month anchor) = month_number today - month_number anchor"
    by (simp add: month_number_def)
  show "\<exists>d. payday anchor cad k = Inr d" if k: "0 \<le> k" "k \<le> payday_limit anchor cad today"
  proof (cases "k = 0")
    case True
    have "mk_date (year anchor) (month anchor) (day anchor) = Inr anchor"
      using v(1) y(1,2) by (cases anchor) (auto simp: mk_date_Inr)
    moreover have "month_after anchor 0 = (year anchor, month anchor)"
      using v(1) by (auto simp: month_after_def valid_date_def)
    ultimately show ?thesis using v(1) True by (auto simp: pd recurrence_date_def valid_date_def)
  next
    case False
    with k have "month_number anchor + k \<le> month_number today + 1" using cad by (auto simp: payday_limit_def)
    also have "\<dots> \<le> 9998 * 12 + 13" using y(3) v(2) by (auto simp: month_number_def valid_date_def)
    finally show ?thesis unfolding pd by (rule monthly_payday [OF v(1) y(1) k(1)])
  qed
  show "d \<le> today" if k: "0 \<le> k" "k < index_estimate anchor cad today" and d: "payday anchor cad k = Inr d"
  proof -
    from recurrence_month_cases [OF v(1) _ d [unfolded pd]]
    have "valid_date d" "month_number d \<le> month_number anchor + k + 1" by auto
    moreover have "k + 1 < month_number today - month_number anchor"
      using k cad m by (auto simp: index_estimate_def)
    ultimately have "month_number d < month_number today" by linarith
    then show ?thesis using month_number_less [OF \<open>valid_date d\<close> v(2)] by simp
  qed
  show "today < d" if d: "payday anchor cad (payday_limit anchor cad today) = Inr d"
  proof (rule ccontr)
    assume "\<not> today < d"
    then have "d \<le> today" by simp
    from recurrence_month_cases [OF v(1) _ d [unfolded pd]]
    have "valid_date d" "month_number anchor + payday_limit anchor cad today \<le> month_number d" by auto
    moreover have "month_number today < month_number anchor + payday_limit anchor cad today"
      using cad by (simp add: payday_limit_def)
    ultimately show False using month_number_le [OF \<open>valid_date d\<close> v(2) \<open>d \<le> today\<close>] by linarith
  qed
qed

lemma payday_limit_facts:
  assumes "valid_date anchor" "valid_date today" "1 \<le> year anchor" "year anchor \<le> 9999" "year today \<le> 9998" "lawful_cadence cad"
  shows "0 \<le> k \<Longrightarrow> k \<le> payday_limit anchor cad today \<Longrightarrow> \<exists>d. payday anchor cad k = Inr d"
    "0 \<le> k \<Longrightarrow> k < index_estimate anchor cad today \<Longrightarrow> payday anchor cad k = Inr d \<Longrightarrow> d \<le> today"
    "payday anchor cad (payday_limit anchor cad today) = Inr d \<Longrightarrow> today < d"
    "index_estimate anchor cad today \<le> payday_limit anchor cad today"
    "payday_limit anchor cad today \<le> index_estimate anchor cad today + 2"
    "0 \<le> index_estimate anchor cad today"
proof -
  have c: "cd_unit cad = ''week'' \<and> cd_step cad \<in> {1, 2} \<or> cd_unit cad = ''month'' \<and> cd_step cad = 1"
    using assms(6) by (auto simp: lawful_cadence_def)
  note w = payday_limit_weeks [OF assms(1-5)] and m = payday_limit_months [OF assms(1-5)]
  show "0 \<le> k \<Longrightarrow> k \<le> payday_limit anchor cad today \<Longrightarrow> \<exists>d. payday anchor cad k = Inr d"
    using c w(1) m(1) by blast
  show "0 \<le> k \<Longrightarrow> k < index_estimate anchor cad today \<Longrightarrow> payday anchor cad k = Inr d \<Longrightarrow> d \<le> today"
    using c w(2) m(2) by blast
  show "payday anchor cad (payday_limit anchor cad today) = Inr d \<Longrightarrow> today < d"
    using c w(3) m(3) by blast
  have mn: "month_number today - month_number anchor = (year today - year anchor) * 12 + (month today - month anchor)"
    by (simp add: month_number_def)
  show "index_estimate anchor cad today \<le> payday_limit anchor cad today"
    "payday_limit anchor cad today \<le> index_estimate anchor cad today + 2" "0 \<le> index_estimate anchor cad today"
    using c by (auto simp: index_estimate_def payday_limit_def mn)
qed

section \<open>The search\<close>

lemma search_finds:
  assumes z: "class_zone env c = Some tz" and "j < fuel"
    and "\<And>k. n \<le> k \<Longrightarrow> k \<le> n + int j \<Longrightarrow> schedule_boundary env c anchor cad k = Inr (b k)" "t < b (n + int j)"
  shows "\<exists>m. search_boundary fuel env c anchor cad t n = Inr m \<and> n \<le> m \<and> m \<le> n + int j \<and> t < b m
    \<and> (\<forall>k. n \<le> k \<and> k < m \<longrightarrow> b k \<le> t)"
  using assms(2-)
proof (induction fuel arbitrary: n j)
  case (Suc fuel)
  have b0: "schedule_boundary env c anchor cad n = Inr (b n)" using Suc.prems(2) [of n] by simp
  show ?case
  proof (cases "t < b n")
    case True
    with b0 z show ?thesis by (intro exI [of _ n]) auto
  next
    case False
    with Suc.prems(3) obtain j' where j: "j = Suc j'" by (cases j) auto
    have "\<exists>m. search_boundary fuel env c anchor cad t (n + 1) = Inr m \<and> n + 1 \<le> m \<and> m \<le> n + 1 + int j' \<and> t < b m
        \<and> (\<forall>k. n + 1 \<le> k \<and> k < m \<longrightarrow> b k \<le> t)"
      using Suc.prems j by (intro Suc.IH) (auto simp: add.assoc)
    then obtain m where m: "search_boundary fuel env c anchor cad t (n + 1) = Inr m" "n + 1 \<le> m" "m \<le> n + 1 + int j'" "t < b m"
      "\<forall>k. n + 1 \<le> k \<and> k < m \<longrightarrow> b k \<le> t" by blast
    have "b k \<le> t" if "n \<le> k" "k < m" for k using m(5) False that by (cases "k = n") auto
    with m b0 z False j show ?thesis by (intro exI [of _ m]) auto
  qed
qed simp

text \<open>What the proofs of this theory assume of a class and a day.\<close>

definition schedule_ok :: "time_env \<Rightarrow> string \<Rightarrow> tzinfo \<Rightarrow> cadence \<Rightarrow> date \<Rightarrow> bool" where
  "schedule_ok env c tz cad anchor = (class_zone env c = Some tz \<and> lawful_tz tz \<and> lawful_cadence cad
     \<and> valid_date anchor \<and> 1 \<le> year anchor \<and> year anchor \<le> 9999)"

lemma boundary_of_payday:
  "schedule_ok env c tz cad anchor \<Longrightarrow> 0 \<le> n \<Longrightarrow> payday anchor cad n = Inr d
     \<Longrightarrow> schedule_boundary env c anchor cad n = Inr (midnight tz d)"
  by (simp add: schedule_ok_def schedule_boundary_zone)

lemma payday_of_boundary:
  assumes "schedule_ok env c tz cad anchor" "0 \<le> n" "schedule_boundary env c anchor cad n = Inr b"
  obtains d where "payday anchor cad n = Inr d" "b = midnight tz d" "valid_date d"
proof -
  obtain d where "payday anchor cad n = Inr d" "b = midnight tz d"
    using assms by (auto simp: schedule_ok_def schedule_boundary_zone res_simps)
  with that show thesis using payday_valid assms(1) unfolding schedule_ok_def by blast
qed

lemma first_index_after_correct:
  assumes ok: "schedule_ok env c tz cad anchor" and y: "year (local_date tz t) \<le> 9998"
  shows "\<exists>n b. first_index_after env c anchor cad t = Inr n \<and> 0 \<le> n
    \<and> n \<le> index_estimate anchor cad (local_date tz t) + 2
    \<and> schedule_boundary env c anchor cad n = Inr b \<and> t < b
    \<and> (\<forall>k. 0 \<le> k \<and> k < n \<longrightarrow> (\<exists>b'. schedule_boundary env c anchor cad k = Inr b' \<and> b' \<le> t))"
proof -
  let ?today = "local_date tz t" let ?n0 = "index_estimate anchor cad ?today" let ?L = "payday_limit anchor cad ?today"
  from ok have z: "class_zone env c = Some tz" and tz: "lawful_tz tz" by (auto simp: schedule_ok_def)
  have v: "valid_date anchor" "1 \<le> year anchor" "year anchor \<le> 9999" "lawful_cadence cad"
    using ok by (auto simp: schedule_ok_def)
  note f = payday_limit_facts [OF v(1) valid_local_date v(2,3) y v(4)]
  have cmp: "t < midnight tz d \<longleftrightarrow> ?today < d" if "valid_date d" for d
    using lawful_midnight [OF tz that, of t] by (simp add: not_less [symmetric])
  define b where "b k = projr (schedule_boundary env c anchor cad k)" for k
  have bk: "schedule_boundary env c anchor cad k = Inr (b k) \<and> (\<exists>d. payday anchor cad k = Inr d \<and> b k = midnight tz d \<and> valid_date d)"
    if k: "0 \<le> k" "k \<le> ?L" for k
    using f(1) [OF k] boundary_of_payday [OF ok k(1)] payday_valid [OF v(1,4)] by (auto simp: b_def)
  have late: "t < b ?L" using bk [of ?L] f(3-6) cmp by fastforce
  have early: "b k \<le> t" if "0 \<le> k" "k < ?n0" for k
    using bk [of k] f(2) [OF that] f(4) that cmp by (fastforce simp: not_less [symmetric])
  have "\<exists>m. search_boundary max_boundary_steps env c anchor cad t ?n0 = Inr m \<and> ?n0 \<le> m
      \<and> m \<le> ?n0 + int (nat (?L - ?n0)) \<and> t < b m \<and> (\<forall>k. ?n0 \<le> k \<and> k < m \<longrightarrow> b k \<le> t)"
    using bk late f(4-6) by (intro search_finds [OF z]) (auto simp: max_boundary_steps_def)
  then obtain m where m: "search_boundary max_boundary_steps env c anchor cad t ?n0 = Inr m" "?n0 \<le> m" "m \<le> ?L"
    "t < b m" "\<forall>k. ?n0 \<le> k \<and> k < m \<longrightarrow> b k \<le> t" using f(4) by auto
  have i: "first_index_after env c anchor cad t = Inr m" using z m(1) by (simp add: first_index_after_def)
  have "b k \<le> t" if "0 \<le> k" "k < m" for k using m(5) early that by (cases "k < ?n0") auto
  with i m f(5,6) bk show ?thesis by (intro exI [of _ m] exI [of _ "b m"]) auto
qed

text \<open>
  C34. The next payday is found, and it is the right one: for every cadence, anchor and instant (up to the year 9998) the
  search returns the index of the first payday strictly after the instant, and it never looks at more than three
  candidates past its estimate, so the bound of 10,000 steps is never reached.
\<close>

theorem first_payday_after_instant:
  assumes "class_zone env c = Some tz" "lawful_tz tz" "pay_cadence schedule = Inr cad"
    and "valid_date anchor" "1 \<le> year anchor" "year anchor \<le> 9999" "year (local_date tz t) \<le> 9998"
  shows "\<exists>n b. first_index_after env c anchor cad t = Inr n \<and> 0 \<le> n
    \<and> n \<le> index_estimate anchor cad (local_date tz t) + 2
    \<and> schedule_boundary env c anchor cad n = Inr b \<and> t < b
    \<and> (\<forall>k. 0 \<le> k \<and> k < n \<longrightarrow> (\<exists>b'. schedule_boundary env c anchor cad k = Inr b' \<and> b' \<le> t))"
  by (rule first_index_after_correct) (use assms pay_cadence_lawful in \<open>auto simp: schedule_ok_def\<close>)

text \<open>A class in a fixed-offset zone, for the worked instances.\<close>

definition payroll_env :: time_env where
  "payroll_env = \<lparr>class_rows = [''c1'' \<mapsto> Some ''UTC''], pytz_zones = [''UTC'' \<mapsto> fixed_zone ''UTC'' 0], utc_clock = 0\<rparr>"

lemma example_class_zone: "class_zone payroll_env ''c1'' = Some (fixed_zone ''UTC'' 0)"
  by (simp add: class_zone_def payroll_env_def fixed_zone_def)

lemma first_payday_after_instant_witness:
  "\<exists>n b. first_index_after payroll_env ''c1'' (Date 2026 1 31) \<lparr>cd_unit = ''month'', cd_step = 1\<rparr>
       (combine (Date 2026 3 1) 0) = Inr n
    \<and> schedule_boundary payroll_env ''c1'' (Date 2026 1 31) \<lparr>cd_unit = ''month'', cd_step = 1\<rparr> n = Inr b
    \<and> combine (Date 2026 3 1) 0 < b"
proof -
  have c: "pay_cadence '' Monthly'' = Inr \<lparr>cd_unit = ''month'', cd_step = 1\<rparr>" by code_simp
  have v: "valid_date (Date 2026 1 31)" by code_simp
  have y: "year (local_date (fixed_zone ''UTC'' 0) (combine (Date 2026 3 1) 0)) \<le> 9998" by code_simp
  from first_payday_after_instant [OF example_class_zone lawful_fixed_zone c v _ _ y] show ?thesis by auto
qed

section \<open>Paydays never drift\<close>

text \<open>The successive SYSTEM occurrences when every run settles the date the schedule derived from the one before.\<close>

fun system_runs :: "time_env \<Rightarrow> string \<Rightarrow> int \<Rightarrow> string \<Rightarrow> nat \<Rightarrow> pay_error + int" where
  "system_runs env c first_pay schedule 0 = derive_next_payroll_date env c first_pay schedule None"
| "system_runs env c first_pay schedule (Suc k) =
     rbind (system_runs env c first_pay schedule k) (\<lambda>b. derive_next_payroll_date env c first_pay schedule (Some b))"

text \<open>A date the zone's clocks do show (a zone that moved across the date line skipped a whole day).\<close>

definition day_exists :: "tzinfo \<Rightarrow> date \<Rightarrow> bool" where
  "day_exists tz d = (local_date tz (midnight tz d) = d)"

lemma midnight_less_midnight:
  assumes "lawful_tz tz" "day_exists tz a" "valid_date a" "valid_date b" "a < b"
  shows "midnight tz a < midnight tz b"
  using lawful_midnight_mono(2) [OF assms(1,3,4,5)] assms(2) unfolding day_exists_def by blast

lemma payday_strict_mono:
  assumes "valid_date anchor" "lawful_cadence cad" "i < j" "payday anchor cad i = Inr a" "payday anchor cad j = Inr b"
  shows "a < b"
proof -
  have "cd_step cad * i < cd_step cad * j" using assms(2,3) by (auto simp: lawful_cadence_def)
  from recurrence_strict_mono [OF assms(1) this assms(4,5) [unfolded payday_def]] show ?thesis .
qed

lemma next_after_payday:
  assumes ok: "schedule_ok env c tz cad anchor" and n: "0 \<le> n" and d: "payday anchor cad n = Inr d"
    and e: "day_exists tz d" "year d \<le> 9998"
  shows "\<exists>b'. schedule_boundary env c anchor cad (n + 1) = Inr b' \<and> midnight tz d < b'
    \<and> first_boundary_after env c anchor cad (midnight tz d) = Inr b'"
proof -
  have v: "valid_date anchor" "lawful_cadence cad" "lawful_tz tz" using ok by (auto simp: schedule_ok_def)
  have y: "year (local_date tz (midnight tz d)) \<le> 9998" using e by (simp add: day_exists_def)
  obtain m b where m: "first_index_after env c anchor cad (midnight tz d) = Inr m" "0 \<le> m"
    "schedule_boundary env c anchor cad m = Inr b" "midnight tz d < b"
    "\<forall>k. 0 \<le> k \<and> k < m \<longrightarrow> (\<exists>b'. schedule_boundary env c anchor cad k = Inr b' \<and> b' \<le> midnight tz d)"
    using first_index_after_correct [OF ok y] by blast
  obtain dm where dm: "payday anchor cad m = Inr dm" "b = midnight tz dm" "valid_date dm"
    by (rule payday_of_boundary [OF ok m(2,3)])
  note dv = payday_valid [OF v(1,2) d]
  have "n < m"
  proof (rule ccontr)
    assume "\<not> n < m"
    then have "dm = d \<or> dm < d" using payday_strict_mono [OF v(1,2) _ dm(1) d] d dm(1) by (cases "m = n") auto
    then have "b \<le> midnight tz d" using lawful_midnight_mono(1) [OF v(3) dm(3) dv] dm(2) by auto
    with m(4) show False by simp
  qed
  moreover have "\<not> n + 1 < m"
  proof
    assume "n + 1 < m"
    then obtain b' where b': "schedule_boundary env c anchor cad (n + 1) = Inr b'" "b' \<le> midnight tz d"
      using m(5) [rule_format, of "n + 1"] n by auto
    obtain d' where d': "payday anchor cad (n + 1) = Inr d'" "b' = midnight tz d'" "valid_date d'"
      by (rule payday_of_boundary [OF ok _ b'(1)]) (use n in simp)
    have "d < d'" by (rule payday_strict_mono [OF v(1,2) _ d d'(1)]) simp
    from midnight_less_midnight [OF v(3) e(1) dv d'(3) this] b'(2) d'(2) show False by simp
  qed
  ultimately have "m = n + 1" by simp
  with m show ?thesis by (auto simp: first_boundary_after_def)
qed

text \<open>
  C35. Paydays never drift. When the job settles each date the schedule derives, however late, the k-th SYSTEM occurrence
  is boundary k of the recurrence anchored on the first pay date: the first, second and later forms of the next payroll
  date all come from that one recurrence, weekly, biweekly and month-end rolled forward alike.
\<close>

theorem paydays_never_drift:
  assumes "class_zone env c = Some tz" "lawful_tz tz" "pay_cadence schedule = Inr cad"
    and "1 \<le> year (local_date tz first_pay)" "year (local_date tz first_pay) \<le> 9999"
    and "\<And>j. j < k \<Longrightarrow> \<exists>d. payday (local_date tz first_pay) cad (int j) = Inr d \<and> day_exists tz d \<and> year d \<le> 9998"
  shows "system_runs env c first_pay schedule k = schedule_boundary env c (local_date tz first_pay) cad (int k)"
  using assms(6)
proof (induction k)
  case 0
  show ?case using assms by (simp add: derive_next_payroll_date_def)
next
  case (Suc k)
  let ?anchor = "local_date tz first_pay"
  have ok: "schedule_ok env c tz cad ?anchor" using assms(1-5) pay_cadence_lawful by (auto simp: schedule_ok_def)
  obtain d where d: "payday ?anchor cad (int k) = Inr d" "day_exists tz d" "year d \<le> 9998" using Suc.prems by auto
  have "system_runs env c first_pay schedule k = Inr (midnight tz d)"
    using Suc boundary_of_payday [OF ok _ d(1)] by simp
  moreover have "schedule_boundary env c ?anchor cad (int (Suc k)) = first_boundary_after env c ?anchor cad (midnight tz d)"
    using next_after_payday [OF ok _ d] by (auto simp: add.commute)
  ultimately show ?case using assms(1,3) by (simp add: derive_next_payroll_date_def)
qed

lemma fixed_zone_day_exists: "valid_date d \<Longrightarrow> day_exists (fixed_zone n off) d"
  by (simp add: day_exists_def local_date_def local_wall_def midnight_def fixed_zone_def)

lemma paydays_never_drift_witness:
  "system_runs payroll_env ''c1'' (combine (Date 2026 1 31) 0) ''monthly'' 2 = Inr (combine (Date 2026 3 31) 0)"
proof -
  let ?tz = "fixed_zone ''UTC'' 0" let ?cad = "\<lparr>cd_unit = ''month'', cd_step = 1\<rparr>"
  have c: "pay_cadence ''monthly'' = Inr ?cad" by code_simp
  have a: "local_date ?tz (combine (Date 2026 1 31) 0) = Date 2026 1 31" by code_simp
  have p: "payday (Date 2026 1 31) ?cad 0 = Inr (Date 2026 1 31)" "payday (Date 2026 1 31) ?cad 1 = Inr (Date 2026 3 1)"
    "payday (Date 2026 1 31) ?cad 2 = Inr (Date 2026 3 31)" by code_simp+
  have v: "valid_date (Date 2026 1 31)" "valid_date (Date 2026 3 1)" by code_simp+
  have "\<exists>d. payday (Date 2026 1 31) ?cad (int j) = Inr d \<and> day_exists ?tz d \<and> year d \<le> 9998" if "j < 2" for j
  proof -
    from that consider "j = 0" | "j = 1" by linarith
    then show ?thesis using p v by cases (simp_all add: fixed_zone_day_exists)
  qed
  with paydays_never_drift [OF example_class_zone lawful_fixed_zone c, of "combine (Date 2026 1 31) 0" 2] a
  have "system_runs payroll_env ''c1'' (combine (Date 2026 1 31) 0) ''monthly'' 2
      = schedule_boundary payroll_env ''c1'' (Date 2026 1 31) ?cad 2" by simp
  also have "\<dots> = Inr (combine (Date 2026 3 31) 0)"
    using p(3) by (subst schedule_boundary_zone [OF example_class_zone])
      (simp_all add: lawful_cadence_def midnight_def fixed_zone_def)
  finally show ?thesis .
qed

section \<open>Pay periods\<close>

lemma boundaries_mono:
  assumes ok: "schedule_ok env c tz cad anchor" and n: "0 \<le> i" "i \<le> j"
    and b: "schedule_boundary env c anchor cad i = Inr a" "schedule_boundary env c anchor cad j = Inr b"
  shows "a \<le> b"
proof (cases "i = j")
  case False
  have v: "valid_date anchor" "lawful_cadence cad" "lawful_tz tz" using ok by (auto simp: schedule_ok_def)
  from n have j: "0 \<le> j" by simp
  obtain di where di: "payday anchor cad i = Inr di" "a = midnight tz di" "valid_date di"
    by (rule payday_of_boundary [OF ok n(1) b(1)])
  obtain dj where dj: "payday anchor cad j = Inr dj" "b = midnight tz dj" "valid_date dj"
    by (rule payday_of_boundary [OF ok j b(2)])
  have "di < dj" using False n by (intro payday_strict_mono [OF v(1,2) _ di(1) dj(1)]) simp
  from lawful_midnight_mono(1) [OF v(3) di(3) dj(3) this] show ?thesis using di(2) dj(2) by simp
qed (use b in simp)

text \<open>
  C36. The pay period returned for an instant holds it, except before the first payday, where it is the first period. The
  instant is before the period's end, and at or after its start unless the period is the first one; the two ends are
  consecutive paydays of the setting in force at the instant.
\<close>

theorem pay_period_contains_instant:
  assumes "class_zone env c = Some tz" "lawful_tz tz"
    and s: "payroll_setting_effective_at rows c t = Some s"
    and "pay_cadence (sf_schedule_type s) = Inr cad" "1 \<le> year (local_date tz (sf_first_pay_date s))"
    and "year (local_date tz (sf_first_pay_date s)) \<le> 9999"
    and "year (local_date tz t) \<le> 9998"
    and p: "pay_period_containing env rows c t = Inr (Some (start, stop))"
  shows "t < stop \<and> (\<exists>n \<ge> 0. schedule_boundary env c (local_date tz (sf_first_pay_date s)) cad n = Inr start
      \<and> schedule_boundary env c (local_date tz (sf_first_pay_date s)) cad (n + 1) = Inr stop
      \<and> (start \<le> t \<or> n = 0))"
proof -
  let ?anchor = "local_date tz (sf_first_pay_date s)"
  have ok: "schedule_ok env c tz cad ?anchor" using assms(1,2,4-6) pay_cadence_lawful by (auto simp: schedule_ok_def)
  obtain i where i: "first_index_after env c ?anchor cad t = Inr i"
    "schedule_boundary env c ?anchor cad (max 1 i - 1) = Inr start" "schedule_boundary env c ?anchor cad (max 1 i) = Inr stop"
    using p s assms(1,4) by (auto simp: pay_period_containing_def res_simps Let_def)
  from first_index_after_correct [OF ok assms(7)] i(1) obtain b where b: "0 \<le> i"
    "schedule_boundary env c ?anchor cad i = Inr b" "t < b"
    "\<forall>k. 0 \<le> k \<and> k < i \<longrightarrow> (\<exists>b'. schedule_boundary env c ?anchor cad k = Inr b' \<and> b' \<le> t)" by auto
  have "t < stop" using boundaries_mono [OF ok b(1) _ b(2) i(3)] b(3) by simp
  moreover have "start \<le> t \<or> max 1 i - 1 = 0"
  proof (cases "i \<le> 1")
    case False
    then obtain b' where "schedule_boundary env c ?anchor cad (i - 1) = Inr b'" "b' \<le> t"
      using b(4) [rule_format, of "i - 1"] by auto
    with i(2) False show ?thesis by (simp add: max_def)
  qed simp
  ultimately show ?thesis using i by (intro conjI exI [of _ "max 1 i - 1"]) auto
qed

lemma pay_period_contains_instant_witness:
  "let rows = [example_setting ''a'' 0 0];
       start = combine (Date 2026 1 5) 0; stop = combine (Date 2026 1 12) 0; t = combine (Date 2026 1 7) 9
   in pay_period_containing payroll_env [(example_setting ''a'' 0 0)\<lparr>ps_class := ''c1'', sf_first_pay_date := start\<rparr>] ''c1'' t
        = Inr (Some (start, stop)) \<and> t < stop"
proof -
  let ?start = "combine (Date 2026 1 5) 0" and ?stop = "combine (Date 2026 1 12) 0" and ?t = "combine (Date 2026 1 7) 9"
  let ?s = "(example_setting ''a'' 0 0)\<lparr>ps_class := ''c1'', sf_first_pay_date := ?start\<rparr>"
  have e: "payroll_setting_effective_at [?s] ''c1'' ?t = Some ?s" by code_simp
  have c: "pay_cadence (sf_schedule_type ?s) = Inr \<lparr>cd_unit = ''week'', cd_step = 1\<rparr>" by code_simp
  have y: "1 \<le> year (local_date (fixed_zone ''UTC'' 0) (sf_first_pay_date ?s))"
    "year (local_date (fixed_zone ''UTC'' 0) (sf_first_pay_date ?s)) \<le> 9999"
    "year (local_date (fixed_zone ''UTC'' 0) ?t) \<le> 9998" by code_simp+
  have p: "pay_period_containing payroll_env [?s] ''c1'' ?t = Inr (Some (?start, ?stop))" by code_simp
  from pay_period_contains_instant [OF example_class_zone lawful_fixed_zone e c y p] p show ?thesis by (simp add: Let_def)
qed

lemma boundary_strictly_later:
  assumes z: "class_zone env c = Some tz" "lawful_tz tz" and y: "year (local_date tz t) \<le> 9998"
    and a: "\<forall>q \<in> set rows. 1 \<le> year (local_date tz (sf_first_pay_date q)) \<and> year (local_date tz (sf_first_pay_date q)) \<le> 9999"
    and b: "next_payroll_boundary_after env rows events c t = Inr (Some e)"
  shows "t < e"
proof -
  obtain b0 where b0: "next_payroll_date env rows events c t = Inr (Some b0)"
    using b by (auto simp: next_payroll_boundary_after_def res_simps split: option.splits)
  show ?thesis
  proof (cases "t < b0")
    case True
    with b b0 z show ?thesis by (simp add: next_payroll_boundary_after_def)
  next
    case False
    then obtain s cad where s: "payroll_setting_effective_at rows c t = Some s" "pay_cadence (sf_schedule_type s) = Inr cad"
      "first_boundary_after env c (local_date tz (sf_first_pay_date s)) cad t = Inr e"
      using b b0 z by (auto simp: next_payroll_boundary_after_def res_simps split: option.splits)
    have "s \<in> set rows"
      using payroll_history.in_force_greatest(1) [OF s(1) [unfolded payroll_setting_effective_at_def]]
      by (simp add: for_class_def)
    with a z s(2) pay_cadence_lawful have ok: "schedule_ok env c tz cad (local_date tz (sf_first_pay_date s))"
      by (auto simp: schedule_ok_def)
    from first_index_after_correct [OF ok y] s(3) show ?thesis by (auto simp: first_boundary_after_def)
  qed
qed

section \<open>Saving a setting\<close>

text \<open>
  C37. Saving a payroll setting never reprices the open cycle: what was in force at any instant before the new row's
  effective date is still in force after the save, that date is not before the save, and once the class has a setting it
  is strictly after it, so the setting in force at the save is not replaced.
\<close>

theorem saved_setting_waits_for_the_boundary:
  assumes z: "class_zone env c = Some tz" "lawful_tz tz"
    and s: "save_payroll_setting env events uuid c sv recorded rows = Inr (r, rows')"
    and y: "year (local_date tz recorded) \<le> 9998"
    and a: "\<forall>q \<in> set rows. 1 \<le> year (local_date tz (sf_first_pay_date q)) \<and> year (local_date tz (sf_first_pay_date q)) \<le> 9999"
  shows "(\<forall>t < ps_effective r. payroll_setting_effective_at rows' c t = payroll_setting_effective_at rows c t)
    \<and> recorded \<le> ps_effective r
    \<and> (payroll_setting_effective_at rows c recorded \<noteq> None \<longrightarrow> recorded < ps_effective r)"
proof -
  obtain e where e: "effective_date_for_new_setting env rows events c recorded = Inr (Some e)"
    and ap: "append_payroll_setting uuid c (carry_settings (payroll_setting_effective_at rows c e) sv) e recorded rows = Inr (r, rows')"
    using s by (auto simp: save_payroll_setting_def res_simps split: option.splits)
  have r: "rows' = rows @ [r]" "ps_effective r = e" "ps_class r = c" "recorded \<le> e"
    using ap by (auto simp: append_payroll_setting_def Let_def split: option.splits if_splits)
  have before: "payroll_setting_effective_at rows' c t = payroll_setting_effective_at rows c t" if "t < e" for t
    using payroll_history.append_changes_nothing_before [of t r "for_class c rows"] that r
    by (simp add: payroll_setting_effective_at_def for_class_def)
  have later: "recorded < e" if "payroll_setting_effective_at rows c recorded \<noteq> None"
    using e that boundary_strictly_later [OF z y a] by (auto simp: effective_date_for_new_setting_def)
  from before later r show ?thesis by auto
qed

definition example_payday_setting :: payroll_setting where
  "example_payday_setting = (example_setting ''a'' 0 0)\<lparr>ps_class := ''c1'', sf_first_pay_date := combine (Date 2026 1 5) 0\<rparr>"

definition example_raise :: setting_values where
  "example_raise = \<lparr>sv_pay_rate = Some (3/10), sv_overtime_threshold = None, sv_overtime_unit = None, sv_max_time = None,
     sv_max_unit = None, sv_schedule_type = None, sv_first_pay_date = None\<rparr>"

lemma saved_setting_waits_for_the_boundary_witness:
  "let t = combine (Date 2026 1 7) 9 in
     \<exists>r rows'. save_payroll_setting payroll_env [] ''b'' ''c1'' example_raise t [example_payday_setting] = Inr (r, rows')
       \<and> t < ps_effective r \<and> payroll_setting_effective_at rows' ''c1'' t = payroll_setting_effective_at [example_payday_setting] ''c1'' t"
proof -
  let ?t = "combine (Date 2026 1 7) 9"
  have "case save_payroll_setting payroll_env [] ''b'' ''c1'' example_raise ?t [example_payday_setting] of
      Inl e \<Rightarrow> False | Inr x \<Rightarrow> True" by code_simp
  then obtain r rows' where s: "save_payroll_setting payroll_env [] ''b'' ''c1'' example_raise ?t [example_payday_setting] = Inr (r, rows')"
    by (cases "save_payroll_setting payroll_env [] ''b'' ''c1'' example_raise ?t [example_payday_setting]") auto
  have n: "payroll_setting_effective_at [example_payday_setting] ''c1'' ?t \<noteq> None" by code_simp
  have y: "year (local_date (fixed_zone ''UTC'' 0) ?t) \<le> 9998" by code_simp
  have a: "\<forall>q \<in> set [example_payday_setting]. 1 \<le> year (local_date (fixed_zone ''UTC'' 0) (sf_first_pay_date q))
      \<and> year (local_date (fixed_zone ''UTC'' 0) (sf_first_pay_date q)) \<le> 9999" by code_simp
  from saved_setting_waits_for_the_boundary [OF example_class_zone lawful_fixed_zone s y a] n s show ?thesis
    by (auto simp: Let_def)
qed

end
