(* ===== verification/Economic_Policy.thy ===== *)
theory Economic_Policy
  imports Prelude
begin

text \<open>
  The policy constants and the money bands of \<^verbatim>\<open>app/utils/economy_policy.py\<close>: the three policy modes with
  their ratios of the Class Wage Index (CWI), the store roles, the conversion of a billing cadence to weeks,
  and \<^verbatim>\<open>scale_band\<close>, the one conversion of ratios to money. Ratios are Decimals read from their shortest
  rendering, so exact; a mode's label and description strings are not modelled.
\<close>

definition average_weeks_per_month :: rat where "average_weeks_per_month = 4348214285714 / 10 ^ 12"

definition frequency_week_multipliers :: "(string \<times> rat) list" where
  "frequency_week_multipliers =
     [(''daily'', 142857142857 / 10 ^ 12), (''weekly'', 1), (''biweekly'', 2), (''monthly'', average_weeks_per_month),
      (''semester'', 18), (''yearly'', 52)]"

definition store_role_ratios :: "(string \<times> (string \<times> rat) list) list" where
  "store_role_ratios =
     [(''necessity'', [(''min'', 1/100), (''max'', 10/100)]),
      (''convenience'', [(''min'', 11/100), (''max'', 20/100)]),
      (''add_on'', [(''min'', 21/100), (''max'', 30/100)])]"

type_synonym ratios = "(string \<times> rat) list"

definition policy_modes :: "(string \<times> (string \<times> ratios) list) list" where
  "policy_modes =
     [(''tight'',
        [(''rent_weekly'', [(''min'', 30/100), (''max'', 40/100), (''recommended'', 35/100)]),
         (''fine_weekly'', [(''min'', 5/100), (''max'', 10/100), (''recommended'', 75/1000)]),
         (''collective_goal'', [(''min'', 1), (''max'', 3)]),
         (''savings_weekly'', [(''min'', 5/100), (''target'', 5/100)])]),
      (''default'',
        [(''rent_weekly'', [(''min'', 35/100), (''max'', 50/100), (''recommended'', 425/1000)]),
         (''fine_weekly'', [(''min'', 5/100), (''max'', 12/100), (''recommended'', 85/1000)]),
         (''collective_goal'', [(''min'', 1), (''max'', 5)]),
         (''savings_weekly'', [(''min'', 10/100), (''target'', 10/100)])]),
      (''comfortable'',
        [(''rent_weekly'', [(''min'', 40/100), (''max'', 55/100), (''recommended'', 475/1000)]),
         (''fine_weekly'', [(''min'', 7/100), (''max'', 15/100), (''recommended'', 11/100)]),
         (''collective_goal'', [(''min'', 15/10), (''max'', 7)]),
         (''savings_weekly'', [(''min'', 15/100), (''target'', 15/100)])])]"

definition normalize_policy_mode :: "string option \<Rightarrow> string" where
  "normalize_policy_mode value = (let mode = norm_lower value ''default'' in
     if mode \<in> set (map fst policy_modes) then mode else ''default'')"

definition get_policy_profile :: "string option \<Rightarrow> (string \<times> ratios) list" where
  "get_policy_profile mode = the (map_of policy_modes (normalize_policy_mode mode))"

text \<open>A named ratio group of a mode, \<^verbatim>\<open>POLICY_MODES[mode]["ratios"][group]\<close>, and one ratio of a group.\<close>

definition policy_ratios :: "string option \<Rightarrow> string \<Rightarrow> ratios" where
  "policy_ratios mode grp = the (map_of (get_policy_profile mode) grp)"

definition ratio :: "ratios \<Rightarrow> string \<Rightarrow> rat" where
  "ratio rs key = the (map_of rs key)"

definition quantize_money :: "rat \<Rightarrow> rat" where "quantize_money v = money v"

definition weeks_per_period :: "string option \<Rightarrow> int option \<Rightarrow> string option \<Rightarrow> rat" where
  "weeks_per_period frequency custom_value custom_unit =
     (let f = norm_lower frequency ''weekly'' in
      if f = ''custom'' then
        (let u = norm_lower custom_unit ''days'';
             count = of_int (case custom_value of None \<Rightarrow> 1 | Some v \<Rightarrow> if v = 0 then 1 else v)
         in if u = ''weeks'' then count
            else if u = ''months'' then dmul average_weeks_per_month count
            else ddiv count 7)
      else (case map_of frequency_week_multipliers f of Some w \<Rightarrow> w | None \<Rightarrow> 1))"

definition scale_band :: "rat option \<Rightarrow> ratios \<Rightarrow> rat \<Rightarrow> (string \<times> rat) list" where
  "scale_band cwi rs weeks =
     (let c = quantize_money (case cwi of None \<Rightarrow> 0 | Some c \<Rightarrow> c) in
      map (\<lambda>(key, r). (key, quantize_money (dmul (dmul c r) weeks))) rs)"

section \<open>Bands keep their order\<close>

lemma policy_mode_cases:
  obtains "normalize_policy_mode m = ''tight''" | "normalize_policy_mode m = ''default''" | "normalize_policy_mode m = ''comfortable''"
proof -
  have "normalize_policy_mode m \<in> set (map fst policy_modes)"
    by (auto simp: normalize_policy_mode_def policy_modes_def Let_def)
  with that show thesis by (auto simp: policy_modes_def)
qed

lemma policy_band_values:
  assumes "grp \<in> {''rent_weekly'', ''fine_weekly''}"
  shows "\<exists>a b c. policy_ratios mode grp = [(''min'', a), (''max'', c), (''recommended'', b)] \<and> 0 \<le> a \<and> a \<le> b \<and> b \<le> c"
proof -
  have p: "the (map_of policy_modes ''tight'') = snd (policy_modes ! 0)"
    "the (map_of policy_modes ''default'') = snd (policy_modes ! 1)"
    "the (map_of policy_modes ''comfortable'') = snd (policy_modes ! 2)"
    by code_simp+
  have v: "the (map_of (snd (policy_modes ! 0)) ''rent_weekly'') = [(''min'', 30/100), (''max'', 40/100), (''recommended'', 35/100)]"
    "the (map_of (snd (policy_modes ! 0)) ''fine_weekly'') = [(''min'', 5/100), (''max'', 10/100), (''recommended'', 75/1000)]"
    "the (map_of (snd (policy_modes ! 1)) ''rent_weekly'') = [(''min'', 35/100), (''max'', 50/100), (''recommended'', 425/1000)]"
    "the (map_of (snd (policy_modes ! 1)) ''fine_weekly'') = [(''min'', 5/100), (''max'', 12/100), (''recommended'', 85/1000)]"
    "the (map_of (snd (policy_modes ! 2)) ''rent_weekly'') = [(''min'', 40/100), (''max'', 55/100), (''recommended'', 475/1000)]"
    "the (map_of (snd (policy_modes ! 2)) ''fine_weekly'') = [(''min'', 7/100), (''max'', 15/100), (''recommended'', 11/100)]"
    by (simp_all add: policy_modes_def)
  have r: "\<exists>a b c. policy_ratios mode ''rent_weekly'' = [(''min'', a), (''max'', c), (''recommended'', b)] \<and> 0 \<le> a \<and> a \<le> b \<and> b \<le> c"
    by (rule policy_mode_cases [of mode]; simp only: policy_ratios_def get_policy_profile_def p v; intro exI conjI, rule refl; simp)
  have f: "\<exists>a b c. policy_ratios mode ''fine_weekly'' = [(''min'', a), (''max'', c), (''recommended'', b)] \<and> 0 \<le> a \<and> a \<le> b \<and> b \<le> c"
    by (rule policy_mode_cases [of mode]; simp only: policy_ratios_def get_policy_profile_def p v; intro exI conjI, rule refl; simp)
  from r f assms show ?thesis by blast
qed

lemma scale_band_lookup:
  "map_of (scale_band cwi rs weeks) key =
     map_option (\<lambda>r. quantize_money (dmul (dmul (quantize_money (case cwi of None \<Rightarrow> 0 | Some c \<Rightarrow> c)) r) weeks)) (map_of rs key)"
  by (induction rs) (auto simp: scale_band_def Let_def)

lemma scale_band_mono:
  assumes "0 \<le> c" "0 \<le> r" "r \<le> r'" "0 \<le> w" "w \<le> w'"
  shows "quantize_money (dmul (dmul (quantize_money c) r) w) \<le> quantize_money (dmul (dmul (quantize_money c) r') w')"
proof -
  have c: "0 \<le> quantize_money c" using assms(1) by (simp add: quantize_money_def money_nonneg)
  have "dmul (quantize_money c) r \<le> dmul (quantize_money c) r'" using c assms by (intro dmul_mono) auto
  moreover have "0 \<le> dmul (quantize_money c) r'" using c assms by (intro dmul_nonneg) auto
  ultimately have "dmul (dmul (quantize_money c) r) w \<le> dmul (dmul (quantize_money c) r') w'"
    using assms c dmul_nonneg [OF c assms(2)] by (intro dmul_mono [of "dmul (quantize_money c) r"]) auto
  then show ?thesis by (simp add: quantize_money_def money_mono)
qed

lemma weeks_nonneg: "0 \<le> (case v of None \<Rightarrow> 1 | Some n \<Rightarrow> n) \<Longrightarrow> 0 \<le> weeks_per_period f v u"
proof -
  assume v: "0 \<le> (case v of None \<Rightarrow> 1 | Some n \<Rightarrow> n)"
  have m: "0 \<le> w" if "map_of frequency_week_multipliers g = Some w" for g w
    using that by (auto simp: frequency_week_multipliers_def average_weeks_per_month_def split: if_splits)
  have c: "0 \<le> (of_int (case v of None \<Rightarrow> 1 | Some n \<Rightarrow> if n = 0 then 1 else n) :: rat)"
    using v by (auto split: option.splits)
  have a: "0 \<le> average_weeks_per_month" by (simp add: average_weeks_per_month_def)
  from m c dmul_nonneg [OF a c] ddiv_nonneg [OF c, of 7] show ?thesis
    by (auto simp: weeks_per_period_def Let_def split: option.splits)
qed

text \<open>
  Every policy band stays a band once it is money: in each mode, for any wage index and any billing cadence, the
  smallest amount of a rent or fine band is at most the recommended amount, which is at most the largest; rounding
  happens once, so it cannot reorder them. A teacher's negative custom period is excluded.
\<close>

theorem scaled_bands_keep_their_order:
  assumes "grp \<in> {''rent_weekly'', ''fine_weekly''}" "0 \<le> cwi" "0 \<le> (case v of None \<Rightarrow> 1 | Some n \<Rightarrow> n)"
    and "band = scale_band (Some cwi) (policy_ratios mode grp) (weeks_per_period f v u)"
  shows "\<exists>lo rec hi. map_of band ''min'' = Some lo \<and> map_of band ''recommended'' = Some rec \<and> map_of band ''max'' = Some hi
    \<and> 0 \<le> lo \<and> lo \<le> rec \<and> rec \<le> hi"
proof -
  have w: "0 \<le> weeks_per_period f v u" using weeks_nonneg assms(3) .
  from policy_band_values [OF assms(1), of mode] obtain a b c where r: "policy_ratios mode grp = [(''min'', a), (''max'', c), (''recommended'', b)]"
    "0 \<le> a" "a \<le> b" "b \<le> c" by blast
  have lo: "0 \<le> quantize_money (dmul (dmul (quantize_money cwi) a) (weeks_per_period f v u))"
    using scale_band_mono [OF assms(2) order.refl r(2) w order.refl] by (simp add: quantize_money_def dmul_def)
  show ?thesis
    unfolding assms(4) scale_band_lookup r(1)
    using lo scale_band_mono [OF assms(2) r(2,3) w order.refl] scale_band_mono [OF assms(2) _ r(4) w order.refl] r(2,3) by auto
qed

lemma scaled_bands_keep_their_order_witness:
  "\<exists>lo rec hi. map_of (scale_band (Some (675/2)) (policy_ratios (Some '' Comfortable'') ''fine_weekly'')
       (weeks_per_period (Some ''custom'') (Some 3) (Some ''months''))) ''min'' = Some lo \<and> lo \<le> rec \<and> rec \<le> hi \<and> 0 \<le> lo"
  using scaled_bands_keep_their_order [of "''fine_weekly''" "675/2" "Some 3" _ "Some '' Comfortable''" "Some ''custom''" "Some ''months''"]
  by auto

end
