(* ===== verification/Economic_Engine.thy ===== *)
theory Economic_Engine
  imports Payroll_Settings Economic_Policy
begin

text \<open>
  \<^verbatim>\<open>app/services/economic_engine.py\<close>: the Class Wage Index and the readiness of a class's economic base, the
  insurance, savings and overdraft references derived from it, and the daily accrual of savings interest.
  Nothing here is stored: every figure is a function of the Economic Engine version and the payroll setting in
  force. Optional overrides are options, and the explanatory \<^verbatim>\<open>notes\<close> and \<^verbatim>\<open>hard_bounds\<close> strings are left
  out. The fractional power of the compound-rate ceiling is the parameter \<open>pow2\<close> of \<open>max_lawful_annual_rate\<close>.
\<close>

datatype econ_error = EconValue string | NotReady "string option" string

section \<open>Modes, tiers and premium rates\<close>

definition normalize_mode :: "string option \<Rightarrow> string" where
  "normalize_mode mode = (let m = norm_lower mode ''default'' in
     if m \<in> {''tight'', ''default'', ''comfortable''} then m else ''default'')"

definition normalize_tier :: "string option \<Rightarrow> econ_error + string" where
  "normalize_tier tier = (let t = norm_lower tier ''single'' in
     if t \<in> {''single'', ''basic'', ''mid'', ''premium''} then Inr t else Inl (EconValue ''Unknown insurance tier''))"

definition normalize_product :: "string option \<Rightarrow> econ_error + string" where
  "normalize_product product = (let p = str_upper (str_strip (str_or product [])) in
     if p \<in> {''TRANSACTION'', ''PRODUCTIVITY'', ''NON_MONETARY''} then Inr p
     else Inl (EconValue ''Unknown insurance product''))"

definition premium_band :: "string \<Rightarrow> rat \<times> rat" where
  "premium_band mode = (if mode = ''tight'' then (6/100, 14/100)
     else if mode = ''comfortable'' then (4/100, 10/100) else (5/100, 12/100))"

definition recommended_premium_rate :: "string option \<Rightarrow> string option \<Rightarrow> econ_error + rat" where
  "recommended_premium_rate mode tier =
     (let (lower, upper) = premium_band (normalize_mode mode) in
      rbind (normalize_tier tier) (\<lambda>t.
        Inr (if t = ''basic'' then lower else if t = ''premium'' then upper else ddiv (dadd lower upper) 2)))"

section \<open>The economic base\<close>

record economic_base =
  eb_class :: "string option"
  eb_version :: "string option"
  eb_mode :: string
  eb_hours :: "rat option"
  eb_hourly_rate :: "rat option"
  eb_cwi :: "rat option"

datatype readiness = Ready | Unready

definition has_cwi :: "economic_base \<Rightarrow> bool" where
  "has_cwi b = (case eb_cwi b of None \<Rightarrow> False | Some c \<Rightarrow> 0 < c)"

definition base_status :: "economic_base \<Rightarrow> readiness" where
  "base_status b = (if has_cwi b then Ready else Unready)"

definition is_ready :: "economic_base \<Rightarrow> bool" where "is_ready b = (base_status b = Ready)"

definition readiness_reason :: "economic_base \<Rightarrow> string option" where
  "readiness_reason b = (if is_ready b then None
     else (let no_rate = (eb_hourly_rate b = None);
               no_hours = (case eb_hours b of None \<Rightarrow> True | Some h \<Rightarrow> h \<le> 0)
           in Some (if \<not> no_rate \<and> \<not> no_hours then ''Economic Engine base cannot resolve a CWI''
                else ''Economic Engine not ready: missing '' @
                  (if no_rate \<and> no_hours then ''payroll pay rate and expected weekly hours''
                   else if no_rate then ''payroll pay rate'' else ''expected weekly hours''))))"

text \<open>
  \<^verbatim>\<open>resolve_base\<close> over the Economic Engine versions and payroll settings as they stand at \<open>now\<close>. An empty class
  id reads nothing. The stored rate and hours enter as the Decimals they render as.
\<close>

definition resolve_base :: "engine_version list \<Rightarrow> payroll_setting list \<Rightarrow> int \<Rightarrow> string option \<Rightarrow> economic_base" where
  "resolve_base versions settings now class_id =
     (let c = str_or class_id [];
          engine = (if c = [] then None else economic_engine_effective_at versions c now);
          payroll = (if c = [] then None else payroll_setting_effective_at settings c now);
          hours = Option.bind engine eg_hours;
          rate = map_option sf_pay_rate payroll
      in \<lparr>eb_class = class_id, eb_version = map_option eg_id engine, eb_mode = normalize_mode (map_option eg_mode engine),
          eb_hours = hours,
          eb_hourly_rate = map_option (\<lambda>r. money (dmul r 60)) rate,
          eb_cwi = (case (rate, hours) of
              (Some r, Some h) \<Rightarrow> if 0 < h then Some (money (dmul (dmul r 60) h)) else None
            | _ \<Rightarrow> None)\<rparr>)"

definition require_ready_base :: "engine_version list \<Rightarrow> payroll_setting list \<Rightarrow> int \<Rightarrow> string option \<Rightarrow> econ_error + economic_base" where
  "require_ready_base versions settings now class_id =
     (let base = resolve_base versions settings now class_id in
      if \<not> is_ready base then Inl (NotReady class_id (str_or (readiness_reason base) [])) else Inr base)"

text \<open>Overrides: \<open>base\<close> is read only when the class id is given and one of the two inputs is missing.\<close>

definition econ_inputs :: "(string option \<Rightarrow> economic_base) \<Rightarrow> string option \<Rightarrow> rat option \<Rightarrow> string option \<Rightarrow> rat option \<times> string" where
  "econ_inputs base class_id cwi mode =
     (let b = (if str_or class_id [] \<noteq> [] then Some (base class_id) else None) in
      (case cwi of Some c \<Rightarrow> Some c | None \<Rightarrow> Option.bind b eb_cwi,
       normalize_mode (case mode of Some m \<Rightarrow> Some m
         | None \<Rightarrow> Some (case b of None \<Rightarrow> ''default'' | Some b \<Rightarrow> eb_mode b))))"

section \<open>Insurance\<close>

record transaction_preset =
  tp_reimbursement :: rat
  tp_multiple :: rat
  tp_claims :: int
  tp_window :: int

definition transaction_preset_of :: "string \<Rightarrow> transaction_preset" where
  "transaction_preset_of t =
     (if t = ''basic'' then \<lparr>tp_reimbursement = 40/100, tp_multiple = 3, tp_claims = 1, tp_window = 3\<rparr>
      else if t = ''premium'' then \<lparr>tp_reimbursement = 80/100, tp_multiple = 5, tp_claims = 3, tp_window = 14\<rparr>
      else \<lparr>tp_reimbursement = 60/100, tp_multiple = 4, tp_claims = 2, tp_window = 7\<rparr>)"

definition productivity_preset_of :: "string \<Rightarrow> rat \<times> rat \<times> int" where
  "productivity_preset_of t =
     (if t = ''basic'' then (40/100, 3, 1) else if t = ''premium'' then (80/100, 5, 3) else (60/100, 4, 2))"

definition non_monetary_preset_of :: "string \<Rightarrow> int \<times> int" where
  "non_monetary_preset_of t =
     (if t = ''basic'' then (1, 7) else if t = ''mid'' then (2, 3) else if t = ''premium'' then (3, 0) else (1, 3))"

definition recommended_ranges :: "(string \<times> rat \<times> rat) list" where
  "recommended_ranges =
     [(''reimbursement_pct'', 30/100, 90/100), (''payout_multiple'', 2, 7), (''claims_per_week'', 1, 3),
      (''claimable_days_per_week'', 1, 3), (''transaction_claim_window_days'', 1, 14),
      (''non_monetary_waiting_period_days'', 0, 7)]"

definition range_of :: "string \<Rightarrow> rat \<times> rat" where "range_of key = the (map_of recommended_ranges key)"

record insurance_resolution =
  ir_product :: string
  ir_tier :: string
  ir_mode :: string
  ir_cwi :: "rat option"
  ir_week_equivalent :: rat
  ir_premium_rate :: rat
  ir_weekly_premium :: "rat option"
  ir_period_premium :: "rat option"
  ir_reimbursement :: "rat option"
  ir_multiple :: "rat option"
  ir_max_payout :: "rat option"
  ir_claims_weekly :: "int option"
  ir_claimable_days_weekly :: "int option"
  ir_claim_window :: "int option"
  ir_waiting_days :: "int option"
  ir_ranges :: "(string \<times> rat \<times> rat) list"

definition coverage_week_equivalent :: "string option \<Rightarrow> int option \<Rightarrow> econ_error + rat" where
  "coverage_week_equivalent period days =
     (case days of
        None \<Rightarrow> if norm_lower period ''weekly'' = ''weekly'' then Inr 1
                else Inl (EconValue ''coverage_period requires covered_calendar_days'')
      | Some d \<Rightarrow> if d \<le> 0 then Inl (EconValue ''covered_calendar_days must be positive'')
                  else Inr (ddiv (of_int d) 7))"

text \<open>The figures of one (product, tier) at a wage index: the common part, then each product's own.\<close>

definition insurance_reference :: "string \<Rightarrow> string \<Rightarrow> string \<Rightarrow> rat option \<Rightarrow> rat \<Rightarrow> rat \<Rightarrow> insurance_resolution" where
  "insurance_reference product tier mode cwi weeks rate =
     (let weekly = map_option (\<lambda>c. money (dmul c rate)) cwi in
      \<lparr>ir_product = product, ir_tier = tier, ir_mode = mode, ir_cwi = cwi, ir_week_equivalent = weeks,
       ir_premium_rate = rate, ir_weekly_premium = weekly,
       ir_period_premium = map_option (\<lambda>w. money (dmul w weeks)) weekly,
       ir_reimbursement = None, ir_multiple = None, ir_max_payout = None, ir_claims_weekly = None,
       ir_claimable_days_weekly = None, ir_claim_window = None, ir_waiting_days = None, ir_ranges = []\<rparr>)"

definition transaction_reference :: "insurance_resolution \<Rightarrow> insurance_resolution" where
  "transaction_reference r = (let p = transaction_preset_of (ir_tier r) in
     r\<lparr>ir_reimbursement := Some (tp_reimbursement p), ir_multiple := Some (tp_multiple p),
       ir_max_payout := map_option (\<lambda>q. money (dmul q (tp_multiple p))) (ir_period_premium r),
       ir_claims_weekly := Some (tp_claims p), ir_claim_window := Some (tp_window p),
       ir_ranges := [(''reimbursement_pct'', range_of ''reimbursement_pct''), (''payout_multiple'', range_of ''payout_multiple''),
         (''claims_per_week'', range_of ''claims_per_week''), (''claim_window_days'', range_of ''transaction_claim_window_days''),
         (''premium_rate'', premium_band (ir_mode r))]\<rparr>)"

definition productivity_reference :: "insurance_resolution \<Rightarrow> insurance_resolution" where
  "productivity_reference r = (case productivity_preset_of (ir_tier r) of (pct, multiple, days) \<Rightarrow>
     r\<lparr>ir_reimbursement := Some pct, ir_multiple := Some multiple,
       ir_max_payout := map_option (\<lambda>q. money (dmul q multiple)) (ir_period_premium r),
       ir_claimable_days_weekly := Some days,
       ir_ranges := [(''reimbursement_pct'', range_of ''reimbursement_pct''), (''payout_multiple'', range_of ''payout_multiple''),
         (''claimable_days_per_week'', range_of ''claimable_days_per_week''), (''premium_rate'', premium_band (ir_mode r))]\<rparr>)"

definition non_monetary_reference :: "insurance_resolution \<Rightarrow> insurance_resolution" where
  "non_monetary_reference r = (case non_monetary_preset_of (ir_tier r) of (claims, wait) \<Rightarrow>
     r\<lparr>ir_claims_weekly := Some claims, ir_waiting_days := Some wait,
       ir_ranges := [(''claims_per_week'', range_of ''claims_per_week''),
         (''waiting_period_days'', range_of ''non_monetary_waiting_period_days''), (''premium_rate'', premium_band (ir_mode r))]\<rparr>)"

definition resolve_insurance ::
    "(string option \<Rightarrow> economic_base) \<Rightarrow> string option \<Rightarrow> string option \<Rightarrow> string option \<Rightarrow> string option \<Rightarrow> int option
       \<Rightarrow> rat option \<Rightarrow> string option \<Rightarrow> econ_error + insurance_resolution" where
  "resolve_insurance base class_id product tier period days cwi mode =
     rbind (normalize_product product) (\<lambda>p.
     rbind (normalize_tier tier) (\<lambda>t.
     (case econ_inputs base class_id cwi mode of (c, m) \<Rightarrow>
     rbind (coverage_week_equivalent period days) (\<lambda>weeks.
     rbind (recommended_premium_rate (Some m) (Some t)) (\<lambda>rate.
       let r = insurance_reference p t m c weeks rate in
       Inr (if p = ''TRANSACTION'' then transaction_reference r
            else if p = ''PRODUCTIVITY'' then productivity_reference r else non_monetary_reference r))))))"

section \<open>Savings\<close>

definition savings_rate :: "string \<Rightarrow> rat" where
  "savings_rate mode = ratio (policy_ratios (Some mode) ''savings_weekly'') ''target''"

definition min_doubling_years :: "string \<Rightarrow> rat" where
  "min_doubling_years mode = (if mode = ''tight'' then 6 else if mode = ''comfortable'' then 2 else 4)"

definition savings_days_per_year :: rat where "savings_days_per_year = 365"

definition compounds_per_year :: "string \<Rightarrow> rat option" where
  "compounds_per_year freq = (if freq = ''daily'' then Some savings_days_per_year else if freq = ''weekly'' then Some 52
     else if freq = ''monthly'' then Some 12 else None)"

text \<open>\<open>pow2 x\<close> stands for \<^verbatim>\<open>Decimal("2") ** x\<close>, which the standard library rounds to the context.\<close>

definition max_lawful_annual_rate :: "(rat \<Rightarrow> rat) \<Rightarrow> string option \<Rightarrow> string option \<Rightarrow> econ_error + rat" where
  "max_lawful_annual_rate pow2 mode frequency =
     (let t = min_doubling_years (normalize_mode mode); freq = norm_lower frequency ''never'' in
      if freq = ''never'' then Inr (ddiv 1 t)
      else (case compounds_per_year freq of
          None \<Rightarrow> Inl (EconValue ''Unsupported compound_frequency'')
        | Some n \<Rightarrow> Inr (dmul n (dadd (pow2 (ddiv 1 (dmul n t))) (- 1)))))"

record savings_resolution =
  sr_mode :: string
  sr_cwi :: "rat option"
  sr_frequency :: string
  sr_rate :: rat
  sr_weekly_target :: "rat option"
  sr_doubling_years :: rat
  sr_max_annual_rate :: rat
  sr_max_apy_percent :: rat

definition quantize4 :: "rat \<Rightarrow> rat" where "quantize4 x = of_int (half_up (x * 10 ^ 4)) / 10 ^ 4"

definition resolve_savings ::
    "(rat \<Rightarrow> rat) \<Rightarrow> (string option \<Rightarrow> economic_base) \<Rightarrow> string option \<Rightarrow> string option \<Rightarrow> rat option \<Rightarrow> string option
       \<Rightarrow> econ_error + savings_resolution" where
  "resolve_savings pow2 base class_id frequency cwi mode =
     (case econ_inputs base class_id cwi mode of (c, m) \<Rightarrow>
      let freq = norm_lower frequency ''never'' in
      if freq \<notin> {''never'', ''daily'', ''weekly'', ''monthly''} then Inl (EconValue ''Unsupported compound_frequency'')
      else rbind (max_lawful_annual_rate pow2 (Some m) (Some freq)) (\<lambda>rate.
        Inr \<lparr>sr_mode = m, sr_cwi = c, sr_frequency = freq, sr_rate = savings_rate m,
          sr_weekly_target = map_option (\<lambda>c. money (dmul c (savings_rate m))) c,
          sr_doubling_years = min_doubling_years m, sr_max_annual_rate = rate,
          sr_max_apy_percent = quantize4 (dmul rate 100)\<rparr>))"

section \<open>Daily accrual\<close>

record accrual_day =
  ad_balance :: rat
  ad_rate :: "rat option"
  ad_capitalizes :: bool

definition savings_compounding :: "string option \<Rightarrow> string option \<Rightarrow> econ_error + string" where
  "savings_compounding calculation frequency =
     (let freq = norm_lower frequency ''never'' in
      if freq \<notin> {''never'', ''daily'', ''weekly'', ''monthly''} then Inl (EconValue ''Unsupported compound_frequency'')
      else Inr (if norm_lower calculation ''simple'' = ''simple'' then ''never'' else freq))"

text \<open>One day: \<open>accrued\<close> and \<open>capitalized\<close> before it, and after it.\<close>

definition accrue_day :: "string \<Rightarrow> accrual_day \<Rightarrow> rat \<times> rat \<Rightarrow> rat \<times> rat" where
  "accrue_day compounding d st =
     (let (accrued, before) = st; capitalized = (if ad_capitalizes d then accrued else before) in
      case ad_rate d of
        None \<Rightarrow> (accrued, capitalized)
      | Some rate \<Rightarrow>
          if rate \<le> 0 then (accrued, capitalized)
          else (let earning = (if compounding = ''never'' then ad_balance d
                     else if compounding = ''daily'' then dadd (ad_balance d) accrued
                     else dadd (ad_balance d) capitalized)
                in (if 0 < earning then dadd accrued (ddiv (dmul earning rate) savings_days_per_year) else accrued,
                    capitalized)))"

definition accrue_daily_interest :: "accrual_day list \<Rightarrow> string option \<Rightarrow> string option \<Rightarrow> econ_error + rat" where
  "accrue_daily_interest days calculation frequency =
     rbind (savings_compounding calculation frequency) (\<lambda>compounding.
       Inr (fst (fold (accrue_day compounding) days (0, 0))))"

definition credit_savings_interest :: "rat option \<Rightarrow> rat" where
  "credit_savings_interest accrued = (case accrued of None \<Rightarrow> 0 | Some a \<Rightarrow> if a \<le> 0 then 0 else money a)"

section \<open>Projection\<close>

record projected_day =
  pd_balance :: "rat option"
  pd_rate :: "rat option"
  pd_capitalizes :: bool

definition projected_accrual_day :: "rat \<Rightarrow> projected_day \<Rightarrow> accrual_day" where
  "projected_accrual_day balance d = \<lparr>ad_balance = (case pd_balance d of None \<Rightarrow> balance | Some b \<Rightarrow> b),
     ad_rate = pd_rate d, ad_capitalizes = pd_capitalizes d\<rparr>"

text \<open>One payout window: the balance after the interest the payout would post.\<close>

definition after_payout :: "string option \<Rightarrow> string option \<Rightarrow> projected_day list \<Rightarrow> rat \<Rightarrow> econ_error + rat" where
  "after_payout calculation frequency window balance =
     rbind (accrue_daily_interest (map (projected_accrual_day balance) window) calculation frequency) (\<lambda>a.
       Inr (money (dadd balance (credit_savings_interest (Some a)))))"

fun after_windows :: "string option \<Rightarrow> string option \<Rightarrow> projected_day list list \<Rightarrow> rat \<Rightarrow> econ_error + rat list" where
  "after_windows calculation frequency [] balance = Inr [balance]"
| "after_windows calculation frequency (w # ws) balance =
     rbind (after_payout calculation frequency w balance) (\<lambda>b.
     rbind (after_windows calculation frequency ws b) (\<lambda>bs. Inr (balance # bs)))"

definition project_savings_balances ::
    "rat \<Rightarrow> projected_day list list \<Rightarrow> nat list \<Rightarrow> string option \<Rightarrow> string option \<Rightarrow> econ_error + rat list" where
  "project_savings_balances posted windows checkpoints calculation frequency =
     rbind (after_windows calculation frequency windows (money posted)) (\<lambda>after.
       Inr (money posted # map (\<lambda>count. after ! min count (length windows)) checkpoints))"

section \<open>Overdraft fines\<close>

definition progressive_fine_tiers :: "string \<Rightarrow> rat list" where
  "progressive_fine_tiers mode = (if mode = ''tight'' then [7/100, 125/1000, 18/100]
     else if mode = ''comfortable'' then [4/100, 8/100, 12/100] else [5/100, 10/100, 15/100])"

record overdraft_fine_resolution =
  fr_mode :: string
  fr_cwi :: "rat option"
  fr_rate_lower :: rat
  fr_rate_upper :: rat
  fr_flat_lower :: "rat option"
  fr_flat_upper :: "rat option"
  fr_progressive_rates :: "rat list"
  fr_progressive_fees :: "rat list option"

definition resolve_overdraft_fine ::
    "(string option \<Rightarrow> economic_base) \<Rightarrow> string option \<Rightarrow> rat option \<Rightarrow> string option \<Rightarrow> overdraft_fine_resolution" where
  "resolve_overdraft_fine base class_id cwi mode =
     (case econ_inputs base class_id cwi mode of (c, m) \<Rightarrow>
      let band = policy_ratios (Some m) ''fine_weekly''; lower = ratio band ''min''; upper = ratio band ''max'';
          tiers = progressive_fine_tiers m
      in \<lparr>fr_mode = m, fr_cwi = c, fr_rate_lower = lower, fr_rate_upper = upper,
          fr_flat_lower = map_option (\<lambda>c. money (dmul c lower)) c, fr_flat_upper = map_option (\<lambda>c. money (dmul c upper)) c,
          fr_progressive_rates = tiers, fr_progressive_fees = map_option (\<lambda>c. map (\<lambda>r. money (dmul c r)) tiers) c\<rparr>)"

end
