(* ===== verification/Economic_Claims.thy ===== *)
theory Economic_Claims
  imports Economic_Engine
begin

text \<open>
  What the Economic Engine of \<^verbatim>\<open>Economic_Engine\<close> guarantees: insurance tiers keep their order, the engine and the
  policy pages agree on a band, compounding more often never pays less, and simple interest at the recommended
  ceiling does not double savings before the mode's minimum doubling time.
\<close>

section \<open>Insurance tiers\<close>

definition tier_rank :: "string \<Rightarrow> nat" where
  "tier_rank t = (if t = ''basic'' then 0 else if t = ''single'' then 1 else if t = ''mid'' then 2 else 3)"

lemma premium_rate_value:
  "recommended_premium_rate (Some m) (Some t) = Inr rate \<Longrightarrow> norm_lower (Some t) ''single'' = t \<Longrightarrow>
     rate = (if tier_rank t = 0 then fst (premium_band (normalize_mode (Some m)))
             else if tier_rank t = 3 then snd (premium_band (normalize_mode (Some m)))
             else ddiv (dadd (fst (premium_band (normalize_mode (Some m)))) (snd (premium_band (normalize_mode (Some m))))) 2)"
  by (auto simp: recommended_premium_rate_def normalize_tier_def tier_rank_def Let_def split: if_splits prod.splits)

lemma premium_midpoints:
  "ddiv (dadd (3/50) (7/50)) 2 = 1/10" "ddiv (dadd (1/20) (3/25)) 2 = 17/200" "ddiv (dadd (1/25) (1/10)) 2 = 7/100"
  by code_simp+

lemma premium_rate_ordered:
  assumes "recommended_premium_rate (Some m) (Some t) = Inr a" "recommended_premium_rate (Some m) (Some t') = Inr b"
    and "norm_lower (Some t) ''single'' = t" "norm_lower (Some t') ''single'' = t'" "tier_rank t \<le> tier_rank t'"
  shows "0 \<le> a" "a \<le> b"
proof -
  have band: "premium_band (normalize_mode (Some m)) \<in> {(6/100, 14/100), (4/100, 10/100), (5/100, 12/100)}"
    by (simp add: premium_band_def)
  have r: "tier_rank t \<in> {0, 1, 2, 3}" "tier_rank t' \<in> {0, 1, 2, 3}" by (auto simp: tier_rank_def)
  show "0 \<le> a" "a \<le> b"
    unfolding premium_rate_value [OF assms(1,3)] premium_rate_value [OF assms(2,4)]
    using band r assms(5) by (auto simp: premium_midpoints)
qed

lemma normalize_tier_idem:
  assumes "normalize_tier tier = Inr t"
  shows "norm_lower (Some t) ''single'' = t" "t \<in> {''single'', ''basic'', ''mid'', ''premium''}"
proof -
  show t: "t \<in> {''single'', ''basic'', ''mid'', ''premium''}"
    using assms by (auto simp: normalize_tier_def Let_def split: if_splits)
  have n: "norm_lower (Some ''single'') ''single'' = ''single''" "norm_lower (Some ''basic'') ''single'' = ''basic''"
    "norm_lower (Some ''mid'') ''single'' = ''mid''" "norm_lower (Some ''premium'') ''single'' = ''premium''"
    by code_simp+
  from t n show "norm_lower (Some t) ''single'' = t" by auto
qed

definition option_le :: "'a :: order option \<Rightarrow> 'a option \<Rightarrow> bool" where
  "option_le a b = (case (a, b) of (Some x, Some y) \<Rightarrow> x \<le> y | (None, None) \<Rightarrow> True | _ \<Rightarrow> False)"

lemma option_le_simps [simp]:
  "option_le (Some x) (Some y) = (x \<le> y)" "option_le None None" "\<not> option_le (Some x) None" "\<not> option_le None (Some x)"
  by (simp_all add: option_le_def)

lemma option_le_map: "option_le a b \<Longrightarrow> (\<And>x y. x \<le> y \<Longrightarrow> a = Some x \<Longrightarrow> b = Some y \<Longrightarrow> f x \<le> g y) \<Longrightarrow> option_le (map_option f a) (map_option g b)"
  by (cases a; cases b) auto

lemma reference_ordered:
  assumes "0 \<le> a" "a \<le> b" "0 \<le> weeks" "\<And>c. cwi = Some c \<Longrightarrow> 0 \<le> c"
  shows "option_le (ir_weekly_premium (insurance_reference p t m cwi weeks a)) (ir_weekly_premium (insurance_reference p t' m cwi weeks b))"
    "option_le (ir_period_premium (insurance_reference p t m cwi weeks a)) (ir_period_premium (insurance_reference p t' m cwi weeks b))"
    "ir_period_premium (insurance_reference p t m cwi weeks a) = Some x \<Longrightarrow> 0 \<le> x"
proof -
  have w: "money (dmul c a) \<le> money (dmul c b)" "0 \<le> money (dmul c a)" if "cwi = Some c" for c
    using assms(1,2) assms(4) [OF that] by (auto intro!: money_mono money_nonneg dmul_mono dmul_nonneg)
  then have p: "money (dmul (money (dmul c a)) weeks) \<le> money (dmul (money (dmul c b)) weeks)" if "cwi = Some c" for c
    using w [OF that] by (intro money_mono dmul_mono [OF w(1) [OF that] order.refl _ assms(3)]) linarith
  show "option_le (ir_weekly_premium (insurance_reference p t m cwi weeks a)) (ir_weekly_premium (insurance_reference p t' m cwi weeks b))"
    "option_le (ir_period_premium (insurance_reference p t m cwi weeks a)) (ir_period_premium (insurance_reference p t' m cwi weeks b))"
    using w p by (cases cwi; simp add: insurance_reference_def)+
  assume "ir_period_premium (insurance_reference p t m cwi weeks a) = Some x"
  with w assms(3) show "0 \<le> x"
    by (cases cwi) (auto simp: insurance_reference_def intro!: money_nonneg dmul_nonneg)
qed

lemma resolve_insurance_shape:
  assumes "resolve_insurance base class_id product tier period days cwi mode = Inr r"
  obtains p t c m weeks rate where "normalize_product product = Inr p" "normalize_tier tier = Inr t"
    "econ_inputs base class_id cwi mode = (c, m)" "coverage_week_equivalent period days = Inr weeks"
    "recommended_premium_rate (Some m) (Some t) = Inr rate"
    "r = (if p = ''TRANSACTION'' then transaction_reference (insurance_reference p t m c weeks rate)
          else if p = ''PRODUCTIVITY'' then productivity_reference (insurance_reference p t m c weeks rate)
          else non_monetary_reference (insurance_reference p t m c weeks rate))"
proof -
  obtain c m where e: "econ_inputs base class_id cwi mode = (c, m)" by fastforce
  from assms obtain p where p: "normalize_product product = Inr p" by (auto simp: resolve_insurance_def res_simps)
  from assms obtain t where t: "normalize_tier tier = Inr t" by (auto simp: resolve_insurance_def res_simps)
  from assms e t obtain w where w: "coverage_week_equivalent period days = Inr w" by (auto simp: resolve_insurance_def res_simps)
  from assms e t w obtain a where a: "recommended_premium_rate (Some m) (Some t) = Inr a" by (auto simp: resolve_insurance_def res_simps)
  show thesis by (rule that [OF p t e w a]) (use assms p t e w a in \<open>simp add: resolve_insurance_def Let_def\<close>)
qed

lemma reference_fields [simp]:
  "ir_tier (insurance_reference p t m c w a) = t" "ir_cwi (insurance_reference p t m c w a) = c"
  "ir_mode (insurance_reference p t m c w a) = m" "ir_product (insurance_reference p t m c w a) = p"
  "ir_claims_weekly (insurance_reference p t m c w a) = None" "ir_reimbursement (insurance_reference p t m c w a) = None"
  "ir_max_payout (insurance_reference p t m c w a) = None" "ir_claimable_days_weekly (insurance_reference p t m c w a) = None"
  "ir_waiting_days (insurance_reference p t m c w a) = None" "ir_multiple (insurance_reference p t m c w a) = None"
  by (simp_all add: insurance_reference_def Let_def)

lemma product_fields [simp]:
  "ir_weekly_premium (transaction_reference r) = ir_weekly_premium r" "ir_period_premium (transaction_reference r) = ir_period_premium r"
  "ir_weekly_premium (productivity_reference r) = ir_weekly_premium r" "ir_period_premium (productivity_reference r) = ir_period_premium r"
  "ir_weekly_premium (non_monetary_reference r) = ir_weekly_premium r" "ir_period_premium (non_monetary_reference r) = ir_period_premium r"
  "ir_tier (transaction_reference r) = ir_tier r" "ir_tier (productivity_reference r) = ir_tier r" "ir_tier (non_monetary_reference r) = ir_tier r"
  "ir_cwi (transaction_reference r) = ir_cwi r" "ir_cwi (productivity_reference r) = ir_cwi r" "ir_cwi (non_monetary_reference r) = ir_cwi r"
  by (simp_all add: transaction_reference_def productivity_reference_def non_monetary_reference_def Let_def split: prod.splits)

text \<open>The presets grow with the tier.\<close>

definition presets_le :: "string \<Rightarrow> string \<Rightarrow> bool" where
  "presets_le t t' = (tp_reimbursement (transaction_preset_of t) \<le> tp_reimbursement (transaction_preset_of t')
     \<and> tp_multiple (transaction_preset_of t) \<le> tp_multiple (transaction_preset_of t') \<and> 0 \<le> tp_multiple (transaction_preset_of t)
     \<and> tp_claims (transaction_preset_of t) \<le> tp_claims (transaction_preset_of t')
     \<and> fst (productivity_preset_of t) \<le> fst (productivity_preset_of t')
     \<and> fst (snd (productivity_preset_of t)) \<le> fst (snd (productivity_preset_of t')) \<and> 0 \<le> fst (snd (productivity_preset_of t))
     \<and> snd (snd (productivity_preset_of t)) \<le> snd (snd (productivity_preset_of t'))
     \<and> fst (non_monetary_preset_of t) \<le> fst (non_monetary_preset_of t')
     \<and> snd (non_monetary_preset_of t') \<le> snd (non_monetary_preset_of t))"

lemma presets_ordered:
  assumes "t \<in> {''single'', ''basic'', ''mid'', ''premium''}" "t' \<in> {''single'', ''basic'', ''mid'', ''premium''}"
    and "tier_rank t \<le> tier_rank t'"
  shows "presets_le t t'"
proof -
  have "\<forall>t \<in> set [''single'', ''basic'', ''mid'', ''premium'']. \<forall>t' \<in> set [''single'', ''basic'', ''mid'', ''premium''].
      tier_rank t \<le> tier_rank t' \<longrightarrow> presets_le t t'" by code_simp
  with assms show ?thesis by (simp only: list.set)
qed

text \<open>
  A better insurance tier is never worth less and never costs less: for one product, mode, coverage period and wage
  index, moving up from basic to single, mid and premium never lowers the premium, the reimbursement, the payout ceiling
  or the claims allowance, and never lengthens the waiting period.
\<close>

theorem insurance_tiers_are_ordered:
  assumes r: "resolve_insurance base class_id product tier period days cwi mode = Inr r"
    and r': "resolve_insurance base class_id product tier' period days cwi mode = Inr r'"
    and le: "tier_rank (ir_tier r) \<le> tier_rank (ir_tier r')" and c: "\<And>c. ir_cwi r = Some c \<Longrightarrow> 0 \<le> c"
  shows "option_le (ir_weekly_premium r) (ir_weekly_premium r') \<and> option_le (ir_period_premium r) (ir_period_premium r')
    \<and> option_le (ir_reimbursement r) (ir_reimbursement r') \<and> option_le (ir_max_payout r) (ir_max_payout r')
    \<and> option_le (ir_claims_weekly r) (ir_claims_weekly r') \<and> option_le (ir_claimable_days_weekly r) (ir_claimable_days_weekly r')
    \<and> option_le (ir_waiting_days r') (ir_waiting_days r)"
proof -
  obtain p t m cw weeks a where R: "normalize_product product = Inr p" "normalize_tier tier = Inr t"
    "econ_inputs base class_id cwi mode = (cw, m)" "coverage_week_equivalent period days = Inr weeks"
    "recommended_premium_rate (Some m) (Some t) = Inr a"
    and re: "r = (if p = ''TRANSACTION'' then transaction_reference (insurance_reference p t m cw weeks a)
          else if p = ''PRODUCTIVITY'' then productivity_reference (insurance_reference p t m cw weeks a)
          else non_monetary_reference (insurance_reference p t m cw weeks a))"
    by (rule resolve_insurance_shape [OF r])
  obtain t' b where R': "normalize_tier tier' = Inr t'" "recommended_premium_rate (Some m) (Some t') = Inr b"
    and re': "r' = (if p = ''TRANSACTION'' then transaction_reference (insurance_reference p t' m cw weeks b)
          else if p = ''PRODUCTIVITY'' then productivity_reference (insurance_reference p t' m cw weeks b)
          else non_monetary_reference (insurance_reference p t' m cw weeks b))"
    by (rule resolve_insurance_shape [OF r']) (use R in auto)
  note n = normalize_tier_idem [OF R(2)] and n' = normalize_tier_idem [OF R'(1)]
  have le': "tier_rank t \<le> tier_rank t'" and c': "\<And>c. cw = Some c \<Longrightarrow> 0 \<le> c"
    using le c unfolding re re' by (simp_all split: if_splits)
  have w: "0 \<le> weeks" using R(4) by (auto simp: coverage_week_equivalent_def split: option.splits if_splits intro!: ddiv_nonneg)
  note ab = premium_rate_ordered [OF R(5) R'(2) n(1) n'(1) le'] and pre = presets_ordered [OF n(2) n'(2) le', unfolded presets_le_def]
  note o = reference_ordered(1,2) [OF ab w, where cwi = cw and p = p and t = t and m = m and t' = t', OF c']
    and o3 = reference_ordered(3) [OF ab w, where cwi = cw and p = p and t = t and m = m, OF c']
  have pay: "option_le (map_option (\<lambda>q. money (dmul q x)) (ir_period_premium (insurance_reference p t m cw weeks a)))
      (map_option (\<lambda>q. money (dmul q y)) (ir_period_premium (insurance_reference p t' m cw weeks b)))" if "0 \<le> x" "x \<le> y" for x y
  proof (rule option_le_map [OF o(2)])
    fix u v assume uv: "u \<le> v" "ir_period_premium (insurance_reference p t m cw weeks a) = Some u"
    then have "0 \<le> v" using o3 [OF _ uv(2)] by simp
    then show "money (dmul u x) \<le> money (dmul v y)" using uv(1) that by (intro money_mono dmul_mono) auto
  qed
  consider "p = ''TRANSACTION''" | "p = ''PRODUCTIVITY''" | "p \<noteq> ''TRANSACTION''" "p \<noteq> ''PRODUCTIVITY''" by blast
  then show ?thesis
  proof cases
    case 1
    show ?thesis unfolding re re' using 1 o(1,2) pre pay [of "tp_multiple (transaction_preset_of t)" "tp_multiple (transaction_preset_of t')"]
      by (simp add: transaction_reference_def Let_def)
  next
    case 2
    show ?thesis unfolding re re' using 2 o(1,2) pre pay [of "fst (snd (productivity_preset_of t))" "fst (snd (productivity_preset_of t'))"]
      by (auto simp: productivity_reference_def split: prod.splits)
  next
    case 3
    show ?thesis unfolding re re' using 3 o(1,2) pre by (auto simp: non_monetary_reference_def split: prod.splits)
  qed
qed

definition example_insurance :: "string \<Rightarrow> econ_error + insurance_resolution" where
  "example_insurance tier = resolve_insurance (resolve_base [] [] 0) None (Some ''transaction'') (Some tier)
     (Some ''monthly'') (Some 28) (Some 300) (Some ''tight'')"

lemma insurance_tiers_are_ordered_witness:
  "\<exists>r r'. example_insurance ''Basic'' = Inr r \<and> example_insurance ''premium'' = Inr r'
     \<and> option_le (ir_period_premium r) (ir_period_premium r') \<and> option_le (ir_max_payout r) (ir_max_payout r')"
proof -
  have "case (example_insurance ''Basic'', example_insurance ''premium'') of
      (Inr r, Inr r') \<Rightarrow> tier_rank (ir_tier r) \<le> tier_rank (ir_tier r') \<and> ir_cwi r = Some 300 | _ \<Rightarrow> False"
    by code_simp
  then obtain r r' where r: "example_insurance ''Basic'' = Inr r" "example_insurance ''premium'' = Inr r'"
    "tier_rank (ir_tier r) \<le> tier_rank (ir_tier r')" "ir_cwi r = Some 300"
    by (auto split: sum.splits)
  from r(4) have "\<And>c. ir_cwi r = Some c \<Longrightarrow> 0 \<le> c" by auto
  from insurance_tiers_are_ordered [OF r(1,2) [unfolded example_insurance_def] r(3) this] r show ?thesis by auto
qed

section \<open>One band, two readers\<close>

text \<open>
  The engine's overdraft reference and the policy page show the same money: for a wage index in cents, the flat
  fee bounds the engine resolves are exactly the weekly fine band of \<^verbatim>\<open>scale_band\<close>, in every mode.
\<close>

theorem fine_reference_is_the_policy_band:
  assumes "econ_inputs base class_id cwi mode = (Some (of_cents c), m)"
    and "fr = resolve_overdraft_fine base class_id cwi mode"
    and "band = scale_band (Some (of_cents c)) (policy_ratios (Some m) ''fine_weekly'') 1"
  shows "fr_flat_lower fr = map_of band ''min'' \<and> fr_flat_upper fr = map_of band ''max''"
proof -
  obtain a b d where r: "policy_ratios (Some m) ''fine_weekly'' = [(''min'', a), (''max'', d), (''recommended'', b)]"
    using policy_band_values [of "''fine_weekly''" "Some m"] by auto
  show ?thesis
    unfolding assms(2,3) scale_band_lookup resolve_overdraft_fine_def assms(1)
    by (simp add: r ratio_def quantize_money_def dmul_def Let_def)
qed

lemma fine_reference_is_the_policy_band_witness:
  "\<exists>x. fr_flat_lower (resolve_overdraft_fine (resolve_base [] [] 0) None (Some (675/2)) (Some ''comfortable'')) = Some x
    \<and> map_of (scale_band (Some (675/2)) (policy_ratios (Some ''comfortable'') ''fine_weekly'') 1) ''min'' = Some x"
proof -
  have m: "normalize_mode (Some ''comfortable'') = ''comfortable''" by code_simp
  have e: "econ_inputs (resolve_base [] [] 0) None (Some (675/2)) (Some ''comfortable'') = (Some (of_cents 33750), ''comfortable'')"
    by (simp add: econ_inputs_def m of_cents_def)
  have c: "of_cents 33750 = 675/2" by (simp add: of_cents_def)
  from fine_reference_is_the_policy_band [OF e refl refl, unfolded c] show ?thesis
    unfolding resolve_overdraft_fine_def e by (simp add: Let_def) (metis (no_types))
qed

section \<open>Compounding\<close>

definition clean_day :: "accrual_day \<Rightarrow> bool" where
  "clean_day d = (ctx28 (ad_balance d) = ad_balance d)"

text \<open>The state of an accrual: what has joined the earning base is part of what has accrued.\<close>

definition accrual_ok :: "rat \<times> rat \<Rightarrow> bool" where
  "accrual_ok st = (0 \<le> snd st \<and> snd st \<le> fst st \<and> ctx28 (fst st) = fst st)"

lemma day_interest_nonneg: "0 < e \<Longrightarrow> 0 < r \<Longrightarrow> 0 \<le> ddiv (dmul e r) savings_days_per_year"
  by (simp add: savings_days_per_year_def ddiv_nonneg dmul_nonneg)

lemma accrued_grows: "ctx28 a = a \<Longrightarrow> 0 \<le> x \<Longrightarrow> a \<le> dadd a x"
  using ctx28_mono [of a "a + x"] by (simp add: dadd_def)

lemma accrue_day_ok:
  assumes "accrual_ok st"
  shows "accrual_ok (accrue_day cmp d st)" "fst st \<le> fst (accrue_day cmp d st)"
  using assms accrued_grows [of "fst st"] day_interest_nonneg
  by (auto simp: accrue_day_def accrual_ok_def Let_def dadd_def split: option.splits prod.splits intro: order_trans)

lemma accrue_days_ok: "accrual_ok st \<Longrightarrow> accrual_ok (fold (accrue_day cmp) ds st)"
  by (induction ds arbitrary: st) (simp_all only: fold.simps id_apply comp_apply accrue_day_ok)

text \<open>One day: a larger base earns at least as much.\<close>

lemma day_interest_mono: "e \<le> e' \<Longrightarrow> 0 < e \<Longrightarrow> 0 < r \<Longrightarrow>
    ddiv (dmul e r) savings_days_per_year \<le> ddiv (dmul e' r) savings_days_per_year"
  by (simp add: savings_days_per_year_def ddiv_mono dmul_mono)

definition earning_base :: "string \<Rightarrow> accrual_day \<Rightarrow> rat \<times> rat \<Rightarrow> rat" where
  "earning_base cmp d st = (if cmp = ''never'' then ad_balance d
     else if cmp = ''daily'' then dadd (ad_balance d) (fst st)
     else dadd (ad_balance d) (if ad_capitalizes d then fst st else snd st))"

lemma accrue_day_base:
  "fst (accrue_day cmp d st) = (case ad_rate d of None \<Rightarrow> fst st
     | Some r \<Rightarrow> if r \<le> 0 \<or> earning_base cmp d st \<le> 0 then fst st
         else dadd (fst st) (ddiv (dmul (earning_base cmp d st) r) savings_days_per_year))"
  by (auto simp: accrue_day_def earning_base_def Let_def split: option.splits prod.splits)

lemma accrue_day_mono:
  assumes "accrual_ok st" "accrual_ok st'" "fst st \<le> fst st'" "earning_base cmp d st \<le> earning_base cmp' d st'"
  shows "fst (accrue_day cmp d st) \<le> fst (accrue_day cmp' d st')"
proof (cases "\<exists>r. ad_rate d = Some r \<and> 0 < r \<and> 0 < earning_base cmp d st")
  case True
  then obtain r where r: "ad_rate d = Some r" "0 < r" "0 < earning_base cmp d st" by blast
  have "0 < earning_base cmp' d st'" using r(3) assms(4) by linarith
  then show ?thesis
    unfolding accrue_day_base using r assms(3) day_interest_mono [OF assms(4) r(3,2)] by (simp add: dadd_mono)
next
  case False
  then have "fst (accrue_day cmp d st) = fst st" unfolding accrue_day_base by (fastforce split: option.splits simp: not_le)
  with assms(3) accrue_day_ok(2) [OF assms(2), of cmp' d] show ?thesis by simp
qed

lemma earning_base_order:
  assumes "clean_day d" "accrual_ok st" "accrual_ok st'" "fst st \<le> fst st'"
  shows "periodic \<notin> {''never'', ''daily''} \<Longrightarrow> earning_base ''never'' d st \<le> earning_base periodic d st'"
    "periodic \<notin> {''never'', ''daily''} \<Longrightarrow> earning_base periodic d st \<le> earning_base ''daily'' d st'"
proof -
  have z: "ad_balance d \<le> dadd (ad_balance d) x" if "0 \<le> x" for x
    using assms(1) that by (simp add: clean_day_def accrued_grows)
  have o: "0 \<le> snd st'" "snd st' \<le> fst st'" "snd st \<le> fst st" using assms(2,3) by (auto simp: accrual_ok_def)
  show "periodic \<notin> {''never'', ''daily''} \<Longrightarrow> earning_base ''never'' d st \<le> earning_base periodic d st'"
    using o by (auto simp: earning_base_def intro!: z)
  show "periodic \<notin> {''never'', ''daily''} \<Longrightarrow> earning_base periodic d st \<le> earning_base ''daily'' d st'"
    using o assms(4) by (auto simp: earning_base_def intro!: dadd_mono)
qed

lemma accrual_order:
  assumes "\<forall>d \<in> set ds. clean_day d" "accrual_ok st" "accrual_ok st'" "fst st \<le> fst st'"
    and "(cmp, cmp') = (''never'', periodic) \<or> (cmp, cmp') = (periodic, ''daily'')" "periodic \<notin> {''never'', ''daily''}"
  shows "fst (fold (accrue_day cmp) ds st) \<le> fst (fold (accrue_day cmp') ds st')"
  using assms(1-4)
proof (induction ds arbitrary: st st')
  case (Cons d ds)
  have "earning_base cmp d st \<le> earning_base cmp' d st'"
    using earning_base_order [OF _ Cons.prems(2-4)] Cons.prems(1) assms(5,6) by auto
  then have "fst (accrue_day cmp d st) \<le> fst (accrue_day cmp' d st')"
    by (rule accrue_day_mono [OF Cons.prems(2-4)])
  with Cons show ?case by (auto intro: Cons.IH accrue_day_ok simp del: accrue_day_def)
qed simp

text \<open>
  Compounding more often never pays less: over the same days of a payout window, simple interest accrues at most
  what weekly or monthly compounding accrues, and that at most what daily compounding does, whatever the rates, the
  days on which interest joins the base, and days without interest or in debt.
\<close>

theorem compounding_never_pays_less:
  assumes "\<forall>d \<in> set days. clean_day d" "periodic \<in> {''weekly'', ''monthly''}"
  shows "\<exists>simple joined daily. accrue_daily_interest days None None = Inr simple
    \<and> accrue_daily_interest days (Some ''compound'') (Some periodic) = Inr joined
    \<and> accrue_daily_interest days (Some ''compound'') (Some ''daily'') = Inr daily
    \<and> 0 \<le> simple \<and> simple \<le> joined \<and> joined \<le> daily"
proof -
  have f: "savings_compounding None None = Inr ''never''" "savings_compounding (Some ''compound'') (Some periodic) = Inr periodic"
    "savings_compounding (Some ''compound'') (Some ''daily'') = Inr ''daily''"
  proof -
    have "savings_compounding (Some ''compound'') (Some ''weekly'') = Inr ''weekly''"
      "savings_compounding (Some ''compound'') (Some ''monthly'') = Inr ''monthly''" by code_simp+
    with assms(2) show "savings_compounding (Some ''compound'') (Some periodic) = Inr periodic" by auto
    show "savings_compounding None None = Inr ''never''"
      "savings_compounding (Some ''compound'') (Some ''daily'') = Inr ''daily''" by code_simp+
  qed
  have ok: "accrual_ok (0, 0)" by (simp add: accrual_ok_def)
  have p: "periodic \<notin> {''never'', ''daily''}" using assms(2) by auto
  have "0 \<le> fst (fold (accrue_day ''never'') days (0, 0))"
    using accrue_days_ok [OF ok, of "''never''" days] by (auto simp: accrual_ok_def)
  moreover have "fst (fold (accrue_day ''never'') days (0, 0)) \<le> fst (fold (accrue_day periodic) days (0, 0))"
    by (rule accrual_order [OF assms(1) ok ok]) (use p in auto)
  moreover have "fst (fold (accrue_day periodic) days (0, 0)) \<le> fst (fold (accrue_day ''daily'') days (0, 0))"
    by (rule accrual_order [OF assms(1) ok ok]) (use p in auto)
  ultimately show ?thesis unfolding accrue_daily_interest_def f by simp
qed

definition example_days :: "accrual_day list" where
  "example_days = [\<lparr>ad_balance = 100, ad_rate = Some (73/100), ad_capitalizes = False\<rparr>,
     \<lparr>ad_balance = 100, ad_rate = Some (73/100), ad_capitalizes = True\<rparr>]"

lemma compounding_never_pays_less_witness:
  "\<exists>simple joined daily. accrue_daily_interest example_days None None = Inr simple
    \<and> accrue_daily_interest example_days (Some ''compound'') (Some ''weekly'') = Inr joined
    \<and> accrue_daily_interest example_days (Some ''compound'') (Some ''daily'') = Inr daily \<and> simple \<le> joined \<and> joined \<le> daily"
proof -
  have c: "\<forall>d \<in> set example_days. clean_day d" by code_simp
  from compounding_never_pays_less [OF c, of "''weekly''"] show ?thesis by auto
qed

section \<open>The simple-interest ceiling\<close>

text \<open>One rounding of a nonnegative value adds at most the factor \<open>up1\<close>.\<close>

definition up1 :: rat where "up1 = 1 + 1 / 10 ^ 27"

lemma ctx28_upper:
  assumes "0 \<le> x"
  shows "ctx28 x \<le> x * up1"
proof (cases "x = 0")
  case False
  with assms have x: "0 < x" by simp
  let ?u = "ulp28 x"
  have "of_int (half_even (x / ?u)) \<le> x / ?u + 1/2" by (rule half_even_bounds)
  also have "\<dots> \<le> x / ?u + x / ?u / 10 ^ 27"
  proof -
    have "q + 1/2 \<le> q + q / 10 ^ 27" if "10 ^ 27 \<le> q" for q :: rat using that by simp
    with ulp28_scale(1) [OF x] show ?thesis by blast
  qed
  also have "\<dots> = (x * up1) / ?u" by (simp add: up1_def field_simps)
  finally have "of_int (half_even (x / ?u)) * ?u \<le> (x * up1) / ?u * ?u" by (intro mult_right_mono) (auto intro: less_imp_le)
  moreover have "?u \<noteq> 0" using ulp28_pos [of x] by linarith
  ultimately show ?thesis using x by (simp add: ctx28_def)
qed simp

lemma up1_pos: "0 < up1" "1 \<le> up1" by (simp_all add: up1_def)

lemma up1_power: "up1 ^ n * (1 - of_nat n / 10 ^ 27) \<le> 1"
proof (induction n)
  case (Suc n)
  have "up1 * (1 - of_nat (Suc n) / 10 ^ 27) \<le> 1 - of_nat n / 10 ^ 27"
    by (simp add: up1_def algebra_simps divide_simps)
  then have "up1 ^ n * (up1 * (1 - of_nat (Suc n) / 10 ^ 27)) \<le> up1 ^ n * (1 - of_nat n / 10 ^ 27)"
    using up1_pos by (intro mult_left_mono) auto
  with Suc show ?case by (simp add: mult.assoc mult.left_commute)
qed simp

lemma up1_power_bound: "n \<le> 2200 \<Longrightarrow> up1 ^ n \<le> 1 + 1 / 10 ^ 23"
proof -
  assume n: "n \<le> 2200"
  have "up1 ^ n * (1 - 2200 / 10 ^ 27) \<le> up1 ^ n * (1 - of_nat n / 10 ^ 27)"
    using n up1_pos by (intro mult_left_mono) (auto simp: divide_right_mono)
  also have "\<dots> \<le> 1" by (rule up1_power)
  finally have "up1 ^ n \<le> 1 / (1 - 2200 / 10 ^ 27)" by (simp add: pos_le_divide_eq)
  also have "\<dots> \<le> 1 + 1 / 10 ^ 23" by simp
  finally show ?thesis .
qed

lemma dmul_upper: "0 \<le> a \<Longrightarrow> 0 \<le> b \<Longrightarrow> dmul a b \<le> a * b * up1"
  by (simp add: dmul_def ctx28_upper)

lemma ddiv_upper: "0 \<le> a \<Longrightarrow> 0 < b \<Longrightarrow> ddiv a b \<le> a / b * up1"
  using ctx28_upper [of "a / b"] by (simp add: ddiv_def)

lemma dadd_upper: "0 \<le> a \<Longrightarrow> 0 \<le> b \<Longrightarrow> dadd a b \<le> (a + b) * up1"
  by (simp add: dadd_def ctx28_upper)

lemma day_interest_upper:
  assumes "0 < b" "b \<le> P" "0 < r" "r \<le> ddiv 1 t" "0 < t"
  shows "ddiv (dmul b r) savings_days_per_year \<le> P / (t * 365) * up1 ^ 3"
proof -
  have "r \<le> 1 / t * up1" using assms(4,5) ddiv_upper [of 1 t] by linarith
  then have "b * r \<le> P * (1 / t * up1)" using assms by (intro mult_mono) auto
  then have "b * r * up1 \<le> P * (1 / t * up1) * up1" using up1_pos by (intro mult_right_mono) auto
  with assms have "dmul b r \<le> P * (1 / t * up1) * up1" using dmul_upper [of b r] by linarith
  then have "dmul b r / 365 * up1 \<le> P * (1 / t * up1) * up1 / 365 * up1"
    using up1_pos by (intro mult_right_mono divide_right_mono) auto
  also have "\<dots> = P / (t * 365) * up1 ^ 3" by (simp add: power3_eq_cube)
  finally show ?thesis
    using ddiv_upper [of "dmul b r" 365] dmul_nonneg [of b r] assms by (simp add: savings_days_per_year_def)
qed

lemma simple_accrual_upper:
  assumes "\<forall>d \<in> set ds. ad_balance d \<le> P \<and> (\<forall>r. ad_rate d = Some r \<longrightarrow> r \<le> ddiv 1 t)" "0 < t" "0 \<le> P"
  shows "fst (fold (accrue_day ''never'') ds (0, 0)) \<le> of_nat (length ds) * (P / (t * 365) * up1 ^ 3) * up1 ^ length ds
    \<and> 0 \<le> fst (fold (accrue_day ''never'') ds (0, 0))"
  using assms(1)
proof (induction ds rule: rev_induct)
  case (snoc d ds)
  let ?st = "fold (accrue_day ''never'') ds (0, 0)" let ?i = "P / (t * 365) * up1 ^ 3" let ?n = "length ds"
  have i: "0 \<le> ?i" using assms(2,3) up1_pos by simp
  have IH: "fst ?st \<le> of_nat ?n * ?i * up1 ^ ?n" "0 \<le> fst ?st" using snoc by auto
  have grow: "of_nat ?n * ?i * up1 ^ ?n \<le> of_nat (Suc ?n) * ?i * up1 ^ Suc ?n"
  proof (rule mult_mono)
    show "of_nat ?n * ?i \<le> of_nat (Suc ?n) * ?i" using i by (intro mult_right_mono) auto
    show "up1 ^ ?n \<le> up1 ^ Suc ?n" using up1_pos by (intro power_increasing) auto
    show "0 \<le> of_nat (Suc ?n) * ?i" by (rule mult_nonneg_nonneg [OF of_nat_0_le_iff i])
    show "0 \<le> up1 ^ ?n" using up1_pos(1) by simp
  qed
  have "fst (accrue_day ''never'' d ?st) \<le> of_nat (Suc ?n) * ?i * up1 ^ Suc ?n \<and> 0 \<le> fst (accrue_day ''never'' d ?st)"
  proof (cases "\<exists>r. ad_rate d = Some r \<and> 0 < r \<and> 0 < ad_balance d")
    case True
    then obtain r where r: "ad_rate d = Some r" "0 < r" "0 < ad_balance d" by blast
    let ?x = "ddiv (dmul (ad_balance d) r) savings_days_per_year"
    have x: "?x \<le> ?i" "0 \<le> ?x"
      using day_interest_upper [OF r(3) _ r(2) _ assms(2), of P] day_interest_nonneg [OF r(3,2)] snoc.prems r(1) by auto
    have "dadd (fst ?st) ?x \<le> (fst ?st + ?x) * up1" using IH(2) x(2) by (rule dadd_upper)
    also have "\<dots> \<le> (of_nat ?n * ?i * up1 ^ ?n + ?i * up1 ^ ?n) * up1"
    proof (rule mult_right_mono [OF add_mono [OF IH(1)]])
      have "?i * 1 \<le> ?i * up1 ^ ?n" by (rule mult_left_mono [OF one_le_power [OF up1_pos(2)] i])
      with x(1) show "?x \<le> ?i * up1 ^ ?n" by linarith
    qed (use up1_pos in simp)
    also have "\<dots> = of_nat (Suc ?n) * ?i * up1 ^ Suc ?n" by (simp add: algebra_simps add_divide_distrib)
    finally show ?thesis using r IH(2) x(2) by (simp add: accrue_day_base earning_base_def dadd_nonneg)
  next
    case False
    then have "fst (accrue_day ''never'' d ?st) = fst ?st"
      by (fastforce simp: accrue_day_base earning_base_def not_le split: option.splits)
    with IH grow show ?thesis by linarith
  qed
  then show ?case by simp
qed simp

text \<open>
  C40. Simple interest stays below the opening amount. Under the default (simple) calculation, at any rate up to the
  engine's maximum for a mode, the interest accrued over at most the mode's minimum doubling time (365-day years) on daily
  balances that never exceed an opening amount is at most that amount, to the cent, with every Decimal rounding on the way
  accounted for. Balances that grow past the opening amount, as when credited interest joins them, are outside the claim.
\<close>

theorem simple_interest_stays_within_opening:
  assumes "max_lawful_annual_rate pow2 mode None = Inr rmax" "of_nat (length days) \<le> 365 * min_doubling_years (normalize_mode mode)"
    and "\<forall>d \<in> set days. ad_balance d \<le> of_cents p \<and> (\<forall>r. ad_rate d = Some r \<longrightarrow> r \<le> rmax)" "0 \<le> p" "p < 10 ^ 15"
    and "accrue_daily_interest days None frequency = Inr a"
  shows "credit_savings_interest (Some a) \<le> of_cents p"
proof -
  let ?t = "min_doubling_years (normalize_mode mode)" let ?n = "length days" let ?P = "of_cents p"
  have t: "?t \<in> {6, 4, 2}" "0 < ?t" by (auto simp: min_doubling_years_def)
  have n0: "norm_lower None ''never'' = ''never''" "norm_lower None ''simple'' = ''simple''" by code_simp+
  have rmax: "rmax = ddiv 1 ?t" using assms(1) n0 by (simp add: max_lawful_annual_rate_def)
  have a: "a = fst (fold (accrue_day ''never'') days (0, 0))"
    using assms(6) n0 by (auto simp: accrue_daily_interest_def savings_compounding_def Let_def res_simps split: if_splits)
  have P: "0 \<le> ?P" using assms(4) by simp
  have "a \<le> of_nat ?n * (?P / (?t * 365) * up1 ^ 3) * up1 ^ ?n"
    using simple_accrual_upper [OF _ t(2) P, of days] assms(3) unfolding a rmax by blast
  also have "\<dots> \<le> (365 * ?t) * (?P / (?t * 365) * up1 ^ 3) * up1 ^ ?n"
    using assms(2) P t(2) up1_pos by (intro mult_right_mono) auto
  also have "\<dots> = ?P * up1 ^ (?n + 3)" using t(2) by (simp add: power_add)
  also have "\<dots> \<le> ?P * (1 + 1 / 10 ^ 23)"
  proof -
    have "of_nat ?n \<le> (2190 :: rat)" using assms(2) t(1) by auto
    then have "?n + 3 \<le> 2200" by linarith
    from up1_power_bound [OF this] P show ?thesis by (intro mult_left_mono) auto
  qed
  also have "\<dots> \<le> ?P + 1 / 10 ^ 8"
  proof -
    have "?P \<le> 10 ^ 15" using assms(5) by (simp add: of_cents_def)
    then show ?thesis by (simp add: algebra_simps)
  qed
  finally have "a \<le> ?P + 1 / 10 ^ 8" .
  then have "money a \<le> money (?P + 1 / 10 ^ 8)" by (rule money_mono)
  also have "money (?P + 1 / 10 ^ 8) = ?P"
  proof -
    have "half_up (of_int p + 1 / 10 ^ 6) = p" using assms(4) by (simp add: half_up_def floor_eq_iff)
    moreover have "(?P + 1 / 10 ^ 8) * 100 = of_int p + 1 / 10 ^ 6" by (simp add: of_cents_def algebra_simps)
    ultimately show ?thesis by (simp only: money_def cents_up_def)
  qed
  finally show ?thesis using P by (simp add: credit_savings_interest_def)
qed

lemma simple_interest_stays_within_opening_witness:
  "\<exists>a. accrue_daily_interest (replicate 3 \<lparr>ad_balance = 100, ad_rate = Some (1/2), ad_capitalizes = False\<rparr>) None (Some ''daily'') = Inr a
     \<and> credit_savings_interest (Some a) \<le> of_cents 10000"
proof -
  let ?days = "replicate 3 \<lparr>ad_balance = 100, ad_rate = Some (1/2), ad_capitalizes = False\<rparr>"
  have m: "max_lawful_annual_rate (\<lambda>x. x) (Some ''comfortable'') None = Inr (1/2)" by code_simp
  have y: "of_nat (length ?days) \<le> 365 * min_doubling_years (normalize_mode (Some ''comfortable''))" by code_simp
  have "case accrue_daily_interest ?days None (Some ''daily'') of Inl e \<Rightarrow> False | Inr a \<Rightarrow> True" by code_simp
  then obtain a where a: "accrue_daily_interest ?days None (Some ''daily'') = Inr a" by (auto split: sum.splits)
  have d: "\<forall>d \<in> set ?days. ad_balance d \<le> of_cents 10000 \<and> (\<forall>r. ad_rate d = Some r \<longrightarrow> r \<le> 1/2)"
    by (auto simp: of_cents_def)
  from simple_interest_stays_within_opening [OF m y d _ _ a] a show ?thesis by auto
qed

end
