(* ===== verification/Class_Configuration.thy ===== *)
theory Class_Configuration
  imports Payroll_Settings
begin

text \<open>
  The remaining readers of \<^verbatim>\<open>app/services/class_configuration_query_service.py\<close>: pending Economic Engine
  versions, a version by its identity, the append-only feature timeline, the feature-anchored policy mode, and
  the advisory check of a pay rate. Results of a query are lists in the query's order; the primary key of
  \<^verbatim>\<open>class_features\<close> (class, feature, effective date) is the hypothesis \<open>features_unique\<close>.
\<close>

section \<open>Pending engine versions\<close>

fun first_per_start :: "int list \<Rightarrow> engine_version list \<Rightarrow> engine_version list" where
  "first_per_start seen [] = []"
| "first_per_start seen (v # vs) =
     (if eg_effective v \<in> set seen then first_per_start seen vs
      else v # first_per_start (eg_effective v # seen) vs)"

definition pending_economic_engines :: "engine_version list \<Rightarrow> string \<Rightarrow> int \<Rightarrow> engine_version list" where
  "pending_economic_engines versions c as_of =
     (if c = [] then []
      else first_per_start [] (sort_key (\<lambda>v. (eg_effective v, - eg_created v))
             (filter (\<lambda>v. eg_class v = c \<and> as_of < eg_effective v) versions)))"

definition get_economic_engine_by_version :: "engine_version list \<Rightarrow> string \<Rightarrow> string \<Rightarrow> engine_version option" where
  "get_economic_engine_by_version versions c vid = List.find (\<lambda>v. eg_id v = vid \<and> eg_class v = c) versions"

section \<open>The feature timeline\<close>

record class_feature =
  cf_class :: string
  cf_feature :: string
  cf_version :: "string option"
  cf_effective :: int

text \<open>
  \<^verbatim>\<open>get_class_features\<close>: the latest effective date of each feature at or before the instant (the grouped
  subquery), the rows joined to it, one row per feature, and of those the ones that link a version.
\<close>

definition max_effective_at :: "class_feature list \<Rightarrow> string \<Rightarrow> int \<Rightarrow> string \<Rightarrow> int option" where
  "max_effective_at rows c t f =
     (let es = map cf_effective (filter (\<lambda>r. cf_class r = c \<and> cf_effective r \<le> t \<and> cf_feature r = f) rows)
      in if es = [] then None else Some (foldr max es (hd es)))"

definition joined_features :: "class_feature list \<Rightarrow> string \<Rightarrow> int \<Rightarrow> class_feature list" where
  "joined_features rows c t =
     filter (\<lambda>r. cf_class r = c \<and> max_effective_at rows c t (cf_feature r) = Some (cf_effective r)) rows"

fun distinct_on_feature :: "string list \<Rightarrow> class_feature list \<Rightarrow> class_feature list" where
  "distinct_on_feature seen [] = []"
| "distinct_on_feature seen (r # rs) =
     (if cf_feature r \<in> set seen then distinct_on_feature seen rs
      else r # distinct_on_feature (cf_feature r # seen) rs)"

definition get_class_features :: "class_feature list \<Rightarrow> string \<Rightarrow> int \<Rightarrow> (string \<times> class_feature) list" where
  "get_class_features rows c t =
     filter (\<lambda>(f, r). cf_version r \<noteq> None)
       (map (\<lambda>r. (cf_feature r, r))
         (distinct_on_feature [] (sort_key (\<lambda>r. (cf_feature r, - cf_effective r)) (joined_features rows c t))))"

definition get_class_feature :: "class_feature list \<Rightarrow> string \<Rightarrow> string \<Rightarrow> int \<Rightarrow> class_feature option" where
  "get_class_feature rows c f t = map_of (get_class_features rows c t) f"

definition get_class_feature_history :: "class_feature list \<Rightarrow> string \<Rightarrow> string \<Rightarrow> class_feature list" where
  "get_class_feature_history rows c f = newest_first cf_effective (filter (\<lambda>r. cf_class r = c \<and> cf_feature r = f) rows)"

definition is_feature_enabled :: "class_feature list \<Rightarrow> string \<Rightarrow> string \<Rightarrow> int \<Rightarrow> bool" where
  "is_feature_enabled rows c f now = (get_class_feature rows c f now \<noteq> None)"

definition get_policy_mode :: "class_feature list \<Rightarrow> engine_version list \<Rightarrow> string \<Rightarrow> string \<Rightarrow> int \<Rightarrow> string option" where
  "get_policy_mode rows versions c f now =
     (if \<not> is_feature_enabled rows c f now then None
      else map_option eg_mode (economic_engine_effective_at versions c now))"

section \<open>Settings in use\<close>

text \<open>Rent and hall-pass policies: the newest row in use, the row id breaking a tie.\<close>

record policy_row =
  po_id :: nat
  po_class :: string
  po_in_use :: bool
  po_configured :: int

definition newest_in_use :: "policy_row list \<Rightarrow> string \<Rightarrow> policy_row option" where
  "newest_in_use rows c = first_row (newest_first (\<lambda>r. (po_configured r, po_id r)) (filter (\<lambda>r. po_class r = c \<and> po_in_use r) rows))"

section \<open>Advisory checks\<close>

definition max_hourly_pay_rate :: rat where "max_hourly_pay_rate = 100"
definition tight_mode_rate_warning :: rat where "tight_mode_rate_warning = 10"
definition comfortable_mode_rate_warning :: rat where "comfortable_mode_rate_warning = 5"

datatype rate_warning = NotPositive | AboveMaximum | TightHigh | ComfortableLow

definition validate_payroll_rate :: "rat \<Rightarrow> string \<Rightarrow> bool \<times> rate_warning option" where
  "validate_payroll_rate rate mode =
     (if rate \<le> 0 then (False, Some NotPositive)
      else if max_hourly_pay_rate < rate then (False, Some AboveMaximum)
      else if mode = ''tight'' \<and> tight_mode_rate_warning < rate then (True, Some TightHigh)
      else if mode = ''comfortable'' \<and> rate < comfortable_mode_rate_warning then (True, Some ComfortableLow)
      else (True, None))"

section \<open>The feature query is the version in force\<close>

interpretation feature_history: effective_history cf_effective cf_effective
  by unfold_locales

definition features_unique :: "class_feature list \<Rightarrow> bool" where
  "features_unique rows = distinct (map (\<lambda>r. (cf_class r, cf_feature r, cf_effective r)) rows)"

lemma foldr_max_member: "foldr max es x \<in> insert x (set es)" and foldr_max_upper: "e \<in> insert x (set es) \<Longrightarrow> e \<le> foldr max es (x :: int)"
  by (induction es) (auto simp: max_def)

lemma max_effective_at_Some:
  "max_effective_at rows c t f = Some e \<longleftrightarrow>
     (\<exists>r \<in> set rows. cf_class r = c \<and> cf_feature r = f \<and> cf_effective r = e \<and> e \<le> t)
     \<and> (\<forall>r \<in> set rows. cf_class r = c \<and> cf_feature r = f \<and> cf_effective r \<le> t \<longrightarrow> cf_effective r \<le> e)"
  (is "_ \<longleftrightarrow> ?R")
proof -
  define es where "es = map cf_effective (filter (\<lambda>r. cf_class r = c \<and> cf_effective r \<le> t \<and> cf_feature r = f) rows)"
  have r: "?R \<longleftrightarrow> e \<in> set es \<and> (\<forall>x \<in> set es. x \<le> e)" by (auto simp: es_def)
  show ?thesis
  proof (cases "es = []")
    case True
    then show ?thesis unfolding r by (simp add: max_effective_at_def es_def [symmetric] Let_def)
  next
    case False
    then have "hd es \<in> set es" by simp
    with foldr_max_member [of es "hd es"] foldr_max_upper [of _ "hd es" es]
    have "foldr max es (hd es) \<in> set es" "\<And>x. x \<in> set es \<Longrightarrow> x \<le> foldr max es (hd es)" by auto
    with False show ?thesis
      unfolding r by (auto simp: max_effective_at_def es_def [symmetric] Let_def intro: order_antisym)
  qed
qed

lemma distinct_on_feature_set:
  "set (distinct_on_feature seen rs) \<subseteq> {r \<in> set rs. cf_feature r \<notin> set seen}"
  "cf_feature ` set (distinct_on_feature seen rs) = cf_feature ` set rs - set seen"
  "distinct (map cf_feature (distinct_on_feature seen rs))"
  by (induction seen rs rule: distinct_on_feature.induct) auto

text \<open>
  Whether a feature is on, and under which version, is decided by the row in force: with one row per class, feature
  and effective date, the grouped and joined query returns exactly the latest row at or before the instant, and nothing
  when that row switches the feature off or none exists yet.
\<close>

theorem feature_query_is_the_row_in_force:
  assumes "features_unique rows"
  shows "get_class_feature rows c f t =
    (case in_force cf_effective cf_effective (filter (\<lambda>r. cf_class r = c \<and> cf_feature r = f) rows) t of
       None \<Rightarrow> None | Some r \<Rightarrow> if cf_version r = None then None else Some r)"
proof -
  let ?J = "joined_features rows c t" let ?F = "filter (\<lambda>r. cf_class r = c \<and> cf_feature r = f) rows"
  let ?D = "distinct_on_feature [] (sort_key (\<lambda>r. (cf_feature r, - cf_effective r)) ?J)"
  have inj: "inj_on (\<lambda>r. (cf_class r, cf_feature r, cf_effective r)) (set rows)"
    using assms by (simp add: features_unique_def distinct_map)
  then have injF: "inj_on cf_effective (set ?F)" by (auto simp: inj_on_def)
  have J: "r \<in> set ?J \<and> cf_feature r = f \<longleftrightarrow> in_force cf_effective cf_effective ?F t = Some r" for r
  proof
    assume r: "r \<in> set ?J \<and> cf_feature r = f"
    then have m: "cf_class r = c" "r \<in> set rows" "max_effective_at rows c t f = Some (cf_effective r)"
      by (auto simp: joined_features_def)
    show "in_force cf_effective cf_effective ?F t = Some r"
      by (rule feature_history.in_force_unique [OF injF]) (use m r in \<open>auto simp: max_effective_at_Some\<close>)
  next
    assume "in_force cf_effective cf_effective ?F t = Some r"
    note g = feature_history.in_force_greatest [OF this]
    then show "r \<in> set ?J \<and> cf_feature r = f"
      by (auto simp: joined_features_def max_effective_at_Some)
  qed
  have uniq: "r = r'" if "r \<in> set ?J" "r' \<in> set ?J" "cf_feature r = cf_feature r'" for r r'
    using that inj by (auto simp: joined_features_def dest: inj_onD)
  have D: "r \<in> set ?D \<longleftrightarrow> r \<in> set ?J" for r
  proof
    show "r \<in> set ?D \<Longrightarrow> r \<in> set ?J" using distinct_on_feature_set(1) by fastforce
    assume r: "r \<in> set ?J"
    then have "cf_feature r \<in> cf_feature ` set ?D" unfolding distinct_on_feature_set(2) by auto
    then obtain r' where r': "r' \<in> set ?D" "cf_feature r = cf_feature r'" by auto
    then have "r' \<in> set ?J" using distinct_on_feature_set(1) by fastforce
    with r' r uniq show "r \<in> set ?D" by metis
  qed
  have dist: "distinct (map fst (filter (\<lambda>(f, r). cf_version r \<noteq> None) (map (\<lambda>r. (cf_feature r, r)) ?D)))"
    using distinct_on_feature_set(3) by (simp add: filter_map o_def distinct_map_filter)
  have m: "map_of (get_class_features rows c t) f = Some r \<longleftrightarrow> r \<in> set ?J \<and> cf_feature r = f \<and> cf_version r \<noteq> None" for r
    unfolding get_class_features_def map_of_eq_Some_iff [OF dist] using D by auto
  show ?thesis
  proof (cases "get_class_feature rows c f t")
    case None
    with m J show ?thesis by (auto simp: get_class_feature_def split: option.splits) (metis option.distinct(1))
  next
    case (Some r)
    with m [of r] J [of r] show ?thesis by (auto simp: get_class_feature_def)
  qed
qed

lemma feature_query_is_the_row_in_force_witness:
  "get_class_feature [\<lparr>cf_class = ''A'', cf_feature = ''rent'', cf_version = Some ''v1'', cf_effective = 1\<rparr>,
     \<lparr>cf_class = ''A'', cf_feature = ''rent'', cf_version = None, cf_effective = 5\<rparr>] ''A'' ''rent'' 7 = None"
proof -
  let ?rows = "[\<lparr>cf_class = ''A'', cf_feature = ''rent'', cf_version = Some ''v1'', cf_effective = 1\<rparr>,
     \<lparr>cf_class = ''A'', cf_feature = ''rent'', cf_version = None, cf_effective = 5\<rparr>]"
  have u: "features_unique ?rows" by (simp add: features_unique_def)
  show ?thesis unfolding feature_query_is_the_row_in_force [OF u] by code_simp
qed

end
