(* ===== verification/Attendance.thy ===== *)
theory Attendance
  imports Payroll_Schedule
begin

text \<open>
  Attendance: the append-only rows of \<^verbatim>\<open>attendance_sessions\<close>, their canonical pairing into intervals
  (\<^verbatim>\<open>app/services/attendance_service.py\<close>) and the one writer (\<^verbatim>\<open>app/services/attendance_writer_service.py\<close>).
  A comparison under system-level evaluation is the comparison of the two instants (\<open>sle_later_than\<close> below);
  class-level day boundaries and elapsed durations go through the resolver, as in the code. The request-local
  cache of rows is transparent and not modelled.
\<close>

section \<open>Time\<close>

text \<open>Under system-level evaluation the order primitives compare instants, given the zone UTC.\<close>

lemma sle_order:
  assumes "pytz_zones env ''UTC'' = Some tz"
  shows "map_sum id ev_result (canonical_temporal_resolver env ''SLE'' None ''later_than'' None
      (no_kwargs\<lparr>kw_candidate := Some (Aware a), kw_reference := Some (Aware b)\<rparr>)) = Inr (RLater (b < a))"
    "map_sum id ev_result (canonical_temporal_resolver env ''SLE'' None ''earlier_than'' None
      (no_kwargs\<lparr>kw_candidate := Some (Aware a), kw_reference := Some (Aware b)\<rparr>)) = Inr (REarlier (a < b))"
    "map_sum id ev_result (canonical_temporal_resolver env ''SLE'' None ''same_instant'' None
      (no_kwargs\<lparr>kw_candidate := Some (Aware a), kw_reference := Some (Aware b)\<rparr>)) = Inr (RSame (a = b))"
proof -
  have d: "dispatch ''later_than'' = Some p_later_than" "dispatch ''earlier_than'' = Some p_earlier_than"
    "dispatch ''same_instant'' = Some p_same_instant" by (simp_all add: dispatch_def)
  show "map_sum id ev_result (canonical_temporal_resolver env ''SLE'' None ''later_than'' None
      (no_kwargs\<lparr>kw_candidate := Some (Aware a), kw_reference := Some (Aware b)\<rparr>)) = Inr (RLater (b < a))"
    "map_sum id ev_result (canonical_temporal_resolver env ''SLE'' None ''earlier_than'' None
      (no_kwargs\<lparr>kw_candidate := Some (Aware a), kw_reference := Some (Aware b)\<rparr>)) = Inr (REarlier (a < b))"
    "map_sum id ev_result (canonical_temporal_resolver env ''SLE'' None ''same_instant'' None
      (no_kwargs\<lparr>kw_candidate := Some (Aware a), kw_reference := Some (Aware b)\<rparr>)) = Inr (RSame (a = b))"
    using assms by (simp_all add: canonical_temporal_resolver_def d resolve_authority_def ensure_aware_utc_def
        p_later_than_def p_earlier_than_def p_same_instant_def no_kwargs_def)
qed

definition day_bounds :: "time_env \<Rightarrow> string \<Rightarrow> int \<Rightarrow> pay_error + (int \<times> int)" where
  "day_bounds env c t = rbind (cle env c ''evaluation_day_boundaries'' (Some (Aware t)) no_kwargs)
     (\<lambda>r. case r of RBounds s e \<Rightarrow> Inr (s, e) | _ \<Rightarrow> Inl PayAttribute)"

definition elapsed_attendance_seconds :: "time_env \<Rightarrow> string \<Rightarrow> (int \<times> int) list \<Rightarrow> pay_error + int" where
  "elapsed_attendance_seconds env c ivs =
     (if ivs = [] then Inr 0
      else rbind (cle env c ''elapsed_duration'' None
             (no_kwargs\<lparr>kw_intervals := map (\<lambda>(s, e). (Some (Aware s), Some (Aware e))) ivs\<rparr>))
           (\<lambda>r. case r of RElapsed n \<Rightarrow> Inr n | _ \<Rightarrow> Inl PayAttribute))"

definition shift_seconds :: "time_env \<Rightarrow> string \<Rightarrow> int \<Rightarrow> int \<Rightarrow> pay_error + int" where
  "shift_seconds env c t n = rbind (cle env c ''shift_timestamp'' None
     (no_kwargs\<lparr>kw_timestamp := Some (Aware t), kw_elapsed_seconds := Some (PInt n)\<rparr>))
     (\<lambda>r. case r of RShift u \<Rightarrow> Inr u | _ \<Rightarrow> Inl PayAttribute)"

section \<open>Rows and intervals\<close>

record att_row =
  ar_id :: nat
  ar_seat :: nat
  ar_actor :: nat
  ar_class :: string
  ar_mechanism :: string
  ar_status :: string
  ar_reason :: string
  ar_pass :: "string option"
  ar_time :: int

record att_interval =
  ai_open_id :: nat
  ai_close_id :: "nat option"
  ai_opened :: int
  ai_closed :: int
  ai_seconds :: int
  ai_open_mechanism :: string
  ai_close_mechanism :: "string option"
  ai_bounded :: bool

text \<open>\<^verbatim>\<open>_canonical_seat_rows\<close>: one seat's history in \<^verbatim>\<open>(timestamp, id)\<close> order.\<close>

definition canonical_seat_rows :: "att_row list \<Rightarrow> nat \<Rightarrow> string \<Rightarrow> att_row list" where
  "canonical_seat_rows rows seat c =
     sort_key (\<lambda>r. (ar_time r, ar_id r)) (filter (\<lambda>r. ar_seat r = seat \<and> ar_class r = c) rows)"

definition att_interval_of :: "att_row \<Rightarrow> int \<Rightarrow> int \<Rightarrow> att_row option \<Rightarrow> bool \<Rightarrow> att_interval" where
  "att_interval_of opening closed_at seconds closing at_day_end =
     \<lparr>ai_open_id = ar_id opening, ai_close_id = map_option ar_id closing, ai_opened = ar_time opening, ai_closed = closed_at,
      ai_seconds = seconds, ai_open_mechanism = ar_mechanism opening, ai_close_mechanism = map_option ar_mechanism closing,
      ai_bounded = at_day_end\<rparr>"

definition is_boundary_close :: "nat list \<Rightarrow> int \<Rightarrow> att_row \<Rightarrow> bool" where
  "is_boundary_close consumed day_end r = (ar_id r \<notin> set consumed \<and> ar_status r = ''inactive'' \<and> ar_time r = day_end
     \<and> ar_mechanism r = ''system'' \<and> ar_reason r = ''done_for_day'')"

text \<open>
  The pairing loop of \<^verbatim>\<open>list_attendance_interval_evidence\<close>: the remaining rows, the open row with the end of the
  class-local day it opened on, and the closings already consumed. It returns the intervals it closed and what is
  open at the end (of the rows, or at the first row after \<open>as_of\<close>).
\<close>

fun pair_rows :: "time_env \<Rightarrow> string \<Rightarrow> int \<Rightarrow> att_row list \<Rightarrow> att_row list \<Rightarrow> (att_row \<times> int) option \<Rightarrow> nat list
    \<Rightarrow> pay_error + (att_interval list \<times> (att_row \<times> int) option)" where
  "pair_rows env c as_of rows [] opening consumed = Inr ([], opening)"
| "pair_rows env c as_of rows (r # rs) opening consumed =
     (if ar_id r \<in> set consumed then pair_rows env c as_of rows rs opening consumed
      else if as_of < ar_time r then Inr ([], opening)
      else if ar_status r = ''active'' then
        (case opening of
           None \<Rightarrow> rbind (day_bounds env c (ar_time r)) (\<lambda>(_, e). pair_rows env c as_of rows rs (Some (r, e)) consumed)
         | Some (o', oe) \<Rightarrow>
             if ar_time r < oe then pair_rows env c as_of rows rs opening consumed
             else (let close = List.find (is_boundary_close consumed oe) rows in
               rbind (elapsed_attendance_seconds env c [(ar_time o', oe)]) (\<lambda>n.
               rbind (day_bounds env c (ar_time r)) (\<lambda>(_, e).
               rbind (pair_rows env c as_of rows rs (Some (r, e))
                   (case close of None \<Rightarrow> consumed | Some b \<Rightarrow> ar_id b # consumed)) (\<lambda>(ivs, open_row).
                 Inr (att_interval_of o' oe n close True # ivs, open_row))))))
      else if ar_status r = ''inactive'' then
        (case opening of
           None \<Rightarrow> pair_rows env c as_of rows rs None consumed
         | Some (o', oe) \<Rightarrow>
             if ar_time r < ar_time o' \<or> oe < ar_time r
             then rbind (elapsed_attendance_seconds env c [(ar_time o', oe)]) (\<lambda>n.
                  rbind (pair_rows env c as_of rows rs None consumed) (\<lambda>(ivs, open_row).
                    Inr (att_interval_of o' oe n None True # ivs, open_row)))
             else rbind (elapsed_attendance_seconds env c [(ar_time o', ar_time r)]) (\<lambda>n.
                  rbind (pair_rows env c as_of rows rs None consumed) (\<lambda>(ivs, open_row).
                    Inr (att_interval_of o' (ar_time r) n (Some r) False # ivs, open_row))))
      else pair_rows env c as_of rows rs opening consumed)"

definition list_attendance_intervals :: "time_env \<Rightarrow> string \<Rightarrow> int \<Rightarrow> att_row list \<Rightarrow> nat \<Rightarrow> pay_error + att_interval list" where
  "list_attendance_intervals env c as_of table seat =
     (let rows = canonical_seat_rows table seat c in
      rbind (pair_rows env c as_of rows rows None []) (\<lambda>(ivs, open_row).
        case open_row of
          None \<Rightarrow> Inr ivs
        | Some (o', oe) \<Rightarrow>
            rbind (elapsed_attendance_seconds env c [(ar_time o', min as_of oe)]) (\<lambda>n.
              Inr (ivs @ [att_interval_of o' (min as_of oe) n None (min as_of oe = oe)]))))"

section \<open>Day facts\<close>

text \<open>\<^verbatim>\<open>before_current_class_day\<close> (\<^verbatim>\<open>hall_pass_status_service.py\<close>): before the start of the reference's class-local day.\<close>

definition before_current_class_day :: "time_env \<Rightarrow> string \<Rightarrow> int \<Rightarrow> int \<Rightarrow> pay_error + bool" where
  "before_current_class_day env c t ref = rbind (day_bounds env c ref) (\<lambda>(s, e). Inr (t < s))"

definition is_live_session :: "time_env \<Rightarrow> string \<Rightarrow> int \<Rightarrow> att_row option \<Rightarrow> pay_error + bool" where
  "is_live_session env c ref row = (case row of
     None \<Rightarrow> Inr False
   | Some r \<Rightarrow> if ar_status r \<noteq> ''active'' then Inr False
               else rbind (before_current_class_day env c (ar_time r) ref) (\<lambda>b. Inr (\<not> b)))"

definition is_done_for_day :: "time_env \<Rightarrow> string \<Rightarrow> int \<Rightarrow> att_row list \<Rightarrow> nat \<Rightarrow> pay_error + bool" where
  "is_done_for_day env c ref table seat =
     rbind (day_bounds env c ref) (\<lambda>(s, e).
       let rows = filter (\<lambda>r. ar_seat r = seat \<and> ar_class r = c \<and> ar_status r = ''inactive''
             \<and> ar_reason r = ''done_for_day'' \<and> s \<le> ar_time r \<and> ar_time r < e) table
       in if rows = [] then Inr False
          else if \<exists>r \<in> set rows. ar_time r \<noteq> s then Inr True
          else rbind (list_attendance_intervals env c s table seat) (\<lambda>ivs.
            let prior = map ai_close_id (filter (\<lambda>i. ai_open_mechanism i = ''system'' \<or> ai_opened i < s) ivs)
            in Inr (\<exists>r \<in> set rows. Some (ar_id r) \<notin> set prior)))"

text \<open>
  \<^verbatim>\<open>_pair_active_intervals\<close>, the day-bounded reading behind worked seconds: a session belongs to the day it opened
  on, and is clipped to the end boundary.
\<close>

fun pair_active_intervals :: "int \<Rightarrow> int \<Rightarrow> att_row list \<Rightarrow> int option \<Rightarrow> (int \<times> int) list" where
  "pair_active_intervals s e [] active = (case active of None \<Rightarrow> []
     | Some a \<Rightarrow> if \<not> a < s \<and> \<not> e < a then [(a, e)] else [])"
| "pair_active_intervals s e (r # rs) active =
     (if ar_status r = ''active'' then pair_active_intervals s e rs (Some (ar_time r))
      else if ar_status r = ''inactive'' then
        (case active of None \<Rightarrow> pair_active_intervals s e rs None
         | Some a \<Rightarrow>
             if \<not> s < ar_time r \<or> a < s then pair_active_intervals s e rs None
             else (let stop = (if e < ar_time r then e else ar_time r) in
               if \<not> stop < a then (a, stop) # pair_active_intervals s e rs None else pair_active_intervals s e rs None))
      else pair_active_intervals s e rs active)"

definition worked_seconds_between :: "time_env \<Rightarrow> string \<Rightarrow> int \<Rightarrow> int \<Rightarrow> att_row list \<Rightarrow> nat \<Rightarrow> pay_error + int" where
  "worked_seconds_between env c s stop table seat =
     (if \<not> s < stop then Inr 0
      else elapsed_attendance_seconds env c (pair_active_intervals s stop (canonical_seat_rows table seat c) None))"

definition calculate_worked_attendance_seconds_for_date ::
    "time_env \<Rightarrow> string \<Rightarrow> int \<Rightarrow> pydate \<Rightarrow> att_row list \<Rightarrow> nat \<Rightarrow> pay_error + int" where
  "calculate_worked_attendance_seconds_for_date env c now d table seat =
     rbind (cle env c ''evaluation_day_boundaries'' None (no_kwargs\<lparr>kw_evaluation_date := Some d\<rparr>)) (\<lambda>r.
       case r of RBounds s e \<Rightarrow> worked_seconds_between env c s (min e now) table seat | _ \<Rightarrow> Inl PayAttribute)"

definition calculate_worked_attendance_seconds_today :: "time_env \<Rightarrow> string \<Rightarrow> int \<Rightarrow> att_row list \<Rightarrow> nat \<Rightarrow> pay_error + int" where
  "calculate_worked_attendance_seconds_today env c now table seat =
     rbind (day_bounds env c now) (\<lambda>(s, e). worked_seconds_between env c s (min e now) table seat)"

text \<open>Sessions per seat in a half-open window, read by the interpretation domain.\<close>

definition get_attendance_session_counts_by_seat :: "att_row list \<Rightarrow> string \<Rightarrow> int option \<Rightarrow> int option \<Rightarrow> (nat \<times> nat) list" where
  "get_attendance_session_counts_by_seat table c ws we =
     (case (ws, we) of
        (Some s, Some e) \<Rightarrow> if c = [] then []
          else (let rows = filter (\<lambda>r. ar_class r = c \<and> s \<le> ar_time r \<and> ar_time r < e) table
                in map (\<lambda>seat. (seat, length (filter (\<lambda>r. ar_seat r = seat) rows))) (remdups (map ar_seat rows)))
      | _ \<Rightarrow> [])"

section \<open>Hall-pass lifecycle\<close>

text \<open>\<^verbatim>\<open>resolve_hall_pass_lifecycle_status\<close>: one pass's own rows, optionally within a window. A free destination's log names no
  pass, and the query then reads the rows that name none.\<close>

datatype pass_status = Approved | Left | Returned

definition pass_rows :: "att_row list \<Rightarrow> string \<Rightarrow> nat \<Rightarrow> string option \<Rightarrow> int option \<Rightarrow> int option \<Rightarrow> att_row list" where
  "pass_rows table c seat pass from_t to_t =
     sort_key (\<lambda>r. (ar_time r, ar_id r)) (filter (\<lambda>r. ar_class r = c \<and> ar_seat r = seat \<and> ar_pass r = pass
       \<and> (case from_t of None \<Rightarrow> True | Some s \<Rightarrow> s \<le> ar_time r) \<and> (case to_t of None \<Rightarrow> True | Some e \<Rightarrow> ar_time r < e)) table)"

definition resolve_hall_pass_lifecycle_status ::
    "att_row list \<Rightarrow> string \<Rightarrow> nat \<Rightarrow> string option \<Rightarrow> int option \<Rightarrow> int option \<Rightarrow> pass_status \<times> att_row option \<times> att_row option" where
  "resolve_hall_pass_lifecycle_status table c seat pass from_t to_t =
     (let rows = pass_rows table c seat pass from_t to_t;
          left_row = List.find (\<lambda>r. ar_status r = ''inactive'' \<and> ar_reason r = ''hall_pass'') rows;
          return_row = (case left_row of None \<Rightarrow> None
            | Some l \<Rightarrow> List.find (\<lambda>r. ar_status r = ''active'' \<and> \<not> ar_time r < ar_time l) rows)
      in (if return_row \<noteq> None then Returned else if left_row \<noteq> None then Left else Approved, left_row, return_row))"

definition is_hall_pass_exit :: "att_row option \<Rightarrow> bool" where
  "is_hall_pass_exit row = (case row of None \<Rightarrow> False | Some r \<Rightarrow> ar_status r = ''inactive'' \<and> ar_reason r = ''hall_pass'')"

section \<open>The writer\<close>

record seat_row =
  se_id :: nat
  se_class :: string
  se_role :: string
  se_claimed :: "int option"
  se_user :: "nat option"

definition find_seat :: "seat_row list \<Rightarrow> nat \<Rightarrow> seat_row option" where
  "find_seat seats i = List.find (\<lambda>s. se_id s = i) seats"

definition lock_attendance_seat :: "seat_row list \<Rightarrow> nat \<Rightarrow> string \<Rightarrow> pay_error + seat_row" where
  "lock_attendance_seat seats i c = (case List.find (\<lambda>s. se_id s = i \<and> se_class s = c) seats of
     None \<Rightarrow> Inl (PayValue ''Attendance target seat must belong to the canonical class.'') | Some s \<Rightarrow> Inr s)"

definition latest_seat_event :: "att_row list \<Rightarrow> nat \<Rightarrow> string \<Rightarrow> att_row option" where
  "latest_seat_event table seat c = first_row (rev (canonical_seat_rows table seat c))"

text \<open>An insert takes the next id of the sequence.\<close>

definition next_row_id :: "att_row list \<Rightarrow> nat" where
  "next_row_id table = Suc (foldr max (map ar_id table) 0)"

definition append_row :: "att_row \<Rightarrow> att_row list \<Rightarrow> att_row \<times> att_row list" where
  "append_row r table = (let r' = r\<lparr>ar_id := next_row_id table\<rparr> in (r', table @ [r']))"

record att_command =
  at_status :: string
  at_target :: "nat option"
  at_actor :: "nat option"
  at_mechanism :: string
  at_reason :: "string option"
  at_reason_code :: "string option"
  at_pass :: "string option"
  at_reference :: "int option"

text \<open>\<^verbatim>\<open>id or ctx.seat_id\<close>: zero is falsy.\<close>

definition nat_or :: "nat option \<Rightarrow> nat \<Rightarrow> nat" where
  "nat_or x d = (case x of None \<Rightarrow> d | Some n \<Rightarrow> if n = 0 then d else n)"

definition inactive_reason :: "att_command \<Rightarrow> string option" where
  "inactive_reason cmd =
     (if at_status cmd = ''inactive'' \<and> at_reason_code cmd = None \<and> str_or (at_reason cmd) [] \<noteq> [] then
        (let n = map (\<lambda>ch. if ch = CHR '' '' then CHR ''_'' else ch) (str_lower (str_strip (str_or (at_reason cmd) [])))
         in if n = ''hall_pass'' \<or> n = ''done_for_day'' then Some n else None)
      else at_reason_code cmd)"

definition pay_guard :: "bool \<Rightarrow> string \<Rightarrow> pay_error + unit" where
  "pay_guard ok msg = rguard ok (PayValue msg)"

text \<open>The checks before the seat is read, those on the seats, and those on the seat's latest event.\<close>

definition check_command :: "att_command \<Rightarrow> string option \<Rightarrow> pay_error + unit" where
  "check_command cmd code =
     rbind (pay_guard (at_status cmd \<in> {''active'', ''inactive''}) ''Attendance status must be active or inactive.'') (\<lambda>_.
     rbind (pay_guard (at_status cmd = ''inactive'' \<longrightarrow> code \<noteq> None) ''Inactive attendance sessions require a reason_code.'') (\<lambda>_.
     rbind (pay_guard (at_status cmd = ''inactive'' \<and> code = Some ''hall_pass'' \<longrightarrow> str_or (at_pass cmd) [] \<noteq> [])
        ''Hall-pass attendance sessions require hall_pass_id.'') (\<lambda>_.
     pay_guard (at_mechanism cmd \<in> {''self'', ''teacher'', ''system''}) ''Attendance mechanism must be self, teacher, or system.'')))"

definition check_seats :: "seat_row list \<Rightarrow> string \<Rightarrow> nat \<Rightarrow> nat \<Rightarrow> pay_error + unit" where
  "check_seats seats c target actor =
     rbind (lock_attendance_seat seats target c) (\<lambda>t.
     rbind (pay_guard (se_claimed t \<noteq> None \<and> se_user t \<noteq> None) ''Attendance target seat must be claimed.'') (\<lambda>_.
     if actor = 0 then Inr ()
     else pay_guard (case find_seat seats actor of None \<Rightarrow> False | Some a \<Rightarrow> se_class a = c)
       ''Attendance actor seat must belong to the canonical class.''))"

definition check_pass :: "time_env \<Rightarrow> string \<Rightarrow> int \<Rightarrow> att_command \<Rightarrow> string option \<Rightarrow> att_row option \<Rightarrow> pay_error + unit" where
  "check_pass env c now cmd code existing =
     rbind (if at_status cmd = ''inactive'' \<and> code = Some ''hall_pass''
            then rbind (is_live_session env c now existing) (\<lambda>live.
              pay_guard live ''Student has no work session to leave on a hall pass.'')
            else Inr ()) (\<lambda>_.
     pay_guard (at_status cmd = ''active'' \<and> at_pass cmd \<noteq> None \<longrightarrow>
         is_hall_pass_exit existing \<and> map_option ar_pass existing = Some (at_pass cmd))
       ''Student is not out on this hall pass.'')"

text \<open>
  Opening a session: refused when the day is done; an open session is closed first, no later than the end of the day
  it opened on; a pass out the same day must be the one returning.
\<close>

definition open_session ::
    "time_env \<Rightarrow> string \<Rightarrow> int \<Rightarrow> att_command \<Rightarrow> nat \<Rightarrow> nat \<Rightarrow> att_row option \<Rightarrow> att_row list \<Rightarrow> pay_error + att_row list" where
  "open_session env c now cmd target actor existing table =
     rbind (is_done_for_day env c now table target) (\<lambda>done.
     rbind (pay_guard (\<not> done) ''Student is done for the day and cannot start work again until the next canonical day.'') (\<lambda>_.
     case existing of
       None \<Rightarrow> Inr table
     | Some x \<Rightarrow>
         if ar_status x = ''active'' then
           rbind (day_bounds env c (ar_time x)) (\<lambda>(s, e).
             Inr (snd (append_row \<lparr>ar_id = 0, ar_seat = ar_seat x, ar_actor = actor, ar_class = ar_class x,
               ar_mechanism = at_mechanism cmd, ar_status = ''inactive'', ar_reason = ''done_for_day'', ar_pass = None,
               ar_time = min now e\<rparr> table)))
         else if ar_status x = ''inactive'' \<and> ar_reason x = ''hall_pass'' then
           rbind (day_bounds env c (ar_time x)) (\<lambda>(s, e).
             let same_day = (s \<le> now \<and> now < e); returning = (at_pass cmd \<noteq> None \<and> at_pass cmd = ar_pass x) in
             rbind (pay_guard (\<not> (same_day \<and> \<not> returning))
               ''Student is currently out on a hall pass and must check in before a new work session can start.'') (\<lambda>_.
             rbind (pay_guard (\<not> (\<not> same_day \<and> returning)) ''This hall pass ended with the day the student left on.'') (\<lambda>_.
             Inr table)))
         else Inr table))"

definition record_attendance_session_command ::
    "time_env \<Rightarrow> seat_row list \<Rightarrow> string \<Rightarrow> nat \<Rightarrow> att_command \<Rightarrow> att_row list \<Rightarrow> pay_error + (att_row \<times> att_row list)" where
  "record_attendance_session_command env seats c ctx_seat cmd table =
     (if c = [] \<or> ctx_seat = 0 then Inl (PayValue ''CanonicalContext must include class_id and seat_id.'')
      else
      rbind (pay_time (canonical_temporal_resolver env ''CLE'' (Some (Some c)) ''current_time''
               (map_option Aware (at_reference cmd)) no_kwargs)) (\<lambda>ev.
      let now = canonical_now_utc ev; code = inactive_reason cmd;
          actor = nat_or (at_actor cmd) ctx_seat; target = nat_or (at_target cmd) ctx_seat in
      rbind (check_command cmd code) (\<lambda>_.
      rbind (check_seats seats c target actor) (\<lambda>_.
      let existing = latest_seat_event table target c in
      rbind (check_pass env c now cmd code existing) (\<lambda>_.
      rbind (if at_status cmd = ''active'' then open_session env c now cmd target actor existing table else Inr table) (\<lambda>table1.
        Inr (append_row \<lparr>ar_id = 0, ar_seat = target, ar_actor = actor, ar_class = c, ar_mechanism = at_mechanism cmd,
          ar_status = at_status cmd,
          ar_reason = (case code of Some r \<Rightarrow> r | None \<Rightarrow> ''start_work''), ar_pass = at_pass cmd, ar_time = now\<rparr> table1)))))))"

section \<open>Closing what is due\<close>

text \<open>
  \<^verbatim>\<open>close_due_attendance_intervals\<close>: each open interval of one snapshot is due at the end of its day or when the daily
  limit in force at its opening is used up, whichever is first; a due one is closed by the system at that instant.
\<close>

definition due_instant :: "time_env \<Rightarrow> string \<Rightarrow> payroll_setting list \<Rightarrow> att_interval list \<Rightarrow> att_interval \<Rightarrow> pay_error + int" where
  "due_instant env c settings ivs i =
     rbind (day_bounds env c (ai_opened i)) (\<lambda>(s, e).
       case daily_limit_seconds (payroll_setting_effective_at settings c (ai_opened i)) of
         None \<Rightarrow> Inr e
       | Some limit \<Rightarrow> if limit = 0 then Inr e
           else (let previous = sum_list (map ai_seconds (filter (\<lambda>j. ai_close_id j \<noteq> None \<and> s < ai_opened i
                        \<and> s \<le> ai_opened j \<and> ai_opened j < ai_opened i) ivs))
                 in rbind (shift_seconds env c (ai_opened i) (max 0 (limit - previous))) (\<lambda>capped. Inr (min e capped))))"

definition close_interval :: "time_env \<Rightarrow> seat_row list \<Rightarrow> string \<Rightarrow> nat \<Rightarrow> nat \<Rightarrow> payroll_setting list \<Rightarrow> int \<Rightarrow> att_interval list
    \<Rightarrow> att_interval \<Rightarrow> att_row list \<Rightarrow> pay_error + att_row list" where
  "close_interval env seats c ctx_seat seat settings now ivs i table =
     (if ai_close_id i \<noteq> None then Inr table
      else rbind (due_instant env c settings ivs i) (\<lambda>due.
        if now < due then Inr table
        else rbind (record_attendance_session_command env seats c ctx_seat
               \<lparr>at_status = ''inactive'', at_target = Some seat, at_actor = None, at_mechanism = ''system'', at_reason = None,
                at_reason_code = Some ''done_for_day'', at_pass = None, at_reference = Some due\<rparr> table) (\<lambda>(r, table').
               Inr table')))"

definition close_due_attendance_intervals :: "time_env \<Rightarrow> seat_row list \<Rightarrow> string \<Rightarrow> nat \<Rightarrow> nat \<Rightarrow> payroll_setting list \<Rightarrow> int
    \<Rightarrow> att_row list \<Rightarrow> pay_error + att_row list" where
  "close_due_attendance_intervals env seats c ctx_seat seat settings now table =
     rbind (lock_attendance_seat seats seat c) (\<lambda>_.
     rbind (list_attendance_intervals env c now table seat) (\<lambda>ivs.
       rfold (close_interval env seats c ctx_seat seat settings now ivs) ivs table))"

text \<open>\<^verbatim>\<open>close_due_hanging_hall_pass\<close>: an ended pass gets its zero-length pair at the end of the day it left on.\<close>

definition hanging_pass_rows :: "nat \<Rightarrow> int \<Rightarrow> att_row \<Rightarrow> att_row list \<Rightarrow> att_row list" where
  "hanging_pass_rows teacher day_end l table =
     (let base = \<lparr>ar_id = 0, ar_seat = ar_seat l, ar_actor = teacher, ar_class = ar_class l, ar_mechanism = ''system'',
            ar_status = ''active'', ar_reason = ''start_work'', ar_pass = ar_pass l, ar_time = day_end\<rparr>
      in snd (append_row (base\<lparr>ar_status := ''inactive'', ar_reason := ''done_for_day'', ar_pass := None\<rparr>)
           (snd (append_row base table))))"

definition close_due_hanging_hall_pass :: "time_env \<Rightarrow> seat_row list \<Rightarrow> string \<Rightarrow> nat \<Rightarrow> nat \<Rightarrow> int \<Rightarrow> att_row list \<Rightarrow> pay_error + att_row list" where
  "close_due_hanging_hall_pass env seats c teacher seat now table =
     rbind (lock_attendance_seat seats seat c) (\<lambda>_.
       let rows = filter (\<lambda>r. ar_pass r \<noteq> None) (canonical_seat_rows table seat c);
           ended = map ar_pass (filter (\<lambda>r. ar_status r = ''active'') rows)
       in rfold (\<lambda>r tb. if \<not> is_hall_pass_exit (Some r) \<or> ar_pass r \<in> set ended then Inr tb
             else rbind (day_bounds env c (ar_time r)) (\<lambda>(s, e).
               Inr (if now < e then tb else hanging_pass_rows teacher e r tb))) rows table)"

end
