(* ===== verification/Attendance_Claims.thy ===== *)
theory Attendance_Claims
  imports Attendance Payroll_Paydays
begin

text \<open>
  What the attendance model of \<^verbatim>\<open>Attendance\<close> guarantees: intervals never overlap and stay inside the day they opened
  on, worked time fits the day, done-for-day is terminal, and the writer only appends.
\<close>

section \<open>The resolver's answers\<close>

lemma dispatch_attendance [simp]:
  "dispatch ''evaluation_day_boundaries'' = Some p_evaluation_day_boundaries"
  "dispatch ''elapsed_duration'' = Some p_elapsed_duration" "dispatch ''shift_timestamp'' = Some p_shift_timestamp"
  by (simp_all add: dispatch_def)

lemma day_bounds_zone:
  assumes "class_zone env c = Some tz" "day_bounds env c t = Inr (s, e)"
  shows "s = midnight tz (local_date tz t)" "e = midnight tz (fromordinal (toordinal (local_date tz t) + 1))"
  using assms by (auto simp: day_bounds_def cle_class_zone ensure_aware_utc_def p_evaluation_day_boundaries_def no_kwargs_def
      res_simps add_days_Inr split: option.splits pydate.splits)

text \<open>A day's bounds hold every instant with that local date, and no other.\<close>

lemma day_bounds_member:
  assumes "class_zone env c = Some tz" "lawful_tz tz" "day_bounds env c t = Inr (s, e)"
  shows "s \<le> u \<and> u < e \<longleftrightarrow> local_date tz u = local_date tz t" "s \<le> t" "t < e"
proof -
  let ?d = "local_date tz t" let ?n = "fromordinal (toordinal ?d + 1)"
  note b = day_bounds_zone [OF assms(1,3)]
  have n: "?n \<le> x \<longleftrightarrow> ?d < x" if "valid_date x" for x
  proof -
    have "x < ?n \<longleftrightarrow> toordinal x \<le> toordinal ?d"
      using toordinal_less_iff [OF that fromordinal_correct(1), of "toordinal ?d + 1"] by simp
    moreover have "?d < x \<longleftrightarrow> toordinal ?d < toordinal x" using toordinal_less_iff [OF valid_local_date that, of tz t] by simp
    ultimately show ?thesis by (metis linorder_not_le)
  qed
  show m: "s \<le> u \<and> u < e \<longleftrightarrow> local_date tz u = local_date tz t" for u
    unfolding b using lawful_midnight [OF assms(2), of ?d u] lawful_midnight [OF assms(2), of ?n u] n [of "local_date tz u"]
    by (auto simp: not_le)
  from m [of t] show "s \<le> t" "t < e" by auto
qed

lemma elapsed_zone:
  assumes "class_zone env c = Some tz" "ivs \<noteq> []"
  shows "elapsed_attendance_seconds env c ivs = Inr n \<longleftrightarrow>
    (\<forall>(s, e) \<in> set ivs. s \<le> e) \<and> \<not> overlapping (sort_key fst ivs) \<and> n = total_us ivs div second_us"
proof -
  let ?raw = "map (\<lambda>(s, e). (Some (Aware s), Some (Aware e))) ivs"
  have r: "rmapM read_interval ?raw = (if \<forall>(s, e) \<in> set ivs. s \<le> e then Inr ivs else Inl (TemporalResolutionError ''Interval has end before start''))"
    by (induction ivs) (auto simp: ensure_aware_utc_def)
  have t: "total_us (sort_key fst ivs) = total_us ivs" by (rule total_us_mset) simp
  show ?thesis
    using assms(2) by (auto simp: elapsed_attendance_seconds_def cle_class_zone [OF assms(1)] p_elapsed_duration_def
        no_kwargs_def r t Let_def)
qed

lemma elapsed_one:
  assumes "class_zone env c = Some tz"
  shows "elapsed_attendance_seconds env c [(s, e)] = Inr n \<longleftrightarrow> s \<le> e \<and> n = (e - s) div second_us"
  using elapsed_zone [OF assms, of "[(s, e)]" n] by (simp add: total_us_def)

section \<open>Intervals\<close>

definition good_interval :: "time_env \<Rightarrow> string \<Rightarrow> int \<Rightarrow> att_interval \<Rightarrow> bool" where
  "good_interval env c as_of i = (ai_opened i \<le> ai_closed i \<and> ai_closed i \<le> as_of
     \<and> (\<exists>s e. day_bounds env c (ai_opened i) = Inr (s, e) \<and> ai_closed i \<le> e)
     \<and> ai_seconds i = (ai_closed i - ai_opened i) div second_us)"

definition good_open :: "time_env \<Rightarrow> string \<Rightarrow> int \<Rightarrow> att_row \<times> int \<Rightarrow> bool" where
  "good_open env c as_of op = (\<exists>s. day_bounds env c (ar_time (fst op)) = Inr (s, snd op)
     \<and> ar_time (fst op) \<le> snd op \<and> ar_time (fst op) \<le> as_of)"

definition tidy :: "time_env \<Rightarrow> string \<Rightarrow> int \<Rightarrow> int \<Rightarrow> att_interval list \<times> (att_row \<times> int) option \<Rightarrow> bool" where
  "tidy env c as_of lo res = (case res of (ivs, op) \<Rightarrow>
     sorted_wrt (\<lambda>i j. ai_closed i \<le> ai_opened j) ivs \<and> (\<forall>i \<in> set ivs. good_interval env c as_of i \<and> lo \<le> ai_opened i)
     \<and> (case op of None \<Rightarrow> True | Some p \<Rightarrow> good_open env c as_of p \<and> lo \<le> ar_time (fst p)
          \<and> (\<forall>i \<in> set ivs. ai_closed i \<le> ar_time (fst p))))"

lemma tidy_cons:
  assumes "tidy env c as_of (ai_closed i) (ivs, op)" "good_interval env c as_of i" "lo \<le> ai_opened i"
  shows "tidy env c as_of lo (i # ivs, op)"
  using assms by (fastforce simp: tidy_def good_interval_def split: option.splits)

lemma tidy_lower: "tidy env c as_of lo res \<Longrightarrow> lo' \<le> lo \<Longrightarrow> tidy env c as_of lo' res"
  by (fastforce simp: tidy_def split: option.splits prod.splits)

lemma good_open_row:
  assumes "class_zone env c = Some tz" "lawful_tz tz" "day_bounds env c (ar_time r) = Inr (s, e)" "ar_time r \<le> as_of"
  shows "good_open env c as_of (r, e)"
  using assms day_bounds_member(3) [OF assms(1-3)] by (auto simp: good_open_def)

text \<open>An interval the loop emits for an open row.\<close>

lemma emitted_good:
  assumes "class_zone env c = Some tz" "good_open env c as_of (o', oe)" "elapsed_attendance_seconds env c [(ar_time o', stop)] = Inr n"
    and "stop \<le> oe" "stop \<le> as_of"
  shows "good_interval env c as_of (att_interval_of o' stop n close at_end)"
  using assms(2-5) unfolding elapsed_one [OF assms(1)] by (auto simp: good_interval_def good_open_def att_interval_of_def)

lemma pair_rows_tidy:
  assumes z: "class_zone env c = Some tz" "lawful_tz tz"
  shows "pair_rows env c as_of rows rs opening consumed = Inr res \<Longrightarrow> sorted (map ar_time rs) \<Longrightarrow>
     \<forall>r \<in> set rs. lo \<le> ar_time r \<Longrightarrow>
     (\<forall>p. opening = Some p \<longrightarrow> good_open env c as_of p \<and> lo \<le> ar_time (fst p) \<and> (\<forall>r \<in> set rs. ar_time (fst p) \<le> ar_time r)) \<Longrightarrow>
     tidy env c as_of lo res"
proof (induction rs arbitrary: "opening" consumed res lo)
  case Nil
  then show ?case by (auto simp: tidy_def split: option.splits)
next
  case (Cons r rs)
  from Cons.prems(2) have rs: "sorted (map ar_time rs)" "\<forall>x \<in> set rs. ar_time r \<le> ar_time x" by auto
  note lo = Cons.prems(3) and op = Cons.prems(4)
  show ?case
  proof (cases "ar_id r \<in> set consumed \<or> as_of < ar_time r \<or> (ar_status r \<noteq> ''active'' \<and> ar_status r \<noteq> ''inactive'')")
    case True
    show ?thesis
    proof (cases "ar_id r \<notin> set consumed \<and> as_of < ar_time r")
      case True
      with Cons.prems(1) have "res = ([], opening)" by simp
      with op show ?thesis by (auto simp: tidy_def split: option.splits)
    next
      case False
      with True Cons.prems(1) have "pair_rows env c as_of rows rs opening consumed = Inr res" by (auto split: if_splits)
      then show ?thesis by (rule Cons.IH) (use rs lo op in auto)
    qed
  next
    case False
    then have now: "ar_time r \<le> as_of" "ar_id r \<notin> set consumed" "ar_status r = ''active'' \<or> ar_status r = ''inactive''" by auto
    have next_open: "tidy env c as_of (ar_time r) res'"
      if "day_bounds env c (ar_time r) = Inr (s, e)" "pair_rows env c as_of rows rs (Some (r, e)) consumed' = Inr res'" for s e consumed' res'
      by (rule Cons.IH [OF that(2)]) (use rs good_open_row [OF z that(1) now(1)] in auto)
    have next_none: "tidy env c as_of (ar_time r) res'" if "pair_rows env c as_of rows rs None consumed' = Inr res'" for consumed' res'
      by (rule Cons.IH [OF that]) (use rs in auto)
    have lo_r: "lo \<le> ar_time r" using lo by simp
    show ?thesis
    proof (cases "opening")
      case None
      from now(3) show ?thesis
      proof
        assume a: "ar_status r = ''active''"
        with None now Cons.prems(1) obtain s e where "day_bounds env c (ar_time r) = Inr (s, e)"
          "pair_rows env c as_of rows rs (Some (r, e)) consumed = Inr res" by (auto simp: res_simps)
        from tidy_lower [OF next_open [OF this] lo_r] show ?thesis .
      next
        assume i: "ar_status r = ''inactive''"
        with None now Cons.prems(1) have "pair_rows env c as_of rows rs None consumed = Inr res" by simp
        from tidy_lower [OF next_none [OF this] lo_r] show ?thesis .
      qed
    next
      case (Some p)
      obtain o' oe where p: "p = (o', oe)" by fastforce
      have g: "good_open env c as_of (o', oe)" "lo \<le> ar_time o'" "ar_time o' \<le> ar_time r" using op Some p by auto
      have g': "ar_time o' \<le> oe" using g(1) by (auto simp: good_open_def)
      note em = emitted_good [OF z(1) g(1)]
      from now(3) show ?thesis
      proof
        assume a: "ar_status r = ''active''"
        show ?thesis
        proof (cases "ar_time r < oe")
          case True
          with a Some p now Cons.prems(1) have "pair_rows env c as_of rows rs opening consumed = Inr res" by simp
          then show ?thesis by (rule Cons.IH) (use rs lo op in auto)
        next
          case later: False
          with a Some p now Cons.prems(1) obtain n s e ivs op' consumed' close where
            n: "elapsed_attendance_seconds env c [(ar_time o', oe)] = Inr n" "day_bounds env c (ar_time r) = Inr (s, e)"
            "pair_rows env c as_of rows rs (Some (r, e)) consumed' = Inr (ivs, op')"
            and res: "res = (att_interval_of o' oe n close True # ivs, op')"
            by (auto simp: res_simps Let_def)
          have t: "tidy env c as_of oe (ivs, op')" by (rule tidy_lower [OF next_open [OF n(2,3)]]) (use later in simp)
          show ?thesis unfolding res
            by (rule tidy_cons [OF _ em [OF n(1)]]) (use t g later now(1) in \<open>auto simp: att_interval_of_def\<close>)
        qed
      next
        assume i: "ar_status r = ''inactive''"
        show ?thesis
        proof (cases "oe < ar_time r")
          case True
          with i Some p now Cons.prems(1) obtain n ivs op' where
            n: "elapsed_attendance_seconds env c [(ar_time o', oe)] = Inr n"
            "pair_rows env c as_of rows rs None consumed = Inr (ivs, op')"
            and res: "res = (att_interval_of o' oe n None True # ivs, op')"
            by (auto simp: res_simps)
          have t: "tidy env c as_of oe (ivs, op')" by (rule tidy_lower [OF next_none [OF n(2)]]) (use True in simp)
          show ?thesis unfolding res
            by (rule tidy_cons [OF _ em [OF n(1)]]) (use t g True now(1) in \<open>auto simp: att_interval_of_def\<close>)
        next
          case within: False
          with i Some p now g(3) Cons.prems(1) obtain n ivs op' where
            n: "elapsed_attendance_seconds env c [(ar_time o', ar_time r)] = Inr n"
            "pair_rows env c as_of rows rs None consumed = Inr (ivs, op')"
            and res: "res = (att_interval_of o' (ar_time r) n (Some r) False # ivs, op')"
            by (auto simp: res_simps)
          have t: "tidy env c as_of (ar_time r) (ivs, op')" by (rule next_none [OF n(2)])
          show ?thesis unfolding res
            by (rule tidy_cons [OF _ em [OF n(1)]]) (use t g within now(1) in \<open>auto simp: att_interval_of_def\<close>)
        qed
      qed
    qed
  qed
qed

lemma sorted_canonical: "sorted (map ar_time (canonical_seat_rows table seat c))"
proof -
  have "sorted_wrt (\<lambda>a b. (ar_time a, ar_id a) \<le> (ar_time b, ar_id b)) (canonical_seat_rows table seat c)"
    using sorted_sort_key [of "\<lambda>r. (ar_time r, ar_id r)" "filter (\<lambda>r. ar_seat r = seat \<and> ar_class r = c) table"]
    by (simp add: canonical_seat_rows_def sorted_map)
  then show ?thesis by (simp add: sorted_map) (erule sorted_wrt_mono_rel [rotated], auto)
qed

lemma good_open_interval:
  assumes "class_zone env c = Some tz" "good_open env c as_of (o', oe)"
    and "elapsed_attendance_seconds env c [(ar_time o', min as_of oe)] = Inr n"
  shows "good_interval env c as_of (att_interval_of o' (min as_of oe) n close at_end)"
  by (rule emitted_good [OF assms]) auto

lemma attendance_good:
  assumes "class_zone env c = Some tz" "lawful_tz tz" "list_attendance_intervals env c as_of table seat = Inr ivs"
  shows "sorted_wrt (\<lambda>i j. ai_closed i \<le> ai_opened j) ivs \<and> (\<forall>i \<in> set ivs. good_interval env c as_of i)"
proof -
  let ?rows = "canonical_seat_rows table seat c"
  obtain js op where p: "pair_rows env c as_of ?rows ?rows None [] = Inr (js, op)"
    using assms(3) by (auto simp: list_attendance_intervals_def Let_def res_simps)
  have "\<forall>r \<in> set ?rows. (if ?rows = [] then 0 else ar_time (hd ?rows)) \<le> ar_time r"
    using sorted_canonical [of table seat c] by (cases ?rows) auto
  then have t: "tidy env c as_of (if ?rows = [] then 0 else ar_time (hd ?rows)) (js, op)"
    by (intro pair_rows_tidy [OF assms(1,2) p sorted_canonical]) auto
  show ?thesis
  proof (cases op)
    case None
    with t p assms(3) show ?thesis by (auto simp: list_attendance_intervals_def tidy_def)
  next
    case (Some q)
    obtain o' oe where q: "q = (o', oe)" by fastforce
    with Some p assms(3) obtain n where n: "elapsed_attendance_seconds env c [(ar_time o', min as_of oe)] = Inr n"
      and ivs: "ivs = js @ [att_interval_of o' (min as_of oe) n None (min as_of oe = oe)]"
      by (auto simp: list_attendance_intervals_def res_simps)
    from t Some q have "good_open env c as_of (o', oe)" by (auto simp: tidy_def)
    from good_open_interval [OF assms(1) this n, of None "min as_of oe = oe"] t Some q show ?thesis
      unfolding ivs by (auto simp: tidy_def sorted_wrt_append att_interval_of_def)
  qed
qed

text \<open>
  C38. A seat's attendance intervals never overlap: whatever rows the history holds (repeated starts, missing or late
  closings, system closings), they come out in order, each ends before the next begins, each lies within the class-local
  day it opened on and does not pass the instant of the reading, and each is credited the whole seconds it lasted.
\<close>

theorem attendance_intervals_never_overlap:
  assumes "class_zone env c = Some tz" "lawful_tz tz" "list_attendance_intervals env c as_of table seat = Inr ivs"
  shows "sorted_wrt (\<lambda>i j. ai_closed i \<le> ai_opened j) ivs
    \<and> (\<forall>i \<in> set ivs. ai_opened i \<le> ai_closed i \<and> ai_closed i \<le> as_of
        \<and> (\<exists>s e. day_bounds env c (ai_opened i) = Inr (s, e) \<and> s \<le> ai_opened i \<and> ai_closed i \<le> e)
        \<and> ai_seconds i = (ai_closed i - ai_opened i) div second_us)"
proof -
  have "sorted_wrt (\<lambda>i j. ai_closed i \<le> ai_opened j) ivs \<and> (\<forall>i \<in> set ivs. good_interval env c as_of i)"
    by (rule attendance_good [OF assms])
  then show ?thesis
    using day_bounds_member(2) [OF assms(1,2)] by (auto simp: good_interval_def)
qed

definition example_row :: "nat \<Rightarrow> string \<Rightarrow> string \<Rightarrow> int \<Rightarrow> att_row" where
  "example_row i status reason t = \<lparr>ar_id = i, ar_seat = 7, ar_actor = 7, ar_class = ''c1'', ar_mechanism = ''self'',
     ar_status = status, ar_reason = reason, ar_pass = None, ar_time = t\<rparr>"

definition example_table :: "att_row list" where
  "example_table = [example_row 1 ''active'' ''start_work'' 0, example_row 2 ''inactive'' ''hall_pass'' 1600000,
     example_row 3 ''active'' ''start_work'' 2000000, example_row 4 ''inactive'' ''done_for_day'' 3600000]"

lemma attendance_intervals_never_overlap_witness:
  "\<exists>i j. list_attendance_intervals payroll_env ''c1'' 9000000 example_table 7 = Inr [i, j] \<and> ai_closed i \<le> ai_opened j"
proof -
  have "case list_attendance_intervals payroll_env ''c1'' 9000000 example_table 7 of Inl e \<Rightarrow> False | Inr ivs \<Rightarrow> length ivs = 2"
    by code_simp
  then obtain i j where ivs: "list_attendance_intervals payroll_env ''c1'' 9000000 example_table 7 = Inr [i, j]"
    by (auto split: sum.splits simp: length_Suc_conv numeral_2_eq_2)
  from attendance_intervals_never_overlap [OF example_class_zone lawful_fixed_zone ivs] ivs show ?thesis by auto
qed

section \<open>Worked time\<close>

definition span_ok :: "int \<Rightarrow> int \<Rightarrow> int \<Rightarrow> (int \<times> int) list \<Rightarrow> bool" where
  "span_ok s e lo ivs = (sorted_wrt (\<lambda>i j. snd i \<le> fst j) ivs
     \<and> (\<forall>i \<in> set ivs. lo \<le> fst i \<and> s \<le> fst i \<and> fst i \<le> snd i \<and> snd i \<le> e))"

lemma span_ok_lower: "span_ok s e lo ivs \<Longrightarrow> lo' \<le> lo \<Longrightarrow> span_ok s e lo' ivs"
  by (auto simp: span_ok_def)

lemma pair_active_span:
  "sorted (map ar_time rs) \<Longrightarrow> \<forall>r \<in> set rs. lo \<le> ar_time r \<Longrightarrow>
     \<forall>a. active = Some a \<longrightarrow> lo \<le> a \<and> (\<forall>r \<in> set rs. a \<le> ar_time r) \<Longrightarrow>
     span_ok s e lo (pair_active_intervals s e rs active)"
proof (induction rs arbitrary: active lo)
  case Nil
  then show ?case by (auto simp: span_ok_def split: option.splits)
next
  case (Cons r rs)
  then have rs: "sorted (map ar_time rs)" "\<forall>x \<in> set rs. ar_time r \<le> ar_time x" "lo \<le> ar_time r" by auto
  have none: "span_ok s e (ar_time r) (pair_active_intervals s e rs None)" by (rule Cons.IH) (use rs in auto)
  have none': "span_ok s e lo (pair_active_intervals s e rs None)" by (rule span_ok_lower [OF none rs(3)])
  consider (start) "ar_status r = ''active''" | (other) "ar_status r \<noteq> ''active''" "ar_status r \<noteq> ''inactive''"
    | (stop) "ar_status r = ''inactive''" by blast
  then show ?case
  proof cases
    case start
    have "span_ok s e lo (pair_active_intervals s e rs (Some (ar_time r)))" by (rule Cons.IH) (use rs in auto)
    with start show ?thesis by simp
  next
    case other
    have "span_ok s e lo (pair_active_intervals s e rs active)" by (rule Cons.IH) (use rs Cons.prems in auto)
    with other show ?thesis by simp
  next
    case stop
    show ?thesis
    proof (cases active)
      case None
      with stop none' show ?thesis by simp
    next
      case (Some a)
      with Cons.prems(3) have a: "lo \<le> a" "a \<le> ar_time r" by auto
      show ?thesis
      proof (cases "\<not> s < ar_time r \<or> a < s \<or> (if e < ar_time r then e else ar_time r) < a")
        case True
        with stop Some none' show ?thesis by (auto simp: Let_def)
      next
        case False
        let ?stop = "if e < ar_time r then e else ar_time r"
        have t: "span_ok s e ?stop (pair_active_intervals s e rs None)" by (rule span_ok_lower [OF none]) auto
        have "pair_active_intervals s e (r # rs) active = (a, ?stop) # pair_active_intervals s e rs None"
          using False stop Some by (simp add: Let_def)
        then show ?thesis using t False a by (auto simp: span_ok_def)
      qed
    qed
  qed
qed

lemma span_ok_total:
  assumes "span_ok s e lo ivs"
  shows "\<not> overlapping (sort_key fst ivs)" "0 \<le> total_us ivs" "s \<le> e \<Longrightarrow> total_us ivs \<le> e - s"
proof -
  have w: "sorted_wrt (\<lambda>i j. snd i \<le> fst j) ivs" and b: "\<And>i. i \<in> set ivs \<Longrightarrow> s \<le> fst i \<and> fst i \<le> snd i \<and> snd i \<le> e"
    using assms by (auto simp: span_ok_def)
  have "sorted (map fst ivs)" using w b
  proof (induction ivs)
    case (Cons i ivs)
    then show ?case by (fastforce simp: less_imp_le)
  qed simp
  then have srt: "sort_key fst ivs = ivs" by (simp add: sorted_sort_id sort_key_id_if_sorted)
  have o: "\<not> overlapping ivs" using w
  proof (induction ivs rule: overlapping.induct)
    case (1 s e s' e' ivs)
    then show ?case by auto
  qed auto
  with srt show "\<not> overlapping (sort_key fst ivs)" by simp
  show "0 \<le> total_us ivs" by (rule total_us_nonneg) (use b in force)
  show "total_us ivs \<le> e - s" if "s \<le> e"
  proof (cases "ivs = []")
    case False
    have "total_us ivs \<le> snd (last ivs) - fst (hd ivs)" by (rule total_us_span [OF o False]) (use b in force)
    moreover have "snd (last ivs) \<le> e" "s \<le> fst (hd ivs)" using b False by auto
    ultimately show ?thesis by linarith
  qed (use that in \<open>simp add: total_us_def\<close>)
qed

text \<open>
  The time shown for today fits today: worked seconds are never negative and never more than the whole seconds
  since the class-local day began, however many sessions were opened, reopened or left open; the resolver never has to
  refuse the sessions as overlapping.
\<close>

theorem worked_today_fits_the_day:
  assumes "class_zone env c = Some tz" "lawful_tz tz" "day_bounds env c now = Inr (s, e)"
  shows "\<exists>n. calculate_worked_attendance_seconds_today env c now table seat = Inr n \<and> 0 \<le> n \<and> n * second_us \<le> now - s"
proof -
  note d = day_bounds_member(2,3) [OF assms]
  let ?rows = "canonical_seat_rows table seat c" let ?ivs = "pair_active_intervals s now ?rows None"
  have "\<forall>r \<in> set ?rows. (if ?rows = [] then 0 else ar_time (hd ?rows)) \<le> ar_time r"
    using sorted_canonical [of table seat c] by (cases ?rows) auto
  then have ok: "span_ok s now (if ?rows = [] then 0 else ar_time (hd ?rows)) ?ivs"
    by (intro pair_active_span sorted_canonical) auto
  note t = span_ok_total [OF ok]
  have m: "min e now = now" using d by simp
  show ?thesis
  proof (cases "s < now \<and> ?ivs \<noteq> []")
    case True
    have "elapsed_attendance_seconds env c ?ivs = Inr (total_us ?ivs div second_us)"
      using elapsed_zone [OF assms(1), of ?ivs] True t(1) ok by (auto simp: span_ok_def)
    moreover have "total_us ?ivs div second_us * second_us \<le> total_us ?ivs" by (simp add: mult_le_iff_le_div)
    ultimately show ?thesis
      using assms(3) t(2) t(3) True m
      by (simp add: calculate_worked_attendance_seconds_today_def worked_seconds_between_def pos_imp_zdiv_nonneg_iff)
  next
    case False
    with assms(3) m d show ?thesis
      by (auto simp: calculate_worked_attendance_seconds_today_def worked_seconds_between_def elapsed_attendance_seconds_def)
  qed
qed

lemma worked_today_fits_the_day_witness:
  "\<exists>n. calculate_worked_attendance_seconds_today payroll_env ''c1'' 3600000 example_table 7 = Inr n \<and> n * second_us \<le> 3600000"
proof -
  have d: "day_bounds payroll_env ''c1'' 3600000 = Inr (0, day_us)" by code_simp
  from worked_today_fits_the_day [OF example_class_zone lawful_fixed_zone d, of example_table 7] show ?thesis by auto
qed

section \<open>The writer\<close>

lemma append_row_id: "append_row r table = (r', table') \<Longrightarrow> table' = table @ [r'] \<and> ar_id r' = next_row_id table
    \<and> ar_seat r' = ar_seat r \<and> ar_class r' = ar_class r"
  by (auto simp: append_row_def Let_def)

text \<open>
  C39. Done for the day is terminal: once a seat has a done-for-day entry inside the class-local day (not at its very
  first instant), no command can open a session for that seat at any instant of that day, whoever sends it and whatever
  else the history holds. The instant is the command's own reference, or the clock when it brings none, as the routes do.
\<close>

theorem done_for_day_is_terminal:
  assumes z: "class_zone env c = Some tz" "lawful_tz tz"
    and d: "d \<in> set table" "ar_seat d = nat_or (at_target cmd) ctx_seat" "ar_class d = c" "ar_status d = ''inactive''"
      "ar_reason d = ''done_for_day''" "day_bounds env c (ar_time d) = Inr (s, e)" "ar_time d \<noteq> s"
    and cmd: "at_status cmd = ''active''" "now = (case at_reference cmd of None \<Rightarrow> utc_clock env | Some t \<Rightarrow> t)"
      "s \<le> now" "now < e"
  shows "isl (record_attendance_session_command env seats c ctx_seat cmd table)"
proof -
  have same: "day_bounds env c now = Inr (s, e)"
  proof -
    have "local_date tz now = local_date tz (ar_time d)" using day_bounds_member(1) [OF z d(6)] cmd(3,4) by blast
    moreover have "day_bounds env c t = day_bounds env c u" if "local_date tz t = local_date tz u" for t u
      using that by (simp add: day_bounds_def cle_class_zone [OF z(1)] ensure_aware_utc_def p_evaluation_day_boundaries_def no_kwargs_def)
    ultimately show ?thesis using d(6) by metis
  qed
  have finished: "is_done_for_day env c now table (nat_or (at_target cmd) ctx_seat) = Inr True"
    using d day_bounds_member(2,3) [OF z d(6)] unfolding is_done_for_day_def same
    by (auto simp: Let_def filter_empty_conv)
  show ?thesis
  proof (rule ccontr)
    assume "\<not> ?thesis"
    then obtain r table' where ok: "record_attendance_session_command env seats c ctx_seat cmd table = Inr (r, table')"
      by (cases "record_attendance_session_command env seats c ctx_seat cmd table") auto
    then obtain ev where ev: "pay_time (canonical_temporal_resolver env ''CLE'' (Some (Some c)) ''current_time''
        (map_option Aware (at_reference cmd)) no_kwargs) = Inr ev"
      by (auto simp: record_attendance_session_command_def res_simps split: if_splits)
    have "canonical_now_utc ev = now"
      using ev cmd(2) by (cases "at_reference cmd") (auto simp: canonical_temporal_resolver_def ensure_aware_utc_def res_simps split: option.splits prod.splits if_splits)
    with ok ev cmd(1) finished show False
      by (auto simp: record_attendance_session_command_def open_session_def pay_guard_def Let_def res_simps split: if_splits)
  qed
qed

definition example_seats :: "seat_row list" where
  "example_seats = [\<lparr>se_id = 7, se_class = ''c1'', se_role = ''student'', se_claimed = Some 0, se_user = Some 3\<rparr>]"

definition example_start :: "int \<Rightarrow> att_command" where
  "example_start t = \<lparr>at_status = ''active'', at_target = None, at_actor = None, at_mechanism = ''self'', at_reason = None,
     at_reason_code = None, at_pass = None, at_reference = Some t\<rparr>"

definition clock_start :: att_command where
  "clock_start = (example_start 0)\<lparr>at_reference := None\<rparr>"

lemma done_for_day_is_terminal_witness:
  "isl (record_attendance_session_command (payroll_env\<lparr>utc_clock := 5000000\<rparr>) example_seats ''c1'' 7 clock_start example_table)"
proof -
  let ?d = "example_row 4 ''inactive'' ''done_for_day'' 3600000" and ?env = "payroll_env\<lparr>utc_clock := 5000000\<rparr>"
  have d: "?d \<in> set example_table" "ar_seat ?d = nat_or (at_target clock_start) 7" "ar_class ?d = ''c1''"
    "ar_status ?d = ''inactive''" "ar_reason ?d = ''done_for_day''"
    by (simp_all add: example_table_def example_row_def clock_start_def example_start_def nat_or_def)
  have z: "class_zone ?env ''c1'' = Some (fixed_zone ''UTC'' 0)"
    by (simp add: class_zone_def payroll_env_def fixed_zone_def)
  have b: "day_bounds ?env ''c1'' (ar_time ?d) = Inr (0, day_us)" by code_simp
  show ?thesis
    by (rule done_for_day_is_terminal [OF z lawful_fixed_zone d b, where now = 5000000])
      (simp_all add: example_row_def clock_start_def example_start_def day_us_def second_us_def)
qed

lemma foldr_max_ids: "x \<in> set xs \<Longrightarrow> x \<le> foldr max xs (0 :: nat)"
  by (induction xs) (auto simp: max_def)

lemma next_row_id_fresh: "r \<in> set table \<Longrightarrow> ar_id r < next_row_id table"
  using foldr_max_ids [of "ar_id r" "map ar_id table"] by (simp add: next_row_id_def less_Suc_eq_le)

definition fresh_rows :: "att_row list \<Rightarrow> att_row list \<Rightarrow> nat \<Rightarrow> bool" where
  "fresh_rows table new seat = (distinct (map ar_id new) \<and> (\<forall>r \<in> set new. ar_seat r = seat \<and> (\<forall>x \<in> set table. ar_id x < ar_id r)))"

lemma fresh_append: "fresh_rows table new seat \<Longrightarrow> append_row r (table @ new) = (r', table') \<Longrightarrow> ar_seat r = seat
    \<Longrightarrow> table' = table @ (new @ [r']) \<and> fresh_rows table (new @ [r']) seat"
  using next_row_id_fresh [of _ "table @ new"] append_row_id [of r "table @ new" r' table']
  by (fastforce simp: fresh_rows_def)

lemma latest_seat: "latest_seat_event table seat c = Some x \<Longrightarrow> ar_seat x = seat \<and> ar_class x = c"
  unfolding latest_seat_event_def first_row_def
  by (auto simp: canonical_seat_rows_def split: list.splits dest!: arg_cong [where f = set])

definition closing_row :: "att_command \<Rightarrow> nat \<Rightarrow> att_row \<Rightarrow> int \<Rightarrow> att_row" where
  "closing_row cmd actor x t = \<lparr>ar_id = 0, ar_seat = ar_seat x, ar_actor = actor, ar_class = ar_class x,
     ar_mechanism = at_mechanism cmd, ar_status = ''inactive'', ar_reason = ''done_for_day'', ar_pass = None, ar_time = t\<rparr>"

lemma open_session_adds:
  assumes "open_session env c now cmd target actor existing table = Inr table1" "table1 \<noteq> table"
  shows "\<exists>x e. existing = Some x \<and> table1 = snd (append_row (closing_row cmd actor x (min now e)) table)"
proof (cases existing)
  case None
  with assms show ?thesis by (auto simp: open_session_def pay_guard_def res_simps)
next
  case (Some x)
  have "ar_status x = ''active''"
  proof (rule ccontr)
    assume "ar_status x \<noteq> ''active''"
    with assms Some show False
      by (auto simp: open_session_def pay_guard_def Let_def rbind_eq_Inr simp del: split_paired_Ex split: if_splits)
  qed
  with assms(1) Some show ?thesis
    by (auto simp: open_session_def pay_guard_def closing_row_def rbind_eq_Inr)
qed

lemma record_command_shape:
  assumes "record_attendance_session_command env seats c ctx_seat cmd table = Inr (r, table')"
  shows "\<exists>now table1 row. (if at_status cmd = ''active'' then
      open_session env c now cmd (nat_or (at_target cmd) ctx_seat) (nat_or (at_actor cmd) ctx_seat)
        (latest_seat_event table (nat_or (at_target cmd) ctx_seat) c) table = Inr table1
      else table1 = table)
    \<and> append_row row table1 = (r, table') \<and> ar_seat row = nat_or (at_target cmd) ctx_seat \<and> ar_time row = now"
proof -
  let ?T = "nat_or (at_target cmd) ctx_seat" let ?A = "nat_or (at_actor cmd) ctx_seat"
  let ?X = "latest_seat_event table ?T c" let ?code = "inactive_reason cmd"
  have ne: "\<not> (c = [] \<or> ctx_seat = 0)"
  proof
    assume "c = [] \<or> ctx_seat = 0"
    from assms [unfolded record_attendance_session_command_def if_P [OF this]] show False by simp
  qed
  obtain ev where ev: "pay_time (canonical_temporal_resolver env ''CLE'' (Some (Some c)) ''current_time''
      (map_option Aware (at_reference cmd)) no_kwargs) = Inr ev"
    and rest: "rbind (check_command cmd ?code) (\<lambda>_. rbind (check_seats seats c ?T ?A) (\<lambda>_.
        rbind (check_pass env c (canonical_now_utc ev) cmd ?code ?X) (\<lambda>_.
        rbind (if at_status cmd = ''active'' then open_session env c (canonical_now_utc ev) cmd ?T ?A ?X table else Inr table) (\<lambda>table1.
        Inr (append_row \<lparr>ar_id = 0, ar_seat = ?T, ar_actor = ?A, ar_class = c, ar_mechanism = at_mechanism cmd,
          ar_status = at_status cmd, ar_reason = (case ?code of Some r \<Rightarrow> r | None \<Rightarrow> ''start_work''),
          ar_pass = at_pass cmd, ar_time = canonical_now_utc ev\<rparr> table1))))) = Inr (r, table')"
    using assms ne unfolding record_attendance_session_command_def Let_def if_not_P [OF ne] rbind_eq_Inr by blast
  from rest obtain table1 where
    "(if at_status cmd = ''active'' then open_session env c (canonical_now_utc ev) cmd ?T ?A ?X table else Inr table) = Inr table1"
    "append_row \<lparr>ar_id = 0, ar_seat = ?T, ar_actor = ?A, ar_class = c, ar_mechanism = at_mechanism cmd,
          ar_status = at_status cmd, ar_reason = (case ?code of Some r \<Rightarrow> r | None \<Rightarrow> ''start_work''),
          ar_pass = at_pass cmd, ar_time = canonical_now_utc ev\<rparr> table1 = (r, table')"
    unfolding rbind_eq_Inr by blast
  then show ?thesis by (intro exI conjI) (auto split: if_splits)
qed

text \<open>
  Attendance is append-only and written for one seat: a successful command adds one row, or two when it first closes
  the seat's open session, all for the target seat and under ids never used before; no existing row is touched. An added
  closing never lies after the command.
\<close>

theorem attendance_writer_only_appends:
  assumes "record_attendance_session_command env seats c ctx_seat cmd table = Inr (r, table')"
  shows "\<exists>new. table' = table @ new @ [r] \<and> length new \<le> 1
    \<and> distinct (map ar_id (new @ [r])) \<and> (\<forall>n \<in> set (new @ [r]). ar_seat n = nat_or (at_target cmd) ctx_seat
         \<and> (\<forall>x \<in> set table. ar_id x < ar_id n))
    \<and> (\<forall>n \<in> set new. ar_status n = ''inactive'' \<and> ar_time n \<le> ar_time r \<and> at_status cmd = ''active'')"
proof -
  let ?seat = "nat_or (at_target cmd) ctx_seat"
  obtain now table1 row where t: "if at_status cmd = ''active'' then
        open_session env c now cmd ?seat (nat_or (at_actor cmd) ctx_seat) (latest_seat_event table ?seat c) table = Inr table1
      else table1 = table"
    "append_row row table1 = (r, table')" "ar_seat row = ?seat" "ar_time row = now"
    using record_command_shape [OF assms] by blast
  have "\<exists>new. table1 = table @ new \<and> fresh_rows table new ?seat \<and> length new \<le> 1
      \<and> (\<forall>n \<in> set new. ar_status n = ''inactive'' \<and> ar_time n \<le> now \<and> at_status cmd = ''active'')"
  proof (cases "table1 = table")
    case True
    then show ?thesis by (intro exI [of _ "[]"]) (simp add: fresh_rows_def)
  next
    case False
    with t(1) have a: "at_status cmd = ''active''"
      "open_session env c now cmd ?seat (nat_or (at_actor cmd) ctx_seat) (latest_seat_event table ?seat c) table = Inr table1"
      by (auto split: if_splits)
    from open_session_adds [OF a(2) False] obtain x e where x: "latest_seat_event table ?seat c = Some x"
      and t1: "table1 = snd (append_row (closing_row cmd (nat_or (at_actor cmd) ctx_seat) x (min now e)) table)"
        (is "_ = snd (append_row ?row table)") by blast
    have f: "fresh_rows table [] ?seat" by (simp add: fresh_rows_def)
    obtain n where n: "append_row ?row table = (n, table1)" using t1 by (metis prod.collapse)
    have "table1 = table @ [n] \<and> fresh_rows table [n] ?seat"
      using fresh_append [OF f, of ?row n table1] n latest_seat [OF x] by (simp add: closing_row_def)
    moreover have "ar_status n = ''inactive''" "ar_time n = min now e" using n by (auto simp: append_row_def closing_row_def Let_def)
    ultimately show ?thesis using a(1) by (intro exI [of _ "[n]"]) auto
  qed
  then obtain new where new: "table1 = table @ new" "fresh_rows table new ?seat" "length new \<le> 1"
    "\<forall>n \<in> set new. ar_status n = ''inactive'' \<and> ar_time n \<le> now \<and> at_status cmd = ''active''" by blast
  have r: "table' = table @ (new @ [r]) \<and> fresh_rows table (new @ [r]) ?seat"
    using fresh_append [OF new(2)] t(2,3) unfolding new(1) by blast
  have "ar_time r = now" using t(2,4) by (auto simp: append_row_def Let_def)
  with r new show ?thesis by (intro exI [of _ new]) (auto simp: fresh_rows_def)
qed

lemma attendance_writer_only_appends_witness:
  "\<exists>r n. record_attendance_session_command payroll_env example_seats ''c1'' 7 (example_start 9000000)
      [example_row 1 ''active'' ''start_work'' 0] = Inr (r, [example_row 1 ''active'' ''start_work'' 0, n, r]) \<and> 1 < ar_id n"
proof -
  let ?table = "[example_row 1 ''active'' ''start_work'' 0]"
  have "case record_attendance_session_command payroll_env example_seats ''c1'' 7 (example_start 9000000) ?table of
      Inl e \<Rightarrow> False | Inr (r, t) \<Rightarrow> length t = 3" by code_simp
  then obtain r t where r: "record_attendance_session_command payroll_env example_seats ''c1'' 7 (example_start 9000000) ?table = Inr (r, t)"
    "length t = 3"
    by (auto split: sum.splits)
  from attendance_writer_only_appends [OF r(1)] obtain new where
    n: "t = ?table @ new @ [r]" "\<forall>n \<in> set (new @ [r]). \<forall>x \<in> set ?table. ar_id x < ar_id n" by blast
  with r(2) obtain n where "new = [n]" by (cases new) auto
  with n r(1) show ?thesis by (auto simp: example_row_def)
qed

end
