(* ===== verification/Attendance_Payroll.thy ===== *)
theory Attendance_Payroll
  imports Attendance
begin

text \<open>
  What a seat's attendance owes and what a payroll run pays for it: \<^verbatim>\<open>calculate_seat_payroll_intervals\<close>
  (\<^verbatim>\<open>app/services/attendance_service.py\<close>), pricing (\<^verbatim>\<open>app/services/payroll/pricing.py\<close>) and the attendance-derived
  payroll event of \<^verbatim>\<open>app/feats/prod.py\<close>. The frozen evidence of an event is data: timestamps are compared as
  instants (the code compares their UTC renderings), a rate is the Decimal its text denotes, and evidence of the
  wrong shape is \<open>BadPricing\<close> or \<open>NotADict\<close>.
\<close>

section \<open>Frozen evidence\<close>

record pricing_source =
  so_open :: nat
  so_close :: nat
  so_opened :: int
  so_closed :: int
  so_seconds :: int

record pricing_share =
  sh_policy :: "string option"
  sh_seconds :: int
  sh_rate :: rat
  sh_sources :: "pricing_source list"

text \<open>
  A payroll event's summary: not a dict, a dict without allocation version 1 (with its settlement rule), or version 1
  with readable or unreadable pricing.
\<close>

datatype pay_summary =
    NotADict
  | Historical "string option"
  | BadPricing
  | Frozen "pricing_share list"

record attendance_event = payroll_event +
  ev_seat :: nat
  ev_actor :: nat
  ev_summary :: pay_summary
  ev_policy :: "string option"
  ev_cycle :: "string option"
  ev_key :: string
  ev_correlation :: string

text \<open>\<^verbatim>\<open>as_evidence\<close> raises for an interval without a persisted closing.\<close>

definition as_evidence :: "att_interval \<Rightarrow> pricing_source option" where
  "as_evidence i = (case ai_close_id i of None \<Rightarrow> None
     | Some k \<Rightarrow> Some \<lparr>so_open = ai_open_id i, so_close = k, so_opened = ai_opened i, so_closed = ai_closed i, so_seconds = ai_seconds i\<rparr>)"

definition source_key :: "pricing_source \<Rightarrow> nat \<times> nat" where
  "source_key s = (so_open s, so_close s)"

section \<open>The payroll reading of a seat\<close>

text \<open>One source, one share and one event of frozen membership; \<open>None\<close> is the \<^verbatim>\<open>ValueError\<close> the loop catches.\<close>

definition settle_source :: "pricing_source list \<Rightarrow> pricing_source \<Rightarrow> (nat \<times> nat) list \<Rightarrow> (nat \<times> nat) list option" where
  "settle_source evidence s settled =
     (if source_key s \<in> set settled \<or> s \<notin> set evidence then None else Some (source_key s # settled))"

fun settle_sources :: "pricing_source list \<Rightarrow> pricing_source list \<Rightarrow> (nat \<times> nat) list \<Rightarrow> (nat \<times> nat) list option" where
  "settle_sources evidence [] settled = Some settled"
| "settle_sources evidence (s # ss) settled =
     (case settle_source evidence s settled of None \<Rightarrow> None | Some settled' \<Rightarrow> settle_sources evidence ss settled')"

fun settle_shares :: "pricing_source list \<Rightarrow> pricing_share list \<Rightarrow> (nat \<times> nat) list \<Rightarrow> (nat \<times> nat) list option" where
  "settle_shares evidence [] settled = Some settled"
| "settle_shares evidence (p # ps) settled =
     (if sh_sources p = [] \<or> sum_list (map so_seconds (sh_sources p)) \<noteq> sh_seconds p then None
      else (case settle_sources evidence (sh_sources p) settled of None \<Rightarrow> None
            | Some settled' \<Rightarrow> settle_shares evidence ps settled'))"

record reading =
  rd_historical :: "int list"
  rd_legacy :: "int list"
  rd_settled :: "(nat \<times> nat) list"
  rd_invalid :: bool

text \<open>
  The loop over the seat's events. A membership that fails leaves the pairs met so far settled, as the code's set does,
  but marks the whole reading invalid, so the difference is not observable.
\<close>

definition read_event :: "pricing_source list \<Rightarrow> 'a attendance_event_scheme \<Rightarrow> reading \<Rightarrow> reading" where
  "read_event evidence e rd =
     (case ev_summary e of
        NotADict \<Rightarrow> rd\<lparr>rd_invalid := True\<rparr>
      | Historical rule \<Rightarrow> rd\<lparr>rd_historical := pe_recorded e # rd_historical rd,
          rd_legacy := (if rule = Some ''closed_sessions'' then rd_legacy rd else pe_recorded e # rd_legacy rd)\<rparr>
      | BadPricing \<Rightarrow> rd\<lparr>rd_invalid := True\<rparr>
      | Frozen shares \<Rightarrow>
          if shares = [] then rd\<lparr>rd_invalid := True\<rparr>
          else (case settle_shares evidence shares (rd_settled rd) of
                  None \<Rightarrow> rd\<lparr>rd_invalid := True\<rparr> | Some settled \<Rightarrow> rd\<lparr>rd_settled := settled\<rparr>))"

definition start_reading :: reading where
  "start_reading = \<lparr>rd_historical = [], rd_legacy = [], rd_settled = [], rd_invalid = False\<rparr>"

record seat_payroll =
  sp_payable :: "att_interval list"
  sp_in_progress :: "(int \<times> int) list"
  sp_unprovable :: "att_interval list"

definition strictly_inside :: "int list \<Rightarrow> int \<Rightarrow> int \<Rightarrow> bool" where
  "strictly_inside ts s e = (\<exists>t \<in> set ts. s < t \<and> t < e)"

definition interval_pair :: "att_interval \<Rightarrow> nat \<times> nat option" where
  "interval_pair i = (ai_open_id i, ai_close_id i)"

text \<open>Each closed interval is settled or invalidated, paid by a historical run, unprovable, payable, or empty.\<close>

definition is_skipped :: "reading \<Rightarrow> (nat \<times> nat) list \<Rightarrow> att_interval \<Rightarrow> bool" where
  "is_skipped rd invalidated i =
     (interval_pair i \<in> (\<lambda>(a, b). (a, Some b)) ` set (rd_settled rd @ invalidated)
      \<or> (rd_historical rd \<noteq> [] \<and> ai_closed i \<le> foldr max (rd_historical rd) (hd (rd_historical rd))))"

definition classify_reading :: "reading \<Rightarrow> (nat \<times> nat) list \<Rightarrow> att_interval list \<Rightarrow> seat_payroll" where
  "classify_reading rd invalidated ivs =
     (if rd_invalid rd then \<lparr>sp_payable = [], sp_in_progress = [], sp_unprovable = ivs\<rparr>
      else
      (let candidates = filter (\<lambda>i. ai_close_id i \<noteq> None \<and> \<not> is_skipped rd invalidated i) ivs;
           hidden = (\<lambda>i. strictly_inside (rd_legacy rd) (ai_opened i) (ai_closed i));
           open_iv = List.find (\<lambda>i. ai_close_id i = None) (rev ivs)
       in \<lparr>sp_payable = filter (\<lambda>i. \<not> hidden i \<and> ai_opened i < ai_closed i) candidates,
           sp_in_progress = (case open_iv of None \<Rightarrow> []
             | Some i \<Rightarrow> if hidden i \<or> \<not> ai_opened i < ai_closed i then [] else [(ai_opened i, ai_closed i)]),
           sp_unprovable = filter hidden candidates
             @ (case open_iv of None \<Rightarrow> [] | Some i \<Rightarrow> if hidden i then [i] else [])\<rparr>))"

definition seat_events :: "'a attendance_event_scheme list \<Rightarrow> string \<Rightarrow> nat \<Rightarrow> int \<Rightarrow> 'a attendance_event_scheme list" where
  "seat_events events c seat as_of =
     filter (\<lambda>e. pe_class e = c \<and> ev_seat e = seat \<and> pe_type e = ''payroll'' \<and> pe_recorded e \<le> as_of) events"

definition calculate_seat_payroll_intervals :: "time_env \<Rightarrow> string \<Rightarrow> int \<Rightarrow> att_row list \<Rightarrow> 'a attendance_event_scheme list
    \<Rightarrow> (nat \<times> nat) list \<Rightarrow> nat \<Rightarrow> pay_error + seat_payroll" where
  "calculate_seat_payroll_intervals env c as_of table events invalidated seat =
     (if seat = 0 \<or> c = [] then Inl (PayValue ''calculate_seat_payroll_attendance requires seat_id and class_id.'')
      else rbind (list_attendance_intervals env c as_of table seat) (\<lambda>ivs.
        let evidence = List.map_filter as_evidence ivs;
            rd = fold (read_event evidence) (seat_events events c seat as_of) start_reading
        in Inr (classify_reading rd invalidated ivs)))"

definition interval_span :: "att_interval \<Rightarrow> int \<times> int" where
  "interval_span i = (ai_opened i, ai_closed i)"

definition calculate_seat_payroll_attendance :: "time_env \<Rightarrow> string \<Rightarrow> int \<Rightarrow> att_row list \<Rightarrow> 'a attendance_event_scheme list
    \<Rightarrow> (nat \<times> nat) list \<Rightarrow> nat \<Rightarrow> pay_error + (int \<times> int)" where
  "calculate_seat_payroll_attendance env c as_of table events invalidated seat =
     rbind (calculate_seat_payroll_intervals env c as_of table events invalidated seat) (\<lambda>sp.
     rbind (elapsed_attendance_seconds env c (map interval_span (sp_payable sp))) (\<lambda>payable.
     rbind (elapsed_attendance_seconds env c (sp_in_progress sp)) (\<lambda>in_progress. Inr (payable, in_progress))))"

section \<open>Pricing\<close>

definition amount_for :: "int \<Rightarrow> rat \<Rightarrow> rat" where
  "amount_for seconds rate = of_cents (cents_even (ddiv (dmul (of_int seconds) rate) 60))"

record setting_share =
  st_policy :: "string option"
  st_rate :: rat
  st_seconds :: int
  st_last_closed :: int
  st_sources :: "pricing_source list"

definition share_amount :: "setting_share \<Rightarrow> rat" where
  "share_amount s = amount_for (st_seconds s) (st_rate s)"

definition as_summary :: "setting_share \<Rightarrow> pricing_share" where
  "as_summary s = \<lparr>sh_policy = st_policy s, sh_seconds = st_seconds s, sh_rate = st_rate s, sh_sources = st_sources s\<rparr>"

text \<open>\<^verbatim>\<open>sum(..., Decimal("0.00"))\<close> over the shares and over the frozen entries: one Decimal addition each, from the left.\<close>

fun add_shares :: "rat \<Rightarrow> setting_share list \<Rightarrow> rat" where
  "add_shares acc [] = acc"
| "add_shares acc (s # ss) = add_shares (dadd acc (share_amount s)) ss"

definition priced_amount :: "setting_share list \<Rightarrow> rat" where
  "priced_amount shares = add_shares 0 shares"

definition priced_policy :: "setting_share list \<Rightarrow> string option" where
  "priced_policy shares = (case shares of [] \<Rightarrow> None
     | s # ss \<Rightarrow> st_policy (fold (\<lambda>x best. if st_last_closed best < st_last_closed x then x else best) ss s))"

fun add_entries :: "rat \<Rightarrow> pricing_share list \<Rightarrow> rat" where
  "add_entries acc [] = acc"
| "add_entries acc (p # ps) = add_entries (dadd acc (amount_for (sh_seconds p) (sh_rate p))) ps"

definition amount_from_summary :: "pricing_share list \<Rightarrow> rat" where
  "amount_from_summary pricing = add_entries 0 pricing"

text \<open>
  \<^verbatim>\<open>_price_intervals\<close>: an interval to price is its span with its evidence when it has one (a closed interval); the
  settings are grouped in the order they are first met.
\<close>

type_synonym priced_interval = "(int \<times> int) \<times> pricing_source option"

definition governing :: "payroll_setting list \<Rightarrow> string \<Rightarrow> priced_interval \<Rightarrow> payroll_setting option" where
  "governing settings c i = payroll_setting_governing_work settings c (snd (fst i))"

definition share_of :: "time_env \<Rightarrow> string \<Rightarrow> payroll_setting list \<Rightarrow> priced_interval list \<Rightarrow> string option
    \<Rightarrow> pay_error + setting_share option" where
  "share_of env c settings ivs policy =
     (let grouped = filter (\<lambda>i. map_option ps_uuid (governing settings c i) = policy) ivs in
      rbind (elapsed_attendance_seconds env c (map fst grouped)) (\<lambda>n.
        if n \<le> 0 then Inr None
        else Inr (Some \<lparr>st_policy = policy,
          st_rate = (case map_option sf_pay_rate (governing settings c (last grouped)) of None \<Rightarrow> default_rate | Some r \<Rightarrow> r),
          st_seconds = n, st_last_closed = foldr max (map (snd \<circ> fst) grouped) (snd (fst (hd grouped))),
          st_sources = List.map_filter snd grouped\<rparr>)))"

definition price_intervals :: "time_env \<Rightarrow> string \<Rightarrow> payroll_setting list \<Rightarrow> bool \<Rightarrow> priced_interval list
    \<Rightarrow> pay_error + setting_share list" where
  "price_intervals env c settings estimate ivs =
     (if \<not> estimate \<and> (\<exists>i \<in> set ivs. governing settings c i = None)
      then Inl (PayLookup ''Class has no payroll setting to price attendance with.'')
      else rbind (rmapM (share_of env c settings ivs) (rev (remdups (rev (map (\<lambda>i. map_option ps_uuid (governing settings c i)) ivs)))))
        (\<lambda>shares. Inr (sort_key st_last_closed (List.map_filter id shares))))"

definition closed_for_pricing :: "att_interval \<Rightarrow> priced_interval" where
  "closed_for_pricing i = (interval_span i, as_evidence i)"

definition price_payable_attendance :: "time_env \<Rightarrow> string \<Rightarrow> payroll_setting list \<Rightarrow> int \<Rightarrow> att_row list
    \<Rightarrow> 'a attendance_event_scheme list \<Rightarrow> (nat \<times> nat) list \<Rightarrow> nat \<Rightarrow> pay_error + setting_share list" where
  "price_payable_attendance env c settings as_of table events invalidated seat =
     rbind (calculate_seat_payroll_intervals env c as_of table events invalidated seat) (\<lambda>sp.
       if sp_unprovable sp \<noteq> [] then Inl (PayValue ''Historical partial settlement has no provable interval membership.'')
       else price_intervals env c settings False (map closed_for_pricing (sp_payable sp)))"

definition estimate_payable_amount :: "time_env \<Rightarrow> string \<Rightarrow> payroll_setting list \<Rightarrow> int \<Rightarrow> att_row list
    \<Rightarrow> 'a attendance_event_scheme list \<Rightarrow> (nat \<times> nat) list \<Rightarrow> nat \<Rightarrow> pay_error + rat" where
  "estimate_payable_amount env c settings as_of table events invalidated seat =
     rbind (calculate_seat_payroll_intervals env c as_of table events invalidated seat) (\<lambda>sp.
     rbind (price_intervals env c settings True (map closed_for_pricing (sp_payable sp))) (\<lambda>shares.
       Inr (priced_amount shares)))"

definition estimate_unpaid_amount :: "time_env \<Rightarrow> string \<Rightarrow> payroll_setting list \<Rightarrow> int \<Rightarrow> att_row list
    \<Rightarrow> 'a attendance_event_scheme list \<Rightarrow> (nat \<times> nat) list \<Rightarrow> nat \<Rightarrow> pay_error + rat" where
  "estimate_unpaid_amount env c settings as_of table events invalidated seat =
     rbind (calculate_seat_payroll_intervals env c as_of table events invalidated seat) (\<lambda>sp.
     rbind (price_intervals env c settings True
              (map closed_for_pricing (sp_payable sp) @ map (\<lambda>i. (i, None)) (sp_in_progress sp))) (\<lambda>shares.
       Inr (priced_amount shares)))"

end
