(* ===== verification/Payroll_Run.thy ===== *)
theory Payroll_Run
  imports Attendance_Payroll Ledger_Core
begin

text \<open>
  The payroll run: one payroll event per seat with its ledger credit (\<^verbatim>\<open>_record_payroll_event_impl\<close> of
  \<^verbatim>\<open>app/feats/prod.py\<close>), the class-wide settlement (\<^verbatim>\<open>app/services/payroll/settlement.py\<close>), the completion anchor
  (\<^verbatim>\<open>cycle_completion.py\<close>) and the orchestrator (\<^verbatim>\<open>app/feats/complete_payroll_cycle.py\<close>). The attendance rows, the
  payroll events, the ledger and the anchors are one state; an exception discards it, as the rolled-back transaction
  does. The advisory lock and the row locks serialise the runs of one seat and have no other effect on one run.
\<close>

section \<open>State\<close>

datatype prod_error = PayErr pay_error | LedErr led_error

definition pay_part :: "pay_error + 'a \<Rightarrow> prod_error + 'a" where
  "pay_part r = map_sum PayErr id r"

definition led_part :: "led_error + 'a \<Rightarrow> prod_error + 'a" where
  "led_part r = map_sum LedErr id r"

definition prod_guard :: "bool \<Rightarrow> pay_error \<Rightarrow> prod_error + unit" where
  "prod_guard ok e = rguard ok (PayErr e)"

text \<open>What a run reads and never writes.\<close>

record 'h payroll_setup =
  su_env :: time_env
  su_seats :: "seat_row list"
  su_settings :: "payroll_setting list"
  su_invalidated :: "string \<Rightarrow> nat \<Rightarrow> (nat \<times> nat) list"
  su_digest :: "fprint \<Rightarrow> 'h"
  su_race :: "'h ledger \<Rightarrow> 'h ledger"
  su_feat :: feat_ctx

record completion =
  cc_class :: string
  cc_key :: string
  cc_cycle :: string

record 'h payroll_world =
  pw_rows :: "att_row list"
  pw_events :: "attendance_event list"
  pw_ledger :: "'h ledger"
  pw_completions :: "completion list"

record payroll_request =
  rq_seat :: nat
  rq_type :: string
  rq_key :: string
  rq_mechanism :: string
  rq_policy :: "string option"
  rq_summary :: pay_summary
  rq_description :: "string option"
  rq_occurrence :: "int option"
  rq_reference :: "int option"
  rq_amount :: "rat option"
  rq_cycle :: "string option"

record payroll_outcome =
  po_event :: attendance_event
  po_tx :: "tx option"
  po_replayed :: bool

section \<open>One payroll event\<close>

definition find_event :: "attendance_event list \<Rightarrow> string \<Rightarrow> payroll_request \<Rightarrow> attendance_event option" where
  "find_event events c rq = List.find (\<lambda>e. pe_class e = c \<and> ev_seat e = rq_seat rq \<and> pe_type e = rq_type rq
     \<and> ev_key e = rq_key rq) events"

text \<open>The guards before anything is read for the event itself.\<close>

definition check_request :: "'h payroll_setup \<Rightarrow> string \<Rightarrow> payroll_request \<Rightarrow> prod_error + unit" where
  "check_request su c rq =
     (let mechanism = str_upper (str_strip (rq_mechanism rq)) in
      rbind (prod_guard (mechanism \<in> {''TEACHER'', ''SYSTEM''}) (PayValue ''FEAT-PROD-003 mechanism must be TEACHER or SYSTEM.'')) (\<lambda>_.
      rbind (prod_guard (rq_type rq = ''payroll'' \<longrightarrow> rq_policy rq = None) (PayValue ''a caller-supplied policy_uuid is refused.'')) (\<lambda>_.
      prod_guard (case rq_policy rq of None \<Rightarrow> True | Some u \<Rightarrow> payroll_setting_by_uuid (su_settings su) c u \<noteq> None)
        (PayValue ''FEAT-PROD-003 requires a payroll setting owned by the current class.''))))"

text \<open>
  What an attendance-derived event pays: the due sessions are closed, the payable ones priced. The result is the rows,
  the amount, the policy and the frozen summary; a manual credit keeps what the caller gave.
\<close>

definition price_event :: "'h payroll_setup \<Rightarrow> string \<Rightarrow> nat \<Rightarrow> int \<Rightarrow> payroll_request \<Rightarrow> 'h payroll_world
    \<Rightarrow> prod_error + (att_row list \<times> rat \<times> string option \<times> pay_summary)" where
  "price_event su c actor now rq w =
     (if rq_type rq = ''payroll'' then
        rbind (prod_guard (rq_amount rq = None) (PayValue ''a payroll amount cannot be supplied.'')) (\<lambda>_.
        rbind (pay_part (close_due_attendance_intervals (su_env su) (su_seats su) c actor (rq_seat rq) (su_settings su) now (pw_rows w)))
          (\<lambda>rows.
        rbind (pay_part (price_payable_attendance (su_env su) c (su_settings su) now rows (pw_events w)
                 (su_invalidated su c (rq_seat rq)) (rq_seat rq))) (\<lambda>shares.
        rbind (prod_guard (priced_policy shares \<noteq> None) (PayValue ''no payable attendance to price.'')) (\<lambda>_.
          Inr (rows, priced_amount shares, priced_policy shares, Frozen (map as_summary shares))))))
      else (case rq_amount rq of
          None \<Rightarrow> Inl (PayErr (PayValue ''manual_credit payroll events require an amount.''))
        | Some a \<Rightarrow> Inr (pw_rows w, a, rq_policy rq, rq_summary rq)))"

definition check_target :: "'h payroll_setup \<Rightarrow> string \<Rightarrow> nat \<Rightarrow> prod_error + unit" where
  "check_target su c seat =
     (case List.find (\<lambda>s. se_id s = seat \<and> se_class s = c) (su_seats su) of
        None \<Rightarrow> Inl (PayErr (PayLookup ''Seat not found.''))
      | Some s \<Rightarrow> prod_guard (se_claimed s \<noteq> None \<and> se_user s \<noteq> None) (PayValue ''A payroll event target seat must be claimed.''))"

definition next_event_id :: "attendance_event list \<Rightarrow> nat" where
  "next_event_id events = Suc (foldr max (map pe_id events) 0)"

definition payroll_effect :: "string \<Rightarrow> nat \<Rightarrow> payroll_request \<Rightarrow> rat \<Rightarrow> effect" where
  "payroll_effect c actor rq amount =
     \<lparr>ef_seat = rq_seat rq, ef_class = c, ef_target = rq_seat rq, ef_actor = actor,
      ef_mechanism = str_lower (str_upper (str_strip (rq_mechanism rq))), ef_amount = amount, ef_account = ''checking'',
      ef_type = (if rq_type rq = ''manual_credit'' then ''manual_payment'' else ''payroll''),
      ef_description = (case rq_description rq of None \<Rightarrow> ''Payroll event'' | Some d \<Rightarrow> d),
      ef_original = None, ef_policy = None, ef_subtype = None, ef_correlation = None, ef_comp_origin = None,
      ef_comp_cents = 0, ef_intent = None\<rparr>"

definition post_credit :: "'h payroll_setup \<Rightarrow> string \<Rightarrow> nat \<Rightarrow> payroll_request \<Rightarrow> rat \<Rightarrow> 'h ledger \<Rightarrow> prod_error + (tx option \<times> 'h ledger)" where
  "post_credit su c actor rq amount led =
     (if amount = 0 then Inr (None, led)
      else rbind (led_part (create_pending_transaction (su_digest su) (su_race su) (su_feat su) (utc_clock (su_env su))
                   (Some (rq_key rq)) None (payroll_effect c actor rq amount) led)) (\<lambda>(t, led'). Inr (Some t, led')))"

definition new_event :: "'h payroll_setup \<Rightarrow> string \<Rightarrow> nat \<Rightarrow> int \<Rightarrow> payroll_request \<Rightarrow> string option \<Rightarrow> pay_summary
    \<Rightarrow> attendance_event list \<Rightarrow> attendance_event" where
  "new_event su c actor now rq policy summary events =
     \<lparr>pe_id = next_event_id events, pe_class = c, pe_type = rq_type rq, pe_mechanism = str_upper (str_strip (rq_mechanism rq)),
      pe_recorded = now, pe_occurrence = rq_occurrence rq, ev_seat = rq_seat rq, ev_actor = actor, ev_summary = summary,
      ev_policy = policy, ev_cycle = rq_cycle rq, ev_key = rq_key rq, ev_correlation = fc_correlation (su_feat su)\<rparr>"

definition record_new_event :: "'h payroll_setup \<Rightarrow> string \<Rightarrow> nat \<Rightarrow> payroll_request \<Rightarrow> 'h payroll_world
    \<Rightarrow> prod_error + (payroll_outcome \<times> 'h payroll_world)" where
  "record_new_event su c actor rq w =
     rbind (check_request su c rq) (\<lambda>_.
     rbind (pay_part (pay_time (canonical_temporal_resolver (su_env su) ''CLE'' (Some (Some c)) ''current_time''
              (map_option Aware (rq_reference rq)) no_kwargs))) (\<lambda>ev.
     rbind (prod_guard (class_exists (pw_ledger w) c) (PayLookup ''No class economy found.'')) (\<lambda>_.
     rbind (price_event su c actor (canonical_now_utc ev) rq w) (\<lambda>(rows, amount, policy, summary).
     rbind (check_target su c (rq_seat rq)) (\<lambda>_.
     rbind (post_credit su c actor rq amount (pw_ledger w)) (\<lambda>(t, led).
       let e = new_event su c actor (canonical_now_utc ev) rq policy summary (pw_events w) in
       Inr (\<lparr>po_event = e, po_tx = t, po_replayed = False\<rparr>,
            w\<lparr>pw_rows := rows, pw_events := pw_events w @ [e], pw_ledger := led\<rparr>)))))))"

definition record_payroll_event :: "'h payroll_setup \<Rightarrow> string \<Rightarrow> nat \<Rightarrow> payroll_request \<Rightarrow> 'h payroll_world
    \<Rightarrow> prod_error + (payroll_outcome \<times> 'h payroll_world)" where
  "record_payroll_event su c actor rq w =
     rbind (prod_guard (c \<noteq> [] \<and> actor \<noteq> 0) (PayValue ''CanonicalContext must include class_id and seat_id.'')) (\<lambda>_.
     rbind (prod_guard (rq_type rq \<in> {''payroll'', ''manual_credit''})
              (PayValue ''Compensation requires the signed payroll recovery FEAT command.'')) (\<lambda>_.
     case (if rq_key rq = [] then None else find_event (pw_events w) c rq) of
       Some e \<Rightarrow> Inr (\<lparr>po_event = e, po_tx = List.find (\<lambda>t. tx_key t = Some (rq_key rq)) (txs (pw_ledger w)),
                     po_replayed = True\<rparr>, w)
     | None \<Rightarrow> record_new_event su c actor rq w))"

section \<open>Class-wide settlement\<close>

definition eligible_seat_ids :: "seat_row list \<Rightarrow> att_row list \<Rightarrow> string \<Rightarrow> nat list" where
  "eligible_seat_ids seats rows c =
     sort (map se_id (filter (\<lambda>s. se_role s = ''student'' \<and> se_class s = c \<and> se_claimed s \<noteq> None
        \<and> (\<exists>r \<in> set rows. ar_class r = c \<and> ar_seat r = se_id s)) seats))"

definition already_settled :: "attendance_event list \<Rightarrow> string \<Rightarrow> nat \<Rightarrow> string \<Rightarrow> bool" where
  "already_settled events c seat cycle =
     (\<exists>e \<in> set events. pe_class e = c \<and> ev_seat e = seat \<and> ev_cycle e = Some cycle \<and> pe_type e = ''payroll'')"

record settlement_run =
  sr_cycle :: string
  sr_boundary :: int
  sr_mechanism :: string
  sr_occurrence :: "int option"

text \<open>\<^verbatim>\<open>f"payroll-cycle:{cycle}:seat:{seat}"\<close>, with the decimal digits of the seat.\<close>

fun digits :: "nat \<Rightarrow> string" where
  "digits n = (if n < 10 then [char_of (48 + n)] else digits (n div 10) @ [char_of (48 + n mod 10)])"

definition seat_request :: "settlement_run \<Rightarrow> nat \<Rightarrow> payroll_request" where
  "seat_request run seat =
     \<lparr>rq_seat = seat, rq_type = ''payroll'', rq_key = ''payroll-cycle:'' @ sr_cycle run @ '':seat:'' @ digits seat,
      rq_mechanism = sr_mechanism run, rq_policy = None, rq_summary = Historical None,
      rq_description = Some ''Payroll based on attendance'', rq_occurrence = sr_occurrence run,
      rq_reference = Some (sr_boundary run), rq_amount = None, rq_cycle = Some (sr_cycle run)\<rparr>"

text \<open>One seat of the loop: what it settled or skipped, and the state.\<close>

type_synonym 'h settling = "(nat list \<times> nat list) \<times> 'h payroll_world"

definition settle_seat :: "'h payroll_setup \<Rightarrow> string \<Rightarrow> nat \<Rightarrow> settlement_run \<Rightarrow> nat \<Rightarrow> 'h settling \<Rightarrow> prod_error + 'h settling" where
  "settle_seat su c actor run seat st =
     (case st of ((settled, skipped), w) \<Rightarrow>
      if already_settled (pw_events w) c seat (sr_cycle run) then Inr ((settled, skipped @ [seat]), w)
      else
      rbind (pay_part (close_due_attendance_intervals (su_env su) (su_seats su) c actor seat (su_settings su) (sr_boundary run) (pw_rows w)))
        (\<lambda>rows. let w1 = w\<lparr>pw_rows := rows\<rparr> in
      rbind (pay_part (calculate_seat_payroll_intervals (su_env su) c (sr_boundary run) rows (pw_events w) (su_invalidated su c seat) seat))
        (\<lambda>sp.
      rbind (prod_guard (sp_unprovable sp = []) (PaySettlement ''Historical partial settlement has no provable interval membership.'')) (\<lambda>_.
      rbind (pay_part (calculate_seat_payroll_attendance (su_env su) c (sr_boundary run) rows (pw_events w) (su_invalidated su c seat) seat))
        (\<lambda>(payable, in_progress).
      if payable \<le> 0 then Inr ((settled, skipped), w1)
      else rbind (record_payroll_event su c actor (seat_request run seat) w1) (\<lambda>(out, w2).
        Inr ((settled @ [seat], skipped), w2)))))))"

definition settle_class_payroll_cycle :: "'h payroll_setup \<Rightarrow> string \<Rightarrow> nat \<Rightarrow> settlement_run \<Rightarrow> 'h payroll_world
    \<Rightarrow> prod_error + ((nat list \<times> nat list) \<times> 'h payroll_world)" where
  "settle_class_payroll_cycle su c actor run w =
     rbind (prod_guard (c \<noteq> [] \<and> sr_cycle run \<noteq> []) (PayValue ''class_id and payroll_cycle_id are required for settlement'')) (\<lambda>_.
     rbind (prod_guard (sr_mechanism run \<in> {''TEACHER'', ''SYSTEM''}) (PayValue ''run_mechanism must be one of SYSTEM, TEACHER'')) (\<lambda>_.
     rbind (prod_guard (sr_mechanism run = ''SYSTEM'' \<longrightarrow> sr_occurrence run \<noteq> None)
              (PayValue ''A SYSTEM payroll run must name the scheduled occurrence it settles.'')) (\<lambda>_.
     rbind (prod_guard (class_has_payroll_settings (su_settings su) c) (PaySettlement ''Class has no payroll settings; cannot settle a payroll cycle.'')) (\<lambda>_.
     let seats = eligible_seat_ids (su_seats su) (pw_rows w) c in
     rbind (pay_part (rmapM (\<lambda>s. lock_attendance_seat (su_seats su) s c) seats)) (\<lambda>_.
     rbind (rfold (settle_seat su c actor run) seats (([], []), w)) (\<lambda>((settled, skipped), w').
     rbind (prod_guard (settled \<noteq> [] \<or> skipped \<noteq> []) (PaySettlement ''No seat has closed, unpaid attendance to settle.'')) (\<lambda>_.
       Inr ((settled, skipped), w'))))))))"

section \<open>Completion\<close>

definition find_completion :: "completion list \<Rightarrow> string \<Rightarrow> string \<Rightarrow> completion option" where
  "find_completion cs c key = List.find (\<lambda>x. cc_class x = c \<and> cc_key x = key) cs"

definition resolve_completed_run :: "completion list \<Rightarrow> string \<Rightarrow> string \<Rightarrow> string option" where
  "resolve_completed_run cs c key =
     (if c = [] \<or> key = [] then None else map_option cc_cycle (find_completion cs c key))"

definition record_run_completion :: "string \<Rightarrow> string \<Rightarrow> string \<Rightarrow> completion list \<Rightarrow> prod_error + (bool \<times> completion list)" where
  "record_run_completion c key cycle cs =
     rbind (prod_guard (c \<noteq> [] \<and> key \<noteq> [] \<and> cycle \<noteq> [])
        (PayValue ''class_id, idempotency_key, and payroll_cycle_id are required to record a completion'')) (\<lambda>_.
     case find_completion cs c key of
       Some x \<Rightarrow> if cc_cycle x = cycle then Inr (False, cs) else Inl (PayErr PayIntegrity)
     | None \<Rightarrow> Inr (True, cs @ [\<lparr>cc_class = c, cc_key = key, cc_cycle = cycle\<rparr>]))"

text \<open>
  The window of the cycle that closes now; \<open>created\<close> is the creation instant of the class row when it exists.
\<close>

definition get_completed_cycle_window :: "attendance_event list \<Rightarrow> string \<Rightarrow> int option \<Rightarrow> int \<Rightarrow> prod_error + (int \<times> int)" where
  "get_completed_cycle_window events c created boundary =
     (if c = [] then Inl (PayErr (PayValue ''class_id and boundary_utc are required to resolve a cycle window''))
      else (case map pe_recorded (filter (\<lambda>e. pe_class e = c \<and> pe_type e = ''payroll'' \<and> pe_recorded e < boundary) events) of
        t # ts \<Rightarrow> Inr (foldr max ts t, boundary)
      | [] \<Rightarrow> (case created of None \<Rightarrow> Inl (PayErr (PayValue ''class not found; cannot resolve genesis cycle window''))
          | Some t \<Rightarrow> Inr (t, boundary))))"

text \<open>
  The orchestrator. \<open>cycle\<close> is the identity \<^verbatim>\<open>uuid4\<close> allocates; \<open>interpret\<close> is the interpretation domain's step over
  the settled state (\<^verbatim>\<open>app/services/interpretation\<close>, not modelled), which may refuse.
\<close>

record cycle_result =
  cr_cycle :: string
  cr_created :: bool
  cr_settled :: "nat list option"

definition complete_payroll_cycle :: "'h payroll_setup \<Rightarrow> ('h payroll_world \<Rightarrow> prod_error + unit) \<Rightarrow> string \<Rightarrow> string \<Rightarrow> nat \<Rightarrow> string
    \<Rightarrow> int \<Rightarrow> string \<Rightarrow> int option \<Rightarrow> 'h payroll_world \<Rightarrow> prod_error + (cycle_result \<times> 'h payroll_world)" where
  "complete_payroll_cycle su interpret cycle c actor key completed_at mechanism occurrence w =
     rbind (prod_guard (c \<noteq> []) (PayValue ''complete_payroll_cycle requires a lawful class-bound context'')) (\<lambda>_.
     rbind (prod_guard (key \<noteq> []) (PayValue ''complete_payroll_cycle requires an idempotency_key'')) (\<lambda>_.
     case resolve_completed_run (pw_completions w) c key of
       Some existing \<Rightarrow> Inr (\<lparr>cr_cycle = existing, cr_created = False, cr_settled = None\<rparr>, w)
     | None \<Rightarrow>
       rbind (settle_class_payroll_cycle su c actor
                \<lparr>sr_cycle = cycle, sr_boundary = completed_at, sr_mechanism = mechanism, sr_occurrence = occurrence\<rparr> w)
         (\<lambda>((settled, skipped), w1).
       rbind (interpret w1) (\<lambda>_.
       rbind (record_run_completion c key cycle (pw_completions w1)) (\<lambda>(created, cs).
         Inr (\<lparr>cr_cycle = cycle, cr_created = True, cr_settled = Some settled\<rparr>, w1\<lparr>pw_completions := cs\<rparr>))))))"

end
