(* ===== verification/Payroll_Membership.thy ===== *)
theory Payroll_Membership
  imports Payroll_Run Attendance_Claims
begin

text \<open>
  Frozen membership, algebraically: when the reading of a seat's payroll events is valid, what it settles is exactly the
  pairs the events name, without repetition; and the shares a run prices name exactly the sessions it found payable.
\<close>

section \<open>Reading the events\<close>

definition share_keys :: "pricing_share \<Rightarrow> (nat \<times> nat) list" where
  "share_keys p = map source_key (sh_sources p)"

definition event_pairs :: "'a attendance_event_scheme \<Rightarrow> (nat \<times> nat) list" where
  "event_pairs e = (case ev_summary e of Frozen shares \<Rightarrow> concat (map share_keys shares) | _ \<Rightarrow> [])"

text \<open>Every pair the payroll events of a seat name, in the order of the events.\<close>

definition paid_pairs :: "'a attendance_event_scheme list \<Rightarrow> string \<Rightarrow> nat \<Rightarrow> (nat \<times> nat) list" where
  "paid_pairs events c seat =
     concat (map event_pairs (filter (\<lambda>e. pe_class e = c \<and> ev_seat e = seat \<and> pe_type e = ''payroll'') events))"

definition share_valid :: "pricing_source list \<Rightarrow> pricing_share \<Rightarrow> bool" where
  "share_valid evidence p = (sh_sources p \<noteq> [] \<and> sum_list (map so_seconds (sh_sources p)) = sh_seconds p
     \<and> set (sh_sources p) \<subseteq> set evidence)"

lemma settle_sources_eq:
  "distinct st \<Longrightarrow> settle_sources evidence ss st =
     (if set ss \<subseteq> set evidence \<and> distinct (rev (map source_key ss) @ st) then Some (rev (map source_key ss) @ st) else None)"
  by (induction ss arbitrary: st) (auto simp: settle_source_def)

lemma settle_shares_eq:
  "distinct st \<Longrightarrow> settle_shares evidence ps st =
     (if (\<forall>p \<in> set ps. share_valid evidence p) \<and> distinct (rev (concat (map share_keys ps)) @ st)
      then Some (rev (concat (map share_keys ps)) @ st) else None)"
proof (induction ps arbitrary: st)
  case (Cons p ps)
  have k: "rev (map source_key (sh_sources p)) = rev (share_keys p)" by (simp add: share_keys_def)
  show ?case
  proof (cases "share_valid evidence p \<and> distinct (rev (share_keys p) @ st)")
    case True
    then have "settle_sources evidence (sh_sources p) st = Some (rev (share_keys p) @ st)"
      using settle_sources_eq [OF Cons.prems, of evidence "sh_sources p"] by (simp add: share_valid_def k)
    with True Cons.IH [of "rev (share_keys p) @ st"] show ?thesis by (auto simp: share_valid_def)
  next
    case False
    then show ?thesis
      using settle_sources_eq [OF Cons.prems, of evidence "sh_sources p"] by (auto simp: share_valid_def k)
  qed
qed simp

text \<open>An event that names sessions is readable when its shares are valid.\<close>

definition event_valid :: "pricing_source list \<Rightarrow> 'a attendance_event_scheme \<Rightarrow> bool" where
  "event_valid evidence e = (case ev_summary e of NotADict \<Rightarrow> False | BadPricing \<Rightarrow> False | Historical rule \<Rightarrow> True
     | Frozen shares \<Rightarrow> shares \<noteq> [] \<and> (\<forall>p \<in> set shares. share_valid evidence p))"

lemma read_event_settled:
  assumes "distinct (rd_settled rd)" "\<not> rd_invalid rd"
  shows "\<not> rd_invalid (read_event evidence e rd) \<longleftrightarrow> event_valid evidence e \<and> distinct (rev (event_pairs e) @ rd_settled rd)"
    "\<not> rd_invalid (read_event evidence e rd) \<Longrightarrow> rd_settled (read_event evidence e rd) = rev (event_pairs e) @ rd_settled rd"
  using assms by (auto simp: read_event_def event_valid_def event_pairs_def settle_shares_eq split: pay_summary.splits option.splits if_splits)

lemma read_event_invalid: "rd_invalid rd \<Longrightarrow> rd_invalid (read_event evidence e rd)"
  by (auto simp: read_event_def split: pay_summary.splits option.splits)

lemma fold_read_invalid: "rd_invalid rd \<Longrightarrow> rd_invalid (fold (read_event evidence) es rd)"
  by (induction es arbitrary: rd) (auto simp: read_event_invalid)

lemma fold_read_settled:
  assumes "distinct (rd_settled rd)" "\<not> rd_invalid rd"
  shows "\<not> rd_invalid (fold (read_event evidence) es rd)
       \<longleftrightarrow> (\<forall>e \<in> set es. event_valid evidence e) \<and> distinct (rev (concat (map event_pairs es)) @ rd_settled rd)"
    "\<not> rd_invalid (fold (read_event evidence) es rd)
       \<Longrightarrow> rd_settled (fold (read_event evidence) es rd) = rev (concat (map event_pairs es)) @ rd_settled rd"
proof -
  have "(\<not> rd_invalid (fold (read_event evidence) es rd)
       \<longleftrightarrow> (\<forall>e \<in> set es. event_valid evidence e) \<and> distinct (rev (concat (map event_pairs es)) @ rd_settled rd))
    \<and> (\<not> rd_invalid (fold (read_event evidence) es rd)
       \<longrightarrow> rd_settled (fold (read_event evidence) es rd) = rev (concat (map event_pairs es)) @ rd_settled rd)"
    using assms
  proof (induction es arbitrary: rd)
    case (Cons e es)
    let ?rd = "read_event evidence e rd"
    show ?case
    proof (cases "rd_invalid ?rd")
      case True
      then have "rd_invalid (fold (read_event evidence) (e # es) rd)" by (simp add: fold_read_invalid)
      moreover have "\<not> (event_valid evidence e \<and> distinct (rev (event_pairs e) @ rd_settled rd))"
        using True read_event_settled(1) [OF Cons.prems] by blast
      ultimately show ?thesis by auto
    next
      case False
      then have v: "event_valid evidence e \<and> distinct (rev (event_pairs e) @ rd_settled rd)"
        using read_event_settled(1) [OF Cons.prems] by blast
      have s1: "rd_settled ?rd = rev (event_pairs e) @ rd_settled rd"
        by (rule read_event_settled(2) [OF Cons.prems False])
      note s = s1 conjunct1 [OF v] conjunct2 [OF v, folded s1]
      from Cons.IH [OF s(3) False] s show ?thesis by simp
    qed
  qed simp
  then show "\<not> rd_invalid (fold (read_event evidence) es rd)
       \<longleftrightarrow> (\<forall>e \<in> set es. event_valid evidence e) \<and> distinct (rev (concat (map event_pairs es)) @ rd_settled rd)"
    "\<not> rd_invalid (fold (read_event evidence) es rd)
       \<Longrightarrow> rd_settled (fold (read_event evidence) es rd) = rev (concat (map event_pairs es)) @ rd_settled rd"
    by blast+
qed

lemma start_reading_simps [simp]: "rd_settled start_reading = []" "\<not> rd_invalid start_reading"
  "rd_historical start_reading = []" "rd_legacy start_reading = []"
  by (simp_all add: start_reading_def)

section \<open>Intervals have their own opening rows\<close>

definition op_ids :: "(att_row \<times> int) option \<Rightarrow> nat list" where
  "op_ids op = (case op of None \<Rightarrow> [] | Some p \<Rightarrow> [ar_id (fst p)])"

lemma op_ids_simps [simp]: "op_ids None = []" "op_ids (Some (r, e)) = [ar_id r]"
  by (simp_all add: op_ids_def)

lemma pair_rows_ids:
  "pair_rows env c as_of rows rs opening consumed = Inr (ivs, op) \<Longrightarrow> distinct (op_ids opening @ map ar_id rs) \<Longrightarrow>
     distinct (map ai_open_id ivs @ op_ids op) \<and> set (map ai_open_id ivs @ op_ids op) \<subseteq> set (op_ids opening @ map ar_id rs)"
proof (induction rs arbitrary: "opening" consumed ivs op)
  case Nil
  then show ?case by auto
next
  case (Cons r rs)
  have same: "distinct (map ai_open_id js @ op_ids op) \<and> set (map ai_open_id js @ op_ids op) \<subseteq> set (op_ids x @ map ar_id rs)"
    if "pair_rows env c as_of rows rs x consumed' = Inr (js, op)" "distinct (op_ids x @ map ar_id rs)" for x consumed' js
    using Cons.IH [OF that] .
  note d = Cons.prems(2) and p = Cons.prems(1)
  show ?case
  proof (cases "ar_id r \<in> set consumed \<or> as_of < ar_time r \<or> (ar_status r \<noteq> ''active'' \<and> ar_status r \<noteq> ''inactive'')")
    case True
    then have "pair_rows env c as_of rows rs opening consumed = Inr (ivs, op) \<or> (ivs = [] \<and> op = opening)"
      using p by (auto split: if_splits)
    with same [of "opening" consumed ivs] d show ?thesis by auto
  next
    case False
    then have now: "\<not> as_of < ar_time r" "ar_id r \<notin> set consumed" by auto
    show ?thesis
    proof (cases "opening")
      case None
      with p now False obtain x consumed' where x: "pair_rows env c as_of rows rs x consumed' = Inr (ivs, op)"
        "op_ids x = [] \<or> op_ids x = [ar_id r]"
        by (auto simp: res_simps split: if_splits)
      have r: "ar_id r \<notin> set (map ar_id rs)" "distinct (map ar_id rs)" using d None by simp_all
      from x(2) have "distinct (op_ids x @ map ar_id rs) \<and> set (op_ids x) \<subseteq> {ar_id r}" using r by (elim disjE) simp_all
      then show ?thesis using same [of x consumed' ivs, OF x(1)] None by auto
    next
      case (Some q)
      obtain o' oe where q: "q = (o', oe)" by fastforce
      from p now False Some q consider
        "pair_rows env c as_of rows rs opening consumed = Inr (ivs, op)"
        | js x consumed' i where "pair_rows env c as_of rows rs x consumed' = Inr (js, op)" "ivs = i # js"
            "ai_open_id i = ar_id o'" "op_ids x = [] \<or> op_ids x = [ar_id r]"
        by (auto simp: res_simps att_interval_of_def Let_def split: if_splits)
      then show ?thesis
      proof cases
        case 1
        with same [OF 1] d show ?thesis by auto
      next
        case 2
        have r: "ar_id r \<notin> set (map ar_id rs)" "distinct (map ar_id rs)" using d by simp_all
        from 2(4) have "distinct (op_ids x @ map ar_id rs)" using r by (elim disjE) simp_all
        note m = same [OF 2(1) this]
        have o: "ar_id o' \<noteq> ar_id r" "ar_id o' \<notin> set (map ar_id rs)" using d Some q by simp_all
        have x: "set (op_ids x) \<subseteq> {ar_id r}" using 2(4) by auto
        have new: "ar_id o' \<notin> set (map ai_open_id js @ op_ids op)" using m o x by auto
        have "set (map ai_open_id js @ op_ids op) \<subseteq> set (op_ids opening @ map ar_id (r # rs))" using m x by auto
        with m new show ?thesis by (simp add: 2(2,3) Some q)
      qed
    qed
  qed
qed

lemma distinct_canonical: "distinct (map ar_id table) \<Longrightarrow> distinct (map ar_id (canonical_seat_rows table seat c))"
proof -
  assume "distinct (map ar_id table)"
  then have "distinct (map ar_id (filter (\<lambda>r. ar_seat r = seat \<and> ar_class r = c) table))" by (rule distinct_map_filter)
  then show ?thesis unfolding canonical_seat_rows_def 
    by (subst mset_eq_imp_distinct_iff [where ys = "map ar_id (filter (\<lambda>r. ar_seat r = seat \<and> ar_class r = c) table)"]) simp_all
qed

lemma attendance_open_ids:
  assumes "list_attendance_intervals env c as_of table seat = Inr ivs" "distinct (map ar_id table)"
  shows "distinct (map ai_open_id ivs)"
proof -
  let ?rows = "canonical_seat_rows table seat c"
  obtain js op where p: "pair_rows env c as_of ?rows ?rows None [] = Inr (js, op)"
    using assms(1) by (auto simp: list_attendance_intervals_def Let_def res_simps)
  from pair_rows_ids [OF p] distinct_canonical [OF assms(2), of seat c] have "distinct (map ai_open_id js @ op_ids op)"
    by simp
  with assms(1) p show ?thesis
    by (auto simp: list_attendance_intervals_def att_interval_of_def res_simps split: option.splits)
qed

lemma as_evidence_Some: "as_evidence i = Some s \<longleftrightarrow> ai_close_id i = Some (so_close s) \<and> so_open s = ai_open_id i
    \<and> so_opened s = ai_opened i \<and> so_closed s = ai_closed i \<and> so_seconds s = ai_seconds i"
  by (cases s) (auto simp: as_evidence_def split: option.splits)

lemma evidence_keys_distinct: "distinct (map ai_open_id ivs) \<Longrightarrow> distinct (map source_key (List.map_filter as_evidence ivs))"
proof (induction ivs)
  case (Cons i ivs)
  have "so_open s \<in> ai_open_id ` set ivs" if "s \<in> set (List.map_filter as_evidence ivs)" for s
    using that by (auto simp: in_map_filter as_evidence_Some)
  with Cons show ?case by (auto simp: source_key_def as_evidence_Some image_iff split: option.splits) fastforce
qed (simp add: map_filter_simps)

section \<open>Pricing names every session once\<close>

definition policy_of :: "payroll_setting list \<Rightarrow> string \<Rightarrow> priced_interval \<Rightarrow> string option" where
  "policy_of settings c i = map_option ps_uuid (governing settings c i)"

definition policy_group :: "payroll_setting list \<Rightarrow> string \<Rightarrow> priced_interval list \<Rightarrow> string option \<Rightarrow> priced_interval list" where
  "policy_group settings c ivs p = filter (\<lambda>i. policy_of settings c i = p) ivs"

lemma share_of_cases:
  assumes "share_of env c settings ivs p = Inr m"
  obtains (none) n where "m = None" "elapsed_attendance_seconds env c (map fst (policy_group settings c ivs p)) = Inr n" "n \<le> 0"
  | (some) s where "m = Some s" "elapsed_attendance_seconds env c (map fst (policy_group settings c ivs p)) = Inr (st_seconds s)"
      "0 < st_seconds s" "st_policy s = p" "st_sources s = List.map_filter snd (policy_group settings c ivs p)"
proof -
  let ?g = "policy_group settings c ivs p"
  have g: "filter (\<lambda>i. map_option ps_uuid (governing settings c i) = p) ivs = ?g"
    by (simp add: policy_group_def policy_of_def)
  from assms obtain n where n: "elapsed_attendance_seconds env c (map fst ?g) = Inr n"
    by (auto simp: share_of_def g Let_def res_simps)
  show thesis
  proof (cases "n \<le> 0")
    case True
    with assms n none show thesis by (simp add: share_of_def g)
  next
    case False
    with assms n obtain s where "m = Some s" "st_seconds s = n" "st_policy s = p" "st_sources s = List.map_filter snd ?g"
      by (auto simp: share_of_def g Let_def)
    with n False show thesis by (intro some) auto
  qed
qed

lemma mset_map_filter_split:
  "(\<And>x. \<not> (P x \<and> Q x)) \<Longrightarrow> mset (List.map_filter g (filter P xs)) + mset (List.map_filter g (filter Q xs))
     = mset (List.map_filter g (filter (\<lambda>x. P x \<or> Q x) xs))"
  by (induction xs) (auto simp: map_filter_simps split: option.splits)

definition kept :: "'a option list \<Rightarrow> 'a list" where "kept ms = List.map_filter id ms"

lemma kept_simps [simp]: "kept [] = []" "kept (None # ms) = kept ms" "kept (Some s # ms) = s # kept ms"
  by (simp_all add: kept_def map_filter_simps)

lemma list_all2_in_set2: "list_all2 R xs ys \<Longrightarrow> y \<in> set ys \<Longrightarrow> \<exists>x \<in> set xs. R x y"
  by (induction rule: list_all2_induct) auto

lemma shares_sources:
  assumes "list_all2 (\<lambda>p m. share_of env c settings ivs p = Inr m) G ms" "distinct G"
  shows "mset (concat (map st_sources (kept ms)))
      \<subseteq># mset (List.map_filter snd (filter (\<lambda>i. policy_of settings c i \<in> set G) ivs))"
    and "None \<notin> set ms \<Longrightarrow> mset (concat (map st_sources (kept ms)))
      = mset (List.map_filter snd (filter (\<lambda>i. policy_of settings c i \<in> set G) ivs))"
proof -
  have "mset (concat (map st_sources (kept ms)))
      \<subseteq># mset (List.map_filter snd (filter (\<lambda>i. policy_of settings c i \<in> set G) ivs))
    \<and> (None \<notin> set ms \<longrightarrow> mset (concat (map st_sources (kept ms)))
      = mset (List.map_filter snd (filter (\<lambda>i. policy_of settings c i \<in> set G) ivs)))"
    using assms
  proof (induction rule: list_all2_induct)
    case (Cons p G m ms)
    let ?M = "\<lambda>Q. mset (List.map_filter snd (filter (\<lambda>i. Q (policy_of settings c i)) ivs))"
    have split: "?M (\<lambda>x. x = p) + ?M (\<lambda>x. x \<in> set G) = ?M (\<lambda>x. x \<in> set (p # G))"
      using mset_map_filter_split [of "\<lambda>i. policy_of settings c i = p" "\<lambda>i. policy_of settings c i \<in> set G" snd ivs] Cons.prems
      by auto
    have d: "distinct G" using Cons.prems by simp
    note ih = conjunct1 [OF Cons.IH [OF d]] conjunct2 [OF Cons.IH [OF d]]
    from Cons.hyps(1) show ?case
    proof (cases rule: share_of_cases)
      case (none n)
      have "?M (\<lambda>x. x \<in> set G) \<subseteq># ?M (\<lambda>x. x \<in> set (p # G))" by (simp only: split [symmetric] mset_subset_eq_add_right)
      with ih(1) have "mset (concat (map st_sources (kept ms))) \<subseteq># ?M (\<lambda>x. x \<in> set (p # G))"
        by (rule subset_mset.trans)
      then show ?thesis using none(1) by simp
    next
      case (some s)
      then have "mset (st_sources s) = ?M (\<lambda>x. x = p)" by (simp add: policy_group_def)
      then have "mset (concat (map st_sources (kept (m # ms))))
          = ?M (\<lambda>x. x = p) + mset (concat (map st_sources (kept ms)))"
        using some by simp
      note m = this
      show ?thesis
        using ih some(1) unfolding m split [symmetric] by auto
    qed
  qed simp
  then show "mset (concat (map st_sources (kept ms)))
      \<subseteq># mset (List.map_filter snd (filter (\<lambda>i. policy_of settings c i \<in> set G) ivs))"
    "None \<notin> set ms \<Longrightarrow> mset (concat (map st_sources (kept ms)))
      = mset (List.map_filter snd (filter (\<lambda>i. policy_of settings c i \<in> set G) ivs))" by blast+
qed

definition policies :: "payroll_setting list \<Rightarrow> string \<Rightarrow> priced_interval list \<Rightarrow> string option list" where
  "policies settings c ivs = rev (remdups (rev (map (policy_of settings c) ivs)))"

lemma price_intervals_cases:
  assumes "price_intervals env c settings estimate ivs = Inr shares"
  obtains ms where "list_all2 (\<lambda>p m. share_of env c settings ivs p = Inr m) (policies settings c ivs) ms"
    "shares = sort_key st_last_closed (kept ms)"
proof -
  have "policies settings c ivs = rev (remdups (rev (map (\<lambda>i. map_option ps_uuid (governing settings c i)) ivs)))"
    by (simp add: policies_def policy_of_def [abs_def])
  with assms that show thesis
    by (auto simp: price_intervals_def kept_def res_simps rmapM_Inr_iff simp del: rev_map split: if_splits)
qed

lemma mset_concat_sorted: "mset (concat (map f (sort_key k xs))) = mset (concat (map f xs))"
proof -
  have "mset (map f (sort_key k xs)) = mset (map f xs)" by simp
  then show ?thesis unfolding mset_concat by (metis mset_map sum_mset_sum_list)
qed

text \<open>The sources of the shares are among the evidence of the priced intervals, each as often.\<close>

lemma price_sources:
  assumes "price_intervals env c settings estimate ivs = Inr shares"
  shows "mset (concat (map st_sources shares)) \<subseteq># mset (List.map_filter snd ivs)"
proof -
  obtain ms where ms: "list_all2 (\<lambda>p m. share_of env c settings ivs p = Inr m) (policies settings c ivs) ms"
    "shares = sort_key st_last_closed (kept ms)" using price_intervals_cases [OF assms] .
  have "filter (\<lambda>i. policy_of settings c i \<in> set (policies settings c ivs)) ivs = ivs"
    by (simp add: policies_def filter_id_conv)
  with shares_sources(1) [OF ms(1)] show ?thesis unfolding ms(2) mset_concat_sorted by (simp add: policies_def)
qed

section \<open>Whole seconds\<close>

text \<open>
  A share counts the whole seconds of its sessions together, each source its own. They agree when every session lasts a
  whole number of seconds; \<open>Payroll_Run_Claims\<close> shows what happens when they do not.
\<close>

lemma sum_div_whole: "\<forall>x \<in> set xs. (k :: int) dvd x \<Longrightarrow> k \<noteq> 0 \<Longrightarrow> sum_list xs div k = sum_list (map (\<lambda>x. x div k) xs)"
  by (induction xs) (auto elim!: dvdE simp: distrib_left [symmetric])

lemma elapsed_whole:
  assumes "class_zone env c = Some tz" "elapsed_attendance_seconds env c spans = Inr n" "\<forall>(s, e) \<in> set spans. second_us dvd e - s"
  shows "n = sum_list (map (\<lambda>(s, e). (e - s) div second_us) spans)"
proof (cases "spans = []")
  case True
  with assms(2) show ?thesis by (simp add: elapsed_attendance_seconds_def)
next
  case False
  have "total_us spans div second_us = sum_list (map (\<lambda>x. x div second_us) (map (\<lambda>(s, e). e - s) spans))"
    unfolding total_us_def using assms(3) by (intro sum_div_whole) (auto simp: second_us_def)
  also have "\<dots> = sum_list (map (\<lambda>(s, e). (e - s) div second_us) spans)"
    unfolding map_map by (rule arg_cong [where f = sum_list], rule map_cong) auto
  finally show ?thesis using elapsed_zone [OF assms(1) False, of n] assms(2) by simp
qed

definition whole_priced :: "priced_interval \<Rightarrow> bool" where
  "whole_priced i = (case i of ((s, e), ev) \<Rightarrow> s < e \<and> second_us dvd e - s
     \<and> (\<exists>src. ev = Some src \<and> so_seconds src = (e - s) div second_us))"

lemma whole_sources:
  "\<forall>i \<in> set ivs. whole_priced i \<Longrightarrow> sum_list (map so_seconds (List.map_filter snd ivs))
     = sum_list (map (\<lambda>(s, e). (e - s) div second_us) (map fst ivs))
   \<and> length (List.map_filter snd ivs) = length ivs
   \<and> (ivs \<noteq> [] \<longrightarrow> 0 < sum_list (map (\<lambda>(s, e). (e - s) div second_us) (map fst ivs)))"
proof (induction ivs)
  case (Cons i ivs)
  obtain s e src where i: "i = ((s, e), Some src)" "s < e" "second_us dvd e - s" "so_seconds src = (e - s) div second_us"
    using Cons.prems by (auto simp: whole_priced_def)
  then have "0 < (e - s) div second_us" by (auto simp: second_us_def elim!: dvdE)
  with Cons i show ?case by (cases ivs) (auto simp: map_filter_simps)
qed (simp add: map_filter_simps)

lemma price_whole:
  assumes "class_zone env c = Some tz" "price_intervals env c settings estimate ivs = Inr shares" "\<forall>i \<in> set ivs. whole_priced i"
  shows "mset (concat (map st_sources shares)) = mset (List.map_filter snd ivs)"
    and "s \<in> set shares \<Longrightarrow> st_sources s \<noteq> [] \<and> sum_list (map so_seconds (st_sources s)) = st_seconds s"
proof -
  obtain ms where ms: "list_all2 (\<lambda>p m. share_of env c settings ivs p = Inr m) (policies settings c ivs) ms"
    "shares = sort_key st_last_closed (kept ms)" using price_intervals_cases [OF assms(2)] .
  have grp: "p \<in> set (policies settings c ivs) \<Longrightarrow> policy_group settings c ivs p \<noteq> []" for p
    by (auto simp: policies_def policy_group_def filter_empty_conv)
  have m: "\<exists>s. m = Some s \<and> st_sources s \<noteq> [] \<and> sum_list (map so_seconds (st_sources s)) = st_seconds s"
    if "m \<in> set ms" for m
  proof -
    obtain p where p: "p \<in> set (policies settings c ivs)" "share_of env c settings ivs p = Inr m"
      using list_all2_in_set2 [OF ms(1) \<open>m \<in> set ms\<close>] by blast
    let ?g = "policy_group settings c ivs p"
    have w: "\<forall>i \<in> set ?g. whole_priced i" using assms(3) by (simp add: policy_group_def)
    note ws = whole_sources [OF w]
    have sp: "\<forall>(s, e) \<in> set (map fst ?g). second_us dvd e - s" using w by (fastforce simp: whole_priced_def)
    from p(2) show ?thesis
    proof (cases rule: share_of_cases)
      case (none n)
      with elapsed_whole [OF assms(1) none(2) sp] ws grp [OF p(1)] show ?thesis by simp
    next
      case (some s)
      with elapsed_whole [OF assms(1) some(2) sp] ws grp [OF p(1)] show ?thesis by auto
    qed
  qed
  then have "None \<notin> set ms" by auto
  moreover have "filter (\<lambda>i. policy_of settings c i \<in> set (policies settings c ivs)) ivs = ivs"
    by (simp add: policies_def filter_id_conv)
  ultimately show "mset (concat (map st_sources shares)) = mset (List.map_filter snd ivs)"
    using shares_sources(2) [OF ms(1)] unfolding ms(2) mset_concat_sorted by (simp add: policies_def)
  show "st_sources s \<noteq> [] \<and> sum_list (map so_seconds (st_sources s)) = st_seconds s" if "s \<in> set shares"
    using that m unfolding ms(2) by (fastforce simp: kept_def in_map_filter)
qed

text \<open>A closed interval lies between two rows of the history.\<close>

definition row_times :: "att_row list \<Rightarrow> int set" where "row_times rows = ar_time ` set rows"

lemma pair_rows_times:
  "pair_rows env c as_of rows rs opening consumed = Inr (ivs, op) \<Longrightarrow> set rs \<subseteq> set rows \<Longrightarrow>
     (\<And>r e. opening = Some (r, e) \<Longrightarrow> r \<in> set rows) \<Longrightarrow>
     (\<forall>i \<in> set ivs. ai_close_id i \<noteq> None \<longrightarrow> ai_opened i \<in> row_times rows \<and> ai_closed i \<in> row_times rows)"
proof (induction rs arbitrary: "opening" consumed ivs op)
  case (Cons r rs)
  note p = Cons.prems(1) and sub = Cons.prems(2) and o = Cons.prems(3)
  have sub': "set rs \<subseteq> set rows" and r: "r \<in> set rows" using sub by auto
  have rec: ?case if "pair_rows env c as_of rows rs x consumed' = Inr (js, op)" "x = opening \<or> x = None \<or> (\<exists>e. x = Some (r, e))"
      "ivs = js \<or> (\<exists>i. ivs = i # js \<and> (ai_close_id i \<noteq> None \<longrightarrow> ai_opened i \<in> row_times rows \<and> ai_closed i \<in> row_times rows))"
    for x consumed' js
    using Cons.IH [OF that(1) sub'] that(2,3) o r by auto
  show ?case
  proof (cases "ar_id r \<in> set consumed \<or> as_of < ar_time r \<or> (ar_status r \<noteq> ''active'' \<and> ar_status r \<noteq> ''inactive'')")
    case True
    then have "pair_rows env c as_of rows rs opening consumed = Inr (ivs, op) \<or> ivs = []"
      using p by (auto split: if_splits)
    with rec [of "opening" consumed ivs] show ?thesis by auto
  next
    case False
    then have now: "\<not> as_of < ar_time r" "ar_id r \<notin> set consumed" by auto
    show ?thesis
    proof (cases "opening")
      case None
      with p now False obtain x consumed' where "pair_rows env c as_of rows rs x consumed' = Inr (ivs, op)"
        "x = None \<or> (\<exists>e. x = Some (r, e))"
        by (auto simp: res_simps split: if_splits)
      with rec show ?thesis by blast
    next
      case (Some q)
      obtain o' oe where q: "q = (o', oe)" by fastforce
      have o': "ar_time o' \<in> row_times rows" using o Some q by (auto simp: row_times_def)
      have r': "ar_time r \<in> row_times rows" using r by (auto simp: row_times_def)
      have close: "oe \<in> row_times rows" if "List.find (is_boundary_close consumed oe) rows = Some b" for b
        using that by (auto simp: find_Some_iff is_boundary_close_def row_times_def)
      from p now False Some q consider
        "pair_rows env c as_of rows rs opening consumed = Inr (ivs, op)"
        | js x consumed' n where "pair_rows env c as_of rows rs x consumed' = Inr (js, op)" "x = None \<or> (\<exists>e. x = Some (r, e))"
            "ivs = att_interval_of o' oe n (List.find (is_boundary_close consumed oe) rows) True # js"
        | js n where "pair_rows env c as_of rows rs None consumed = Inr (js, op)" "ivs = att_interval_of o' oe n None True # js"
        | js n where "pair_rows env c as_of rows rs None consumed = Inr (js, op)"
            "ivs = att_interval_of o' (ar_time r) n (Some r) False # js"
        by (auto simp: res_simps Let_def split: if_splits)
      then show ?thesis
        by cases (rule rec, assumption, blast, force simp: att_interval_of_def o' r' dest: close)+
    qed
  qed
qed simp

lemma closed_interval_times:
  assumes "list_attendance_intervals env c as_of table seat = Inr ivs" "i \<in> set ivs" "ai_close_id i \<noteq> None"
  shows "ai_opened i \<in> row_times table" "ai_closed i \<in> row_times table"
proof -
  let ?rows = "canonical_seat_rows table seat c"
  have sub: "row_times ?rows \<subseteq> row_times table" by (auto simp: row_times_def canonical_seat_rows_def)
  obtain js op where p: "pair_rows env c as_of ?rows ?rows None [] = Inr (js, op)"
    using assms(1) by (auto simp: list_attendance_intervals_def Let_def res_simps)
  from assms p have "i \<in> set js"
    by (auto simp: list_attendance_intervals_def att_interval_of_def res_simps split: option.splits)
  with pair_rows_times [OF p order.refl] assms(3) sub show "ai_opened i \<in> row_times table" "ai_closed i \<in> row_times table"
    by auto
qed

end
