(* ===== verification/Payroll_Run_Claims.thy ===== *)
theory Payroll_Run_Claims
  imports Payroll_Membership Ledger_Run
begin

text \<open>
  Payroll pays every session exactly once: over every history of attendance commands, payroll events and payroll cycles
  whose boundaries do not go back, no session is named by two events, and after an event nothing it could pay is left.
  The two ways the code breaks that promise (a boundary read before the lock, sessions with a fraction of a second) are
  theorems about concrete runs.
\<close>

section \<open>What a run finds payable\<close>

lemma calculate_cases:
  assumes "calculate_seat_payroll_intervals env c as_of table events invalidated seat = Inr sp"
  obtains ivs where "list_attendance_intervals env c as_of table seat = Inr ivs"
    "sp = classify_reading (fold (read_event (List.map_filter as_evidence ivs)) (seat_events events c seat as_of) start_reading) invalidated ivs"
  using assms by (auto simp: calculate_seat_payroll_intervals_def Let_def res_simps split: if_splits)

definition prior_pairs :: "attendance_event list \<Rightarrow> string \<Rightarrow> nat \<Rightarrow> int \<Rightarrow> (nat \<times> nat) list" where
  "prior_pairs events c seat as_of = concat (map event_pairs (seat_events events c seat as_of))"

lemma prior_is_paid:
  assumes "\<And>e. e \<in> set events \<Longrightarrow> pe_type e = ''payroll'' \<Longrightarrow> pe_recorded e \<le> as_of"
  shows "prior_pairs events c seat as_of = paid_pairs events c seat"
proof -
  have "seat_events events c seat as_of = filter (\<lambda>e. pe_class e = c \<and> ev_seat e = seat \<and> pe_type e = ''payroll'') events"
    unfolding seat_events_def using assms by (intro filter_cong) auto
  then show ?thesis by (simp add: prior_pairs_def paid_pairs_def)
qed

lemma payable_facts:
  assumes "list_attendance_intervals env c as_of table seat = Inr ivs"
    and "sp = classify_reading (fold (read_event (List.map_filter as_evidence ivs)) (seat_events events c seat as_of) start_reading) invalidated ivs"
    and "sp_payable sp \<noteq> []"
  shows "\<not> rd_invalid (fold (read_event (List.map_filter as_evidence ivs)) (seat_events events c seat as_of) start_reading)"
    "\<exists>P. sp_payable sp = filter P ivs"
    "distinct (prior_pairs events c seat as_of)"
    "i \<in> set (sp_payable sp) \<Longrightarrow> i \<in> set ivs \<and> ai_opened i < ai_closed i
       \<and> (\<exists>k. ai_close_id i = Some k \<and> (ai_open_id i, k) \<notin> set (prior_pairs events c seat as_of))"
proof -
  let ?rd = "fold (read_event (List.map_filter as_evidence ivs)) (seat_events events c seat as_of) start_reading"
  show ok: "\<not> rd_invalid ?rd" using assms(2,3) by (auto simp: classify_reading_def)
  show "\<exists>P. sp_payable sp = filter P ivs" using assms(2) ok by (auto simp: classify_reading_def Let_def)
  note f = fold_read_settled [of start_reading, OF _ _, simplified]
  from f(1) [THEN iffD1, OF ok] show "distinct (prior_pairs events c seat as_of)" by (simp add: prior_pairs_def)
  have "set (rd_settled ?rd) = set (prior_pairs events c seat as_of)" using f(2) [OF ok] by (simp add: prior_pairs_def)
  with assms(2) ok show "i \<in> set (sp_payable sp) \<Longrightarrow> i \<in> set ivs \<and> ai_opened i < ai_closed i
       \<and> (\<exists>k. ai_close_id i = Some k \<and> (ai_open_id i, k) \<notin> set (prior_pairs events c seat as_of))"
    by (fastforce simp: classify_reading_def Let_def is_skipped_def interval_pair_def)
qed

lemma distinct_sub_mset: "mset xs \<subseteq># mset ys \<Longrightarrow> distinct ys \<Longrightarrow> distinct xs"
proof -
  assume "mset xs \<subseteq># mset ys" "distinct ys"
  moreover from this(1) obtain zs where "mset ys = mset (xs @ zs)"
    by (metis ex_mset mset_append mset_subset_eq_exists_conv)
  ultimately have "distinct (xs @ zs)" using mset_eq_imp_distinct_iff by blast
  then show "distinct xs" by simp
qed

definition share_pairs :: "setting_share list \<Rightarrow> (nat \<times> nat) list" where
  "share_pairs shares = concat (map share_keys (map as_summary shares))"

lemma share_pairs_sources: "share_pairs shares = map source_key (concat (map st_sources shares))"
  by (induction shares) (auto simp: share_pairs_def share_keys_def as_summary_def)

lemma evidence_of_closed: "List.map_filter snd (map closed_for_pricing ivs) = List.map_filter as_evidence ivs"
  by (induction ivs) (auto simp: map_filter_simps closed_for_pricing_def split: option.splits)

lemma price_payable_cases:
  assumes "price_payable_attendance env c settings as_of table events invalidated seat = Inr shares"
  obtains sp ivs where "list_attendance_intervals env c as_of table seat = Inr ivs"
    "sp = classify_reading (fold (read_event (List.map_filter as_evidence ivs)) (seat_events events c seat as_of) start_reading) invalidated ivs"
    "sp_unprovable sp = []" "price_intervals env c settings False (map closed_for_pricing (sp_payable sp)) = Inr shares"
    "shares \<noteq> [] \<Longrightarrow> sp_payable sp \<noteq> []"
proof -
  obtain sp where sp: "calculate_seat_payroll_intervals env c as_of table events invalidated seat = Inr sp" "sp_unprovable sp = []"
    "price_intervals env c settings False (map closed_for_pricing (sp_payable sp)) = Inr shares"
    using assms by (auto simp: price_payable_attendance_def res_simps split: if_splits)
  have "sp_payable sp = [] \<Longrightarrow> shares = []" using sp(3) by (simp add: price_intervals_def map_filter_simps)
  with calculate_cases [OF sp(1)] sp(2,3) that show thesis by metis
qed

text \<open>The sessions a run prices were named by no earlier event it reads, and it names each once.\<close>

lemma priced_pairs_are_new:
  assumes "price_payable_attendance env c settings as_of table events invalidated seat = Inr shares" "shares \<noteq> []"
    and "distinct (map ar_id table)"
  shows "distinct (prior_pairs events c seat as_of @ share_pairs shares)"
proof -
  obtain sp ivs where l: "list_attendance_intervals env c as_of table seat = Inr ivs"
    and sp: "sp = classify_reading (fold (read_event (List.map_filter as_evidence ivs)) (seat_events events c seat as_of) start_reading) invalidated ivs"
    and p: "price_intervals env c settings False (map closed_for_pricing (sp_payable sp)) = Inr shares" "sp_payable sp \<noteq> []"
    using price_payable_cases [OF assms(1)] assms(2) by metis
  note f = payable_facts [OF l sp p(2)]
  obtain P where P: "sp_payable sp = filter P ivs" using f(2) by blast
  have "distinct (map ai_open_id (sp_payable sp))"
    unfolding P by (rule distinct_map_filter [OF attendance_open_ids [OF l assms(3)]])
  then have d: "distinct (map source_key (List.map_filter as_evidence (sp_payable sp)))" by (rule evidence_keys_distinct)
  have m: "mset (concat (map st_sources shares)) \<subseteq># mset (List.map_filter as_evidence (sp_payable sp))"
    using price_sources [OF p(1)] by (simp add: evidence_of_closed)
  then have "mset (share_pairs shares) \<subseteq># mset (map source_key (List.map_filter as_evidence (sp_payable sp)))"
    unfolding share_pairs_sources mset_map by (rule image_mset_subseteq_mono)
  with d have "distinct (share_pairs shares)" by (rule distinct_sub_mset [rotated])
  moreover have "x \<notin> set (prior_pairs events c seat as_of)" if x: "x \<in> set (share_pairs shares)" for x
  proof -
    from x obtain s where s: "x = source_key s" "s \<in># mset (concat (map st_sources shares))"
      unfolding share_pairs_sources by auto
    then have "s \<in> set (List.map_filter as_evidence (sp_payable sp))" using mset_subset_eqD [OF m s(2)] by simp
    then obtain i where i: "i \<in> set (sp_payable sp)" "as_evidence i = Some s" by (auto simp: in_map_filter)
    with f(4) [OF i(1)] s(1) show ?thesis by (auto simp: as_evidence_Some source_key_def)
  qed
  ultimately show ?thesis using f(3) by auto
qed

section \<open>One event\<close>

lemma resolver_now:
  "canonical_temporal_resolver env ''CLE'' cls ''current_time'' (Some (Aware t)) kw = Inr ev \<Longrightarrow> canonical_now_utc ev = t"
  by (auto simp: canonical_temporal_resolver_def ensure_aware_utc_def res_simps split: option.splits prod.splits if_splits)

lemma pay_part_Inr [simp, res_simps]: "pay_part m = Inr x \<longleftrightarrow> m = Inr x"
  by (cases m) (auto simp: pay_part_def)

lemma led_part_Inr [simp, res_simps]: "led_part m = Inr x \<longleftrightarrow> m = Inr x"
  by (cases m) (auto simp: led_part_def)

lemma prod_guard_Inr [simp, res_simps]: "prod_guard ok e = Inr u \<longleftrightarrow> ok"
  by (simp add: prod_guard_def)

lemma record_new_event_cases:
  assumes "record_new_event su c actor rq w = Inr (out, w')" "rq_reference rq = Some now"
  obtains rows amount policy summary t led where
    "price_event su c actor now rq w = Inr (rows, amount, policy, summary)"
    "post_credit su c actor rq amount (pw_ledger w) = Inr (t, led)"
    "out = \<lparr>po_event = new_event su c actor now rq policy summary (pw_events w), po_tx = t, po_replayed = False\<rparr>"
    "w' = w\<lparr>pw_rows := rows, pw_events := pw_events w @ [po_event out], pw_ledger := led\<rparr>"
proof -
  obtain ev rows amount policy summary t led where
    e: "canonical_temporal_resolver (su_env su) ''CLE'' (Some (Some c)) ''current_time'' (Some (Aware now)) no_kwargs = Inr ev"
    "price_event su c actor (canonical_now_utc ev) rq w = Inr (rows, amount, policy, summary)"
    "post_credit su c actor rq amount (pw_ledger w) = Inr (t, led)"
    "out = \<lparr>po_event = new_event su c actor (canonical_now_utc ev) rq policy summary (pw_events w), po_tx = t, po_replayed = False\<rparr>"
    "w' = w\<lparr>pw_rows := rows, pw_events := pw_events w @ [po_event out], pw_ledger := led\<rparr>"
    using assms by (fastforce simp: record_new_event_def Let_def res_simps)
  with resolver_now [OF e(1)] that show thesis by simp
qed

lemma record_payroll_event_cases:
  assumes "record_payroll_event su c actor rq w = Inr (out, w')"
  obtains (replayed) "w' = w" "po_replayed out"
  | (new) "record_new_event su c actor rq w = Inr (out, w')" "rq_type rq \<in> {''payroll'', ''manual_credit''}"
proof -
  from assms consider e where "(if rq_key rq = [] then None else find_event (pw_events w) c rq) = Some e"
    | "(if rq_key rq = [] then None else find_event (pw_events w) c rq) = None" by (cases "if rq_key rq = [] then None else find_event (pw_events w) c rq") auto
  then show thesis
  proof cases
    case 1
    with assms replayed show thesis by (auto simp: record_payroll_event_def res_simps simp del: if_split)
  next
    case 2
    with assms new show thesis by (auto simp: record_payroll_event_def res_simps simp del: if_split)
  qed
qed

lemma price_event_payroll:
  assumes "price_event su c actor now rq w = Inr (rows, amount, policy, summary)" "rq_type rq = ''payroll''"
  obtains shares where
    "close_due_attendance_intervals (su_env su) (su_seats su) c actor (rq_seat rq) (su_settings su) now (pw_rows w) = Inr rows"
    "price_payable_attendance (su_env su) c (su_settings su) now rows (pw_events w) (su_invalidated su c (rq_seat rq)) (rq_seat rq) = Inr shares"
    "shares \<noteq> []" "amount = priced_amount shares" "policy = priced_policy shares" "summary = Frozen (map as_summary shares)"
proof -
  from assms obtain shares where s:
    "close_due_attendance_intervals (su_env su) (su_seats su) c actor (rq_seat rq) (su_settings su) now (pw_rows w) = Inr rows"
    "price_payable_attendance (su_env su) c (su_settings su) now rows (pw_events w) (su_invalidated su c (rq_seat rq)) (rq_seat rq) = Inr shares"
    "priced_policy shares \<noteq> None" "amount = priced_amount shares" "policy = priced_policy shares" "summary = Frozen (map as_summary shares)"
    by (auto simp: price_event_def res_simps)
  then have "shares \<noteq> []" by (auto simp: priced_policy_def)
  with s that show thesis by blast
qed

lemma price_event_manual: "price_event su c actor now rq w = Inr (rows, amount, policy, summary) \<Longrightarrow> rq_type rq \<noteq> ''payroll'' \<Longrightarrow> rows = pw_rows w"
  by (auto simp: price_event_def split: option.splits)

text \<open>The attendance writer keeps row ids distinct.\<close>

lemma next_id_distinct: "distinct (map ar_id table) \<Longrightarrow> append_row row table = (r, table') \<Longrightarrow> distinct (map ar_id table')"
  using next_row_id_fresh [of _ table] append_row_id [of row table r table'] by fastforce

lemma record_command_distinct:
  assumes "record_attendance_session_command env seats c ctx_seat cmd table = Inr (r, table')" "distinct (map ar_id table)"
  shows "distinct (map ar_id table')"
proof -
  obtain now table1 row where t: "if at_status cmd = ''active'' then
      open_session env c now cmd (nat_or (at_target cmd) ctx_seat) (nat_or (at_actor cmd) ctx_seat)
        (latest_seat_event table (nat_or (at_target cmd) ctx_seat) c) table = Inr table1
      else table1 = table" "append_row row table1 = (r, table')"
    using record_command_shape [OF assms(1)] by blast
  have "distinct (map ar_id table1)"
  proof (cases "table1 = table")
    case False
    with t(1) have "open_session env c now cmd (nat_or (at_target cmd) ctx_seat) (nat_or (at_actor cmd) ctx_seat)
        (latest_seat_event table (nat_or (at_target cmd) ctx_seat) c) table = Inr table1" by (auto split: if_splits)
    from open_session_adds [OF this False] obtain x where "table1 = snd (append_row x table)" by blast
    with next_id_distinct [OF assms(2)] show ?thesis by (metis prod.collapse)
  qed (use assms(2) in simp)
  with t(2) next_id_distinct show ?thesis by blast
qed

lemma close_due_distinct:
  assumes "close_due_attendance_intervals env seats c ctx_seat seat settings now table = Inr table'" "distinct (map ar_id table)"
  shows "distinct (map ar_id table')"
proof -
  obtain ivs where "rfold (close_interval env seats c ctx_seat seat settings now ivs) ivs table = Inr table'"
    using assms(1) by (auto simp: close_due_attendance_intervals_def res_simps)
  then show ?thesis
    by (rule rfold_invariant [where P = "\<lambda>t. distinct (map ar_id t)"])
      (use assms(2) record_command_distinct in \<open>auto simp: close_interval_def res_simps split: if_splits\<close>)
qed

lemma close_hanging_distinct:
  assumes "close_due_hanging_hall_pass env seats c teacher seat now table = Inr table'" "distinct (map ar_id table)"
  shows "distinct (map ar_id table')"
proof -
  have two: "distinct (map ar_id (hanging_pass_rows teacher e r t))" if "distinct (map ar_id t)" for teacher e r t
    using that next_id_distinct unfolding hanging_pass_rows_def by (metis prod.collapse)
  obtain x where "rfold (\<lambda>r tb. if \<not> is_hall_pass_exit (Some r) \<or> ar_pass r \<in> x then Inr tb
      else rbind (day_bounds env c (ar_time r)) (\<lambda>(s, e). Inr (if now < e then tb else hanging_pass_rows teacher e r tb)))
      (filter (\<lambda>r. ar_pass r \<noteq> None) (canonical_seat_rows table seat c)) table = Inr table'"
    using assms(1) unfolding close_due_hanging_hall_pass_def rbind_eq_Inr Let_def by blast
  then show ?thesis
    by (rule rfold_invariant [where P = "\<lambda>t. distinct (map ar_id t)"])
      (use assms(2) two in \<open>auto simp: res_simps split: if_splits\<close>)
qed

section \<open>Histories\<close>

text \<open>
  What holds of the rows and the events when the latest payroll boundary so far is \<open>t\<close>.
\<close>

definition payroll_ok :: "'h payroll_world \<Rightarrow> int \<Rightarrow> bool" where
  "payroll_ok w t = (distinct (map ar_id (pw_rows w)) \<and> (\<forall>c seat. distinct (paid_pairs (pw_events w) c seat))
     \<and> (\<forall>e \<in> set (pw_events w). pe_type e = ''payroll'' \<longrightarrow> pe_recorded e \<le> t))"

lemma payroll_ok_mono: "payroll_ok w t \<Longrightarrow> t \<le> t' \<Longrightarrow> payroll_ok w t'"
  by (fastforce simp: payroll_ok_def)

lemma paid_pairs_snoc:
  "paid_pairs (events @ [e]) c seat = paid_pairs events c seat
     @ (if pe_class e = c \<and> ev_seat e = seat \<and> pe_type e = ''payroll'' then event_pairs e else [])"
  by (simp add: paid_pairs_def)

lemma new_event_ok:
  assumes "payroll_ok w now" "record_payroll_event su c actor rq w = Inr (out, w')" "rq_reference rq = Some now"
  shows "payroll_ok w' now"
  using assms(2)
proof (cases rule: record_payroll_event_cases)
  case replayed
  with assms(1) show ?thesis by simp
next
  case new
  obtain rows amount policy summary t led where e: "price_event su c actor now rq w = Inr (rows, amount, policy, summary)"
    "out = \<lparr>po_event = new_event su c actor now rq policy summary (pw_events w), po_tx = t, po_replayed = False\<rparr>"
    "w' = w\<lparr>pw_rows := rows, pw_events := pw_events w @ [po_event out], pw_ledger := led\<rparr>"
    using record_new_event_cases [OF new(1) assms(3)] .
  let ?e = "new_event su c actor now rq policy summary (pw_events w)"
  have fields: "pe_class ?e = c" "ev_seat ?e = rq_seat rq" "pe_type ?e = rq_type rq" "pe_recorded ?e = now" "ev_summary ?e = summary"
    by (simp_all add: new_event_def)
  have w: "distinct (map ar_id (pw_rows w))" "\<And>c seat. distinct (paid_pairs (pw_events w) c seat)"
    "\<And>e. e \<in> set (pw_events w) \<Longrightarrow> pe_type e = ''payroll'' \<Longrightarrow> pe_recorded e \<le> now"
    using assms(1) by (auto simp: payroll_ok_def)
  have "distinct (map ar_id rows) \<and> (rq_type rq = ''payroll'' \<longrightarrow> distinct (paid_pairs (pw_events w) c (rq_seat rq) @ event_pairs ?e))"
  proof (cases "rq_type rq = ''payroll''")
    case True
    obtain shares where s:
      "close_due_attendance_intervals (su_env su) (su_seats su) c actor (rq_seat rq) (su_settings su) now (pw_rows w) = Inr rows"
      "price_payable_attendance (su_env su) c (su_settings su) now rows (pw_events w) (su_invalidated su c (rq_seat rq)) (rq_seat rq) = Inr shares"
      "shares \<noteq> []" "summary = Frozen (map as_summary shares)"
      using price_event_payroll [OF e(1) True] .
    have d: "distinct (map ar_id rows)" by (rule close_due_distinct [OF s(1) w(1)])
    have "event_pairs ?e = share_pairs shares" 
      unfolding event_pairs_def fields(5) unfolding s(4) share_pairs_def by simp
    with priced_pairs_are_new [OF s(2,3) d] d prior_is_paid [OF w(3)] show ?thesis by simp
  next
    case False
    with price_event_manual [OF e(1)] w(1) show ?thesis by simp
  qed
  with w fields show ?thesis by (auto simp: payroll_ok_def e(2,3) paid_pairs_snoc)
qed

lemma settle_seat_ok:
  assumes "payroll_ok (snd st) (sr_boundary run)" "settle_seat su c actor run seat st = Inr st'"
  shows "payroll_ok (snd st') (sr_boundary run)"
proof -
  obtain settled skipped w where st: "st = ((settled, skipped), w)" by (metis prod.collapse)
  show ?thesis
  proof (cases "already_settled (pw_events w) c seat (sr_cycle run)")
    case True
    with assms st show ?thesis by (auto simp: settle_seat_def)
  next
    case False
    with assms(2) st obtain rows where rows:
      "close_due_attendance_intervals (su_env su) (su_seats su) c actor seat (su_settings su) (sr_boundary run) (pw_rows w) = Inr rows"
      and r: "snd st' = w\<lparr>pw_rows := rows\<rparr> \<or> (\<exists>out. record_payroll_event su c actor (seat_request run seat) (w\<lparr>pw_rows := rows\<rparr>) = Inr (out, snd st'))"
      by (auto simp: settle_seat_def Let_def res_simps split: if_splits)
    have ok: "payroll_ok (w\<lparr>pw_rows := rows\<rparr>) (sr_boundary run)"
      using assms(1) close_due_distinct [OF rows] by (auto simp: payroll_ok_def st)
    with r new_event_ok [OF ok] show ?thesis by (auto simp: seat_request_def)
  qed
qed

lemma complete_cycle_ok:
  assumes "payroll_ok w t" "complete_payroll_cycle su interpret cycle c actor key b mechanism occurrence w = Inr (res, w')" "t \<le> b"
  shows "payroll_ok w' b"
proof -
  let ?run = "\<lparr>sr_cycle = cycle, sr_boundary = b, sr_mechanism = mechanism, sr_occurrence = occurrence\<rparr>"
  have ok: "payroll_ok w b" by (rule payroll_ok_mono [OF assms(1,3)])
  show ?thesis
  proof (cases "resolve_completed_run (pw_completions w) c key")
    case (Some x)
    with assms(2) ok show ?thesis by (auto simp: complete_payroll_cycle_def res_simps)
  next
    case None
    with assms(2) obtain settled skipped w1 cs where
      s: "settle_class_payroll_cycle su c actor ?run w = Inr ((settled, skipped), w1)" "w' = w1\<lparr>pw_completions := cs\<rparr>"
      by (auto simp: complete_payroll_cycle_def res_simps)
    then obtain seats where "rfold (settle_seat su c actor ?run) seats (([], []), w) = Inr ((settled, skipped), w1)"
      by (auto simp: settle_class_payroll_cycle_def Let_def res_simps)
    then have "payroll_ok (snd ((settled, skipped), w1)) b"
      by (rule rfold_invariant [where P = "\<lambda>st. payroll_ok (snd st) b"])
        (use ok settle_seat_ok [of _ ?run su c actor] in auto)
    then show ?thesis by (simp add: s(2) payroll_ok_def)
  qed
qed

text \<open>
  The histories of a class's payroll: attendance commands, the closing of hanging hall passes, single payroll events, whole cycles, and anything else that
  touches neither the rows nor the events. Seats, settings and configuration may differ from step to step. The boundary
  of a payroll step is at or after the latest one.
\<close>

inductive payroll_history :: "'h payroll_world \<Rightarrow> int \<Rightarrow> bool" where
  start: "distinct (map ar_id (pw_rows w)) \<Longrightarrow> pw_events w = [] \<Longrightarrow> payroll_history w t"
| attend: "payroll_history w t \<Longrightarrow> record_attendance_session_command env seats c ctx_seat cmd (pw_rows w) = Inr (r, rows)
    \<Longrightarrow> payroll_history (w\<lparr>pw_rows := rows\<rparr>) t"
| hanging: "payroll_history w t \<Longrightarrow> close_due_hanging_hall_pass env seats c teacher seat now (pw_rows w) = Inr rows
    \<Longrightarrow> payroll_history (w\<lparr>pw_rows := rows\<rparr>) t"
| event: "payroll_history w t \<Longrightarrow> record_payroll_event su c actor rq w = Inr (out, w') \<Longrightarrow> rq_reference rq = Some b \<Longrightarrow> t \<le> b
    \<Longrightarrow> payroll_history w' b"
| cycle: "payroll_history w t \<Longrightarrow> complete_payroll_cycle su interpret cycle c actor key b mechanism occurrence w = Inr (res, w')
    \<Longrightarrow> t \<le> b \<Longrightarrow> payroll_history w' b"
| other: "payroll_history w t \<Longrightarrow> pw_rows w' = pw_rows w \<Longrightarrow> pw_events w' = pw_events w \<Longrightarrow> payroll_history w' t"

lemma payroll_history_ok: "payroll_history w t \<Longrightarrow> payroll_ok w t"
proof (induction rule: payroll_history.induct)
  case (event w t su c actor rq out w' b)
  then show ?case using new_event_ok payroll_ok_mono by blast
next
  case (cycle w t su itr cid c actor key b mechanism occurrence res w')
  then show ?case using complete_cycle_ok by blast
qed (auto simp: payroll_ok_def paid_pairs_def intro: record_command_distinct close_hanging_distinct)

section \<open>Nothing payable is left\<close>

definition seat_cleared :: "'h payroll_setup \<Rightarrow> string \<Rightarrow> int \<Rightarrow> nat \<Rightarrow> 'h payroll_world \<Rightarrow> bool" where
  "seat_cleared su c now seat w = (\<exists>sp. calculate_seat_payroll_intervals (su_env su) c now (pw_rows w) (pw_events w)
     (su_invalidated su c seat) seat = Inr sp \<and> sp_payable sp = [] \<and> sp_unprovable sp = [])"

lemma payable_whole:
  assumes "class_zone env c = Some tz" "lawful_tz tz" "list_attendance_intervals env c now table seat = Inr ivs"
    and "\<forall>x \<in> row_times table. second_us dvd x" "i \<in> set ivs" "ai_close_id i \<noteq> None" "ai_opened i < ai_closed i"
  shows "whole_priced (closed_for_pricing i)"
proof -
  have g: "ai_seconds i = (ai_closed i - ai_opened i) div second_us"
    using attendance_good [OF assms(1-3)] assms(5) by (auto simp: good_interval_def)
  have "second_us dvd ai_closed i - ai_opened i"
    using closed_interval_times [OF assms(3,5,6)] assms(4) by (intro dvd_diff) auto
  with assms(6,7) g show ?thesis
    by (auto simp: whole_priced_def closed_for_pricing_def interval_span_def as_evidence_def)
qed

text \<open>The reading after an event is recorded at the instant it was priced at.\<close>

lemma cleared_after_event:
  fixes events :: "attendance_event list"
  assumes z: "class_zone env c = Some tz" "lawful_tz tz"
    and p: "price_payable_attendance env c settings now table events invalidated seat = Inr shares" "shares \<noteq> []"
    and d: "distinct (map ar_id table)" and w: "\<forall>x \<in> row_times table. second_us dvd x"
    and e: "ev_summary e = Frozen (map as_summary shares)" "pe_class e = c" "ev_seat e = seat" "pe_type e = ''payroll''" "pe_recorded e = now"
  shows "\<exists>sp. calculate_seat_payroll_intervals env c now table (events @ [e]) invalidated seat = Inr sp
    \<and> sp_payable sp = [] \<and> sp_unprovable sp = []"
proof -
  obtain sp0 where sp0: "calculate_seat_payroll_intervals env c now table events invalidated seat = Inr sp0"
    using p(1) by (auto simp: price_payable_attendance_def res_simps)
  obtain sp ivs where l: "list_attendance_intervals env c now table seat = Inr ivs"
    and sp: "sp = classify_reading (fold (read_event (List.map_filter as_evidence ivs)) (seat_events events c seat now) start_reading) invalidated ivs"
    and u: "sp_unprovable sp = []" and q: "price_intervals env c settings False (map closed_for_pricing (sp_payable sp)) = Inr shares"
    and ne: "sp_payable sp \<noteq> []"
    using price_payable_cases [OF p(1)] p(2) by metis
  let ?ev = "List.map_filter as_evidence ivs"
  let ?rd = "fold (read_event ?ev) (seat_events events c seat now) start_reading"
  let ?rd' = "read_event ?ev e ?rd"
  note f = payable_facts [OF l sp ne]
  have ps: "set (sp_payable sp) \<subseteq> set ivs" using f(4) by blast
  have whole: "\<forall>i \<in> set (map closed_for_pricing (sp_payable sp)). whole_priced i"
    using payable_whole [OF z l w] f(4) by fastforce
  have src: "mset (concat (map st_sources shares)) = mset (List.map_filter as_evidence (sp_payable sp))"
    using price_whole(1) [OF z(1) q whole] by (simp add: evidence_of_closed)
  have src_set: "set (concat (map st_sources shares)) = set (List.map_filter as_evidence (sp_payable sp))"
    by (rule mset_eq_setD [OF src])
  have pairs: "event_pairs e = share_pairs shares" by (simp add: event_pairs_def e(1) share_pairs_def)
  have settled: "set (rd_settled ?rd) = set (prior_pairs events c seat now)" "distinct (rd_settled ?rd)"
    using fold_read_settled(2) [OF _ _ f(1)] f(3) by (auto simp: prior_pairs_def)
  have "share_valid ?ev (as_summary s)" if s: "s \<in> set shares" for s
  proof -
    have "set (st_sources s) \<subseteq> set ?ev" using s src_set ps by (fastforce simp: in_map_filter)
    with price_whole(2) [OF z(1) q whole s] show ?thesis by (simp add: share_valid_def as_summary_def)
  qed
  then have "event_valid ?ev e" using p(2) by (auto simp: event_valid_def e(1))
  moreover have "distinct (rev (event_pairs e) @ rd_settled ?rd)"
    using priced_pairs_are_new [OF p d] settled by (auto simp: pairs)
  ultimately have ok: "\<not> rd_invalid ?rd'" and st: "rd_settled ?rd' = rev (event_pairs e) @ rd_settled ?rd"
    using read_event_settled [OF settled(2) f(1)] by blast+
  have frame: "rd_historical ?rd' = rd_historical ?rd" "rd_legacy ?rd' = rd_legacy ?rd"
    using e(1) by (auto simp: read_event_def split: option.splits)
  have c1: "calculate_seat_payroll_intervals env c now table (events @ [e]) invalidated seat = Inr (classify_reading ?rd' invalidated ivs)"
    using sp0 by (simp add: calculate_seat_payroll_intervals_def l seat_events_def e Let_def split: if_splits)
  have skipped: "is_skipped ?rd' invalidated i" if "is_skipped ?rd invalidated i" for i
    using that by (auto simp: is_skipped_def frame st)
  have paid: "is_skipped ?rd' invalidated i" if i: "i \<in> set (sp_payable sp)" for i
  proof -
    obtain k where k: "ai_close_id i = Some k" using f(4) [OF i] by blast
    then obtain s where s: "as_evidence i = Some s" by (auto simp: as_evidence_def)
    with i have "s \<in> set (List.map_filter as_evidence (sp_payable sp))" by (auto simp: in_map_filter)
    then have "source_key s \<in> set (share_pairs shares)" unfolding share_pairs_sources set_map src_set by (rule imageI)
    moreover have "source_key s = (ai_open_id i, k)" using s k by (auto simp: as_evidence_Some source_key_def)
    ultimately show ?thesis by (force simp: is_skipped_def interval_pair_def k st pairs)
  qed
  have "sp_payable (classify_reading ?rd' invalidated ivs) = []"
    using sp f(1) ok skipped paid by (auto simp: classify_reading_def Let_def frame filter_empty_conv)
  moreover have "sp_unprovable (classify_reading ?rd' invalidated ivs) = []"
    using sp u f(1) ok skipped by (auto simp: classify_reading_def Let_def frame filter_empty_conv)
  ultimately show ?thesis using c1 by blast
qed

end
