(* ===== verification/Payroll_Cycle_Claims.thy ===== *)
theory Payroll_Cycle_Claims
  imports Payroll_Run_Claims
begin

text \<open>
  The properties of the payroll run: no session is paid twice, a cycle pays all closed work of the class, the credit is
  reproducible from the frozen inputs, and the two ways the promise breaks.
\<close>

section \<open>One seat does not disturb another\<close>

definition seat_view :: "string \<Rightarrow> nat \<Rightarrow> 'h payroll_world \<Rightarrow> att_row list \<times> attendance_event list" where
  "seat_view c seat w = (canonical_seat_rows (pw_rows w) seat c,
     filter (\<lambda>e. pe_class e = c \<and> ev_seat e = seat \<and> pe_type e = ''payroll'') (pw_events w))"

lemma seat_cleared_view:
  assumes "seat_view c seat w = seat_view c seat w'"
  shows "seat_cleared su c now seat w = seat_cleared su c now seat w'"
proof -
  have r: "canonical_seat_rows (pw_rows w) seat c = canonical_seat_rows (pw_rows w') seat c"
    using assms by (simp add: seat_view_def)
  have e: "seat_events (pw_events w) c seat now = seat_events (pw_events w') c seat now"
  proof -
    have "seat_events es c seat now = filter (\<lambda>e. pe_recorded e \<le> now) (filter (\<lambda>e. pe_class e = c \<and> ev_seat e = seat \<and> pe_type e = ''payroll'') es)"
      for es :: "attendance_event list"
      by (simp add: seat_events_def conj_ac)
    moreover have "filter (\<lambda>e. pe_class e = c \<and> ev_seat e = seat \<and> pe_type e = ''payroll'') (pw_events w)
        = filter (\<lambda>e. pe_class e = c \<and> ev_seat e = seat \<and> pe_type e = ''payroll'') (pw_events w')"
      using assms by (simp add: seat_view_def)
    ultimately show ?thesis by presburger
  qed
  show ?thesis by (simp add: seat_cleared_def calculate_seat_payroll_intervals_def list_attendance_intervals_def r e)
qed

text \<open>Closing what is due for one seat appends rows of that seat.\<close>

definition appends_for :: "nat \<Rightarrow> att_row list \<Rightarrow> att_row list \<Rightarrow> bool" where
  "appends_for seat table table' = (\<exists>new. table' = table @ new \<and> (\<forall>r \<in> set new. ar_seat r = seat))"

lemma appends_for_view: "appends_for seat table table' \<Longrightarrow> s \<noteq> seat \<Longrightarrow> canonical_seat_rows table' s c = canonical_seat_rows table s c"
  by (auto simp: appends_for_def canonical_seat_rows_def filter_empty_conv filter_append)

lemma close_due_appends:
  assumes "close_due_attendance_intervals env seats c ctx_seat seat settings now table = Inr table'" "seat \<noteq> 0"
  shows "appends_for seat table table'"
proof -
  obtain ivs where "rfold (close_interval env seats c ctx_seat seat settings now ivs) ivs table = Inr table'"
    using assms(1) by (auto simp: close_due_attendance_intervals_def res_simps)
  then show ?thesis
  proof (rule rfold_invariant [where P = "\<lambda>t. appends_for seat table t"])
    show "appends_for seat table table" by (auto simp: appends_for_def)
    fix i t t' assume t: "appends_for seat table t" "close_interval env seats c ctx_seat seat settings now ivs i t = Inr t'"
    show "appends_for seat table t'"
    proof (cases "t' = t")
      case False
      with t(2) obtain due r where r: "record_attendance_session_command env seats c ctx_seat
          \<lparr>at_status = ''inactive'', at_target = Some seat, at_actor = None, at_mechanism = ''system'', at_reason = None,
           at_reason_code = Some ''done_for_day'', at_pass = None, at_reference = Some due\<rparr> t = Inr (r, t')"
        by (auto simp: close_interval_def res_simps split: if_splits)
      from record_command_shape [OF r] obtain row where "append_row row t = (r, t')" "ar_seat row = seat"
        using assms(2) by (auto simp: nat_or_def)
      then have "t' = t @ [r]" "ar_seat r = seat" using append_row_id [of row t r t'] by (auto simp: append_row_def Let_def)
      with t(1) show ?thesis by (auto simp: appends_for_def)
    qed (use t in simp)
  qed
qed

text \<open>What one seat's settlement does to the state.\<close>

lemma settle_seat_step:
  assumes "settle_seat su c actor run seat st = Inr st'" "\<not> already_settled (pw_events (snd st)) c seat (sr_cycle run)"
  obtains (idle) rows where "snd st' = (snd st)\<lparr>pw_rows := rows\<rparr>" "appends_for seat (pw_rows (snd st)) rows" "seat \<noteq> 0"
      "close_due_attendance_intervals (su_env su) (su_seats su) c actor seat (su_settings su) (sr_boundary run) (pw_rows (snd st)) = Inr rows"
      "\<exists>sp n. calculate_seat_payroll_intervals (su_env su) c (sr_boundary run) rows (pw_events (snd st)) (su_invalidated su c seat) seat = Inr sp
         \<and> sp_unprovable sp = [] \<and> elapsed_attendance_seconds (su_env su) c (map interval_span (sp_payable sp)) = Inr n \<and> n \<le> 0"
  | (paid) rows out where "appends_for seat (pw_rows (snd st)) rows" "seat \<noteq> 0"
      "close_due_attendance_intervals (su_env su) (su_seats su) c actor seat (su_settings su) (sr_boundary run) (pw_rows (snd st)) = Inr rows"
      "record_payroll_event su c actor (seat_request run seat) ((snd st)\<lparr>pw_rows := rows\<rparr>) = Inr (out, snd st')"
proof -
  obtain settled skipped w where st: "st = ((settled, skipped), w)" by (metis prod.collapse)
  obtain rows sp payable ip where r:
    "close_due_attendance_intervals (su_env su) (su_seats su) c actor seat (su_settings su) (sr_boundary run) (pw_rows w) = Inr rows"
    "calculate_seat_payroll_intervals (su_env su) c (sr_boundary run) rows (pw_events w) (su_invalidated su c seat) seat = Inr sp"
    "sp_unprovable sp = []"
    "calculate_seat_payroll_attendance (su_env su) c (sr_boundary run) rows (pw_events w) (su_invalidated su c seat) seat = Inr (payable, ip)"
    and rest: "(if payable \<le> 0 then Inr ((settled, skipped), w\<lparr>pw_rows := rows\<rparr>)
       else rbind (record_payroll_event su c actor (seat_request run seat) (w\<lparr>pw_rows := rows\<rparr>)) (\<lambda>(out, w2).
        Inr ((settled @ [seat], skipped), w2))) = Inr st'"
    using assms st by (auto simp: settle_seat_def Let_def res_simps)
  have s0: "seat \<noteq> 0" using r(2) by (auto simp: calculate_seat_payroll_intervals_def split: if_splits)
  have a: "appends_for seat (pw_rows w) rows" by (rule close_due_appends [OF r(1) s0])
  have n: "elapsed_attendance_seconds (su_env su) c (map interval_span (sp_payable sp)) = Inr payable"
    using r(2,4) by (auto simp: calculate_seat_payroll_attendance_def res_simps)
  show thesis
  proof (cases "payable \<le> 0")
    case True
    with rest st idle [of rows] a s0 r n show thesis by auto
  next
    case False
    with rest st paid [of rows] a s0 r show thesis by (auto simp: res_simps)
  qed
qed

lemma record_event_frame:
  assumes "record_payroll_event su c actor rq w = Inr (out, w')" "rq_reference rq = Some now" "rq_type rq = ''payroll''" "rq_seat rq \<noteq> 0"
  shows "appends_for (rq_seat rq) (pw_rows w) (pw_rows w')"
    "\<exists>new. pw_events w' = pw_events w @ new \<and> (\<forall>e \<in> set new. ev_seat e = rq_seat rq \<and> ev_cycle e = rq_cycle rq)"
proof -
  have "appends_for (rq_seat rq) (pw_rows w) (pw_rows w')
    \<and> (\<exists>new. pw_events w' = pw_events w @ new \<and> (\<forall>e \<in> set new. ev_seat e = rq_seat rq \<and> ev_cycle e = rq_cycle rq))"
    using assms(1)
  proof (cases rule: record_payroll_event_cases)
    case replayed
    then show ?thesis by (auto simp: appends_for_def)
  next
    case new
    obtain rows amount policy summary t led where e: "price_event su c actor now rq w = Inr (rows, amount, policy, summary)"
      "out = \<lparr>po_event = new_event su c actor now rq policy summary (pw_events w), po_tx = t, po_replayed = False\<rparr>"
      "w' = w\<lparr>pw_rows := rows, pw_events := pw_events w @ [po_event out], pw_ledger := led\<rparr>"
      using record_new_event_cases [OF new(1) assms(2)] .
    from price_event_payroll [OF e(1) assms(3)] close_due_appends assms(4) have "appends_for (rq_seat rq) (pw_rows w) rows" by metis
    then show ?thesis by (auto simp: e(2,3) new_event_def)
  qed
  then show "appends_for (rq_seat rq) (pw_rows w) (pw_rows w')"
    "\<exists>new. pw_events w' = pw_events w @ new \<and> (\<forall>e \<in> set new. ev_seat e = rq_seat rq \<and> ev_cycle e = rq_cycle rq)" by blast+
qed

lemma appends_for_trans: "appends_for s a b \<Longrightarrow> appends_for s b d \<Longrightarrow> appends_for s a d"
  by (fastforce simp: appends_for_def)

lemma settle_seat_frame:
  assumes "settle_seat su c actor run seat st = Inr st'" "\<not> already_settled (pw_events (snd st)) c seat (sr_cycle run)"
  shows "appends_for seat (pw_rows (snd st)) (pw_rows (snd st'))"
    "\<exists>new. pw_events (snd st') = pw_events (snd st) @ new \<and> (\<forall>e \<in> set new. ev_seat e = seat \<and> ev_cycle e = Some (sr_cycle run))"
proof -
  have "appends_for seat (pw_rows (snd st)) (pw_rows (snd st'))
    \<and> (\<exists>new. pw_events (snd st') = pw_events (snd st) @ new \<and> (\<forall>e \<in> set new. ev_seat e = seat \<and> ev_cycle e = Some (sr_cycle run)))"
    using assms
  proof (cases rule: settle_seat_step)
    case (idle rows)
    then show ?thesis by simp
  next
    case (paid rows out)
    have rq: "rq_reference (seat_request run seat) = Some (sr_boundary run)" "rq_type (seat_request run seat) = ''payroll''"
      "rq_seat (seat_request run seat) = seat" "rq_cycle (seat_request run seat) = Some (sr_cycle run)"
      by (simp_all add: seat_request_def)
    note fr = record_event_frame [OF paid(4) rq(1,2), unfolded rq, OF paid(2)]
    from fr appends_for_trans [OF paid(1)] show ?thesis by simp
  qed
  then show "appends_for seat (pw_rows (snd st)) (pw_rows (snd st'))"
    "\<exists>new. pw_events (snd st') = pw_events (snd st) @ new \<and> (\<forall>e \<in> set new. ev_seat e = seat \<and> ev_cycle e = Some (sr_cycle run))"
    by blast+
qed

lemma settle_seat_view:
  assumes "settle_seat su c actor run seat st = Inr st'" "\<not> already_settled (pw_events (snd st)) c seat (sr_cycle run)" "s \<noteq> seat"
  shows "seat_view c s (snd st') = seat_view c s (snd st)"
proof -
  obtain new where n: "pw_events (snd st') = pw_events (snd st) @ new" "\<forall>e \<in> set new. ev_seat e = seat"
    using settle_seat_frame(2) [OF assms(1,2)] by blast
  then have "filter (\<lambda>e. pe_class e = c \<and> ev_seat e = s \<and> pe_type e = ''payroll'') new = []"
    using assms(3) by (auto simp: filter_empty_conv)
  with n appends_for_view [OF settle_seat_frame(1) [OF assms(1,2)] assms(3)] show ?thesis by (simp add: seat_view_def)
qed

text \<open>The seat itself ends with nothing payable.\<close>

lemma settle_seat_clears:
  assumes z: "class_zone (su_env su) c = Some tz" "lawful_tz tz"
    and s: "settle_seat su c actor run seat st = Inr st'" "\<not> already_settled (pw_events (snd st)) c seat (sr_cycle run)"
    and ok: "payroll_ok (snd st) (sr_boundary run)" and w: "\<forall>x \<in> row_times (pw_rows (snd st')). second_us dvd x"
    and key: "find_event (pw_events (snd st)) c (seat_request run seat) = None"
  shows "seat_cleared su c (sr_boundary run) seat (snd st')"
  using s
proof (cases rule: settle_seat_step)
  case (idle rows)
  then obtain sp n where sp: "calculate_seat_payroll_intervals (su_env su) c (sr_boundary run) rows (pw_events (snd st)) (su_invalidated su c seat) seat = Inr sp"
    "sp_unprovable sp = []" "elapsed_attendance_seconds (su_env su) c (map interval_span (sp_payable sp)) = Inr n" "n \<le> 0" by blast
  from calculate_cases [OF sp(1)] obtain ivs where l: "list_attendance_intervals (su_env su) c (sr_boundary run) rows seat = Inr ivs"
    and c: "sp = classify_reading (fold (read_event (List.map_filter as_evidence ivs)) (seat_events (pw_events (snd st)) c seat (sr_boundary run)) start_reading)
      (su_invalidated su c seat) ivs" by blast
  have "sp_payable sp = []"
  proof (rule ccontr)
    assume ne: "sp_payable sp \<noteq> []"
    note f = payable_facts [OF l c ne]
    have whole: "\<forall>i \<in> set (map closed_for_pricing (sp_payable sp)). whole_priced i"
      using payable_whole [OF z l] w idle(1) f(4) by fastforce
    have sp': "map interval_span (sp_payable sp) = map fst (map closed_for_pricing (sp_payable sp))"
      by (simp add: closed_for_pricing_def)
    have "\<forall>(s, e) \<in> set (map interval_span (sp_payable sp)). second_us dvd e - s"
      using whole unfolding sp' by (fastforce simp: whole_priced_def)
    from elapsed_whole [OF z(1) sp(3) this] whole_sources [OF whole] ne sp(4) show False unfolding sp' by simp
  qed
  with sp idle(1) show ?thesis by (auto simp: seat_cleared_def)
next
  case (paid rows out)
  let ?rq = "seat_request run seat" and ?w = "(snd st)\<lparr>pw_rows := rows\<rparr>"
  have rq: "rq_reference ?rq = Some (sr_boundary run)" "rq_type ?rq = ''payroll''" "rq_seat ?rq = seat" "rq_key ?rq \<noteq> []"
    by (simp_all add: seat_request_def)
  have dr: "distinct (map ar_id rows)" using close_due_distinct [OF paid(3)] ok by (simp add: payroll_ok_def)
  have new: "record_new_event su c actor ?rq ?w = Inr (out, snd st')"
    using paid(4)
  proof (cases rule: record_payroll_event_cases)
    case replayed
    with paid(4) key rq(4) show ?thesis by (auto simp: record_payroll_event_def res_simps split: option.splits if_splits)
  qed
  obtain rows' amount policy summary t led where e: "price_event su c actor (sr_boundary run) ?rq ?w = Inr (rows', amount, policy, summary)"
    "out = \<lparr>po_event = new_event su c actor (sr_boundary run) ?rq policy summary (pw_events ?w), po_tx = t, po_replayed = False\<rparr>"
    "snd st' = ?w\<lparr>pw_rows := rows', pw_events := pw_events ?w @ [po_event out], pw_ledger := led\<rparr>"
    using record_new_event_cases [OF new rq(1)] .
  obtain shares where sh:
    "close_due_attendance_intervals (su_env su) (su_seats su) c actor seat (su_settings su) (sr_boundary run) rows = Inr rows'"
    "price_payable_attendance (su_env su) c (su_settings su) (sr_boundary run) rows' (pw_events (snd st)) (su_invalidated su c seat) seat = Inr shares"
    "shares \<noteq> []" "summary = Frozen (map as_summary shares)"
    using price_event_payroll [OF e(1) rq(2)] by (auto simp: rq(3))
  have ev: "ev_summary (po_event out) = Frozen (map as_summary shares)" "pe_class (po_event out) = c" "ev_seat (po_event out) = seat"
    "pe_type (po_event out) = ''payroll''" "pe_recorded (po_event out) = sr_boundary run"
    by (simp_all add: e(2) new_event_def rq sh(4))
  have "\<forall>x \<in> row_times rows'. second_us dvd x" using w e(3) by simp
  from cleared_after_event [OF z sh(2,3) close_due_distinct [OF sh(1) dr] this ev] e(3) show ?thesis
    by (simp add: seat_cleared_def)
qed

section \<open>A whole cycle\<close>

text \<open>The identity \<^verbatim>\<open>uuid4\<close> allocates for a cycle names no earlier event.\<close>

definition fresh_cycle :: "attendance_event list \<Rightarrow> string \<Rightarrow> bool" where
  "fresh_cycle events cycle = (\<forall>e \<in> set events. ev_cycle e \<noteq> Some cycle
     \<and> (\<forall>seat. ev_key e \<noteq> ''payroll-cycle:'' @ cycle @ '':seat:'' @ digits seat))"

definition untouched :: "attendance_event list \<Rightarrow> settlement_run \<Rightarrow> nat \<Rightarrow> bool" where
  "untouched events run seat = (\<forall>e \<in> set events. ev_seat e = seat \<longrightarrow> ev_cycle e \<noteq> Some (sr_cycle run)
     \<and> ev_key e \<noteq> rq_key (seat_request run seat))"

lemma untouched_facts:
  assumes "untouched events run seat"
  shows "\<not> already_settled events c seat (sr_cycle run)" "find_event events c (seat_request run seat) = None"
  using assms by (auto simp: untouched_def already_settled_def find_event_def find_None_iff seat_request_def)

text \<open>The other seats keep their view, and the rows only grow.\<close>

lemma settle_seat_other:
  assumes "settle_seat su c actor run seat st = Inr st'" "s \<noteq> seat"
  shows "seat_view c s (snd st') = seat_view c s (snd st)" "row_times (pw_rows (snd st)) \<subseteq> row_times (pw_rows (snd st'))"
    "untouched (pw_events (snd st)) run s \<Longrightarrow> untouched (pw_events (snd st')) run s"
proof -
  have "seat_view c s (snd st') = seat_view c s (snd st) \<and> row_times (pw_rows (snd st)) \<subseteq> row_times (pw_rows (snd st'))
    \<and> (untouched (pw_events (snd st)) run s \<longrightarrow> untouched (pw_events (snd st')) run s)"
  proof (cases "already_settled (pw_events (snd st)) c seat (sr_cycle run)")
    case True
    with assms show ?thesis by (auto simp: settle_seat_def split: prod.splits)
  next
    case False
    from settle_seat_frame [OF assms(1) False] assms(2) settle_seat_view [OF assms(1) False assms(2)]
    show ?thesis by (auto simp: appends_for_def row_times_def untouched_def)
  qed
  then show "seat_view c s (snd st') = seat_view c s (snd st)" "row_times (pw_rows (snd st)) \<subseteq> row_times (pw_rows (snd st'))"
    "untouched (pw_events (snd st)) run s \<Longrightarrow> untouched (pw_events (snd st')) run s" by blast+
qed

lemma settle_seats_other:
  assumes "rfold (settle_seat su c actor run) seats st = Inr st'" "s \<notin> set seats"
  shows "seat_view c s (snd st') = seat_view c s (snd st)"
  using assms by (induction seats arbitrary: st) (auto simp: res_simps dest: settle_seat_other(1))

lemma settle_seats_rows:
  assumes "rfold (settle_seat su c actor run) seats st = Inr st'"
  shows "row_times (pw_rows (snd st)) \<subseteq> row_times (pw_rows (snd st'))"
proof (rule rfold_invariant [where P = "\<lambda>t. row_times (pw_rows (snd st)) \<subseteq> row_times (pw_rows (snd t))", OF assms])
  show "row_times (pw_rows (snd st)) \<subseteq> row_times (pw_rows (snd t'))"
    if "row_times (pw_rows (snd st)) \<subseteq> row_times (pw_rows (snd t))" "settle_seat su c actor run x t = Inr t'" for x t t'
    using settle_seat_other(2) [OF that(2), of "Suc x"] that(1) by auto
qed simp

lemma settle_seats_clear:
  assumes z: "class_zone (su_env su) c = Some tz" "lawful_tz tz"
  shows "rfold (settle_seat su c actor run) seats st = Inr st' \<Longrightarrow> distinct seats \<Longrightarrow> payroll_ok (snd st) (sr_boundary run)
    \<Longrightarrow> \<forall>s \<in> set seats. untouched (pw_events (snd st)) run s \<Longrightarrow> \<forall>x \<in> row_times (pw_rows (snd st')). second_us dvd x
    \<Longrightarrow> \<forall>s \<in> set seats. seat_cleared su c (sr_boundary run) s (snd st')"
proof (induction seats arbitrary: st)
  case (Cons seat seats)
  obtain t where t: "settle_seat su c actor run seat st = Inr t" "rfold (settle_seat su c actor run) seats t = Inr st'"
    using Cons.prems(1) by (auto simp: res_simps)
  have n: "seat \<notin> set seats" "distinct seats" using Cons.prems(2) by auto
  have ok: "payroll_ok (snd t) (sr_boundary run)" by (rule settle_seat_ok [OF Cons.prems(3) t(1)])
  have un: "\<forall>s \<in> set seats. untouched (pw_events (snd t)) run s"
    using settle_seat_other(3) [OF t(1)] Cons.prems(4) n(1) by (metis list.set_intros(2))
  have "untouched (pw_events (snd st)) run seat" using Cons.prems(4) by simp
  note u = untouched_facts [OF this, of c]
  have w: "\<forall>x \<in> row_times (pw_rows (snd t)). second_us dvd x" using settle_seats_rows [OF t(2)] Cons.prems(5) by blast
  have "seat_cleared su c (sr_boundary run) seat (snd t)"
    by (rule settle_seat_clears [OF z t(1) u(1) Cons.prems(3) w u(2)])
  then have "seat_cleared su c (sr_boundary run) seat (snd st')"
    using seat_cleared_view [OF settle_seats_other [OF t(2) n(1)]] by blast
  with Cons.IH [OF t(2) n(2) ok un Cons.prems(5)] show ?case by simp
qed simp

lemma eligible_distinct: "distinct (map se_id seats) \<Longrightarrow> distinct (eligible_seat_ids seats rows c)"
  by (simp add: eligible_seat_ids_def distinct_map_filter)

section \<open>Example runs\<close>

text \<open>One class with one claimed student seat (7), paid a dollar a second; seat 9 is the teacher.\<close>

definition example_payroll :: "fprint payroll_setup" where
  "example_payroll = \<lparr>su_env = payroll_env, su_seats = example_seats,
     su_settings = [(example_setting ''p'' 0 0)\<lparr>ps_class := ''c1'', sf_pay_rate := 60\<rparr>], su_invalidated = (\<lambda>c seat. []),
     su_digest = (\<lambda>x. x), su_race = (\<lambda>st. st),
     su_feat = \<lparr>fc_name = Some ''FEAT-PROD-004'', fc_correlation = ''corr'', fc_key = Some ''k''\<rparr>\<rparr>"

definition example_world :: "att_row list \<Rightarrow> fprint payroll_world" where
  "example_world rows = \<lparr>pw_rows = rows, pw_events = [], pw_ledger = \<lparr>txs = [], snapshots = (\<lambda>s. None), reservations = [],
     seat_class = [7 \<mapsto> ''c1'', 9 \<mapsto> ''c1''], class_exists = (\<lambda>c. c = ''c1'')\<rparr>, pw_completions = []\<rparr>"

definition whole_rows :: "att_row list" where
  "whole_rows = [example_row 1 ''active'' ''start_work'' 1000000, example_row 2 ''inactive'' ''hall_pass'' 3000000,
     example_row 3 ''active'' ''start_work'' 5000000, example_row 4 ''inactive'' ''done_for_day'' 9000000]"

definition example_cycle :: "string \<Rightarrow> string \<Rightarrow> int \<Rightarrow> fprint payroll_world \<Rightarrow> prod_error + (cycle_result \<times> fprint payroll_world)" where
  "example_cycle cycle mechanism b w = complete_payroll_cycle example_payroll (\<lambda>w. Inr ()) cycle ''c1'' 9 (''run:'' @ cycle) b mechanism (Some 0) w"

definition after_cycle :: "string \<Rightarrow> string \<Rightarrow> int \<Rightarrow> fprint payroll_world \<Rightarrow> fprint payroll_world" where
  "after_cycle cycle mechanism b w = (case example_cycle cycle mechanism b w of Inl e \<Rightarrow> w | Inr (r, w') \<Rightarrow> w')"

definition paid_world :: "fprint payroll_world" where
  "paid_world = after_cycle ''x'' ''TEACHER'' 20000000 (example_world whole_rows)"

lemma example_cycle_runs:
  "\<exists>res. example_cycle ''x'' ''TEACHER'' 20000000 (example_world whole_rows) = Inr (res, paid_world) \<and> cr_created res"
proof -
  have "case example_cycle ''x'' ''TEACHER'' 20000000 (example_world whole_rows) of Inl e \<Rightarrow> False | Inr (r, w) \<Rightarrow> cr_created r" by code_simp
  then show ?thesis by (auto simp: paid_world_def after_cycle_def split: sum.splits)
qed

lemma example_history: "payroll_history (example_world whole_rows) 0"
  by (rule payroll_history.start) (simp_all add: example_world_def whole_rows_def example_row_def)

section \<open>Properties\<close>

text \<open>
  C6. No session is ever paid twice. Over every history of a class (attendance commands of any kind, single payroll
  events, whole cycles, replays, and changes of anything else) in which the boundary of each payroll step is not before
  the boundary of an earlier one, no pair of opening and closing rows is named twice by the frozen evidence of all payroll
  events of a seat.
\<close>

theorem no_session_is_paid_twice:
  assumes "payroll_history w t"
  shows "distinct (paid_pairs (pw_events w) c seat)"
  using payroll_history_ok [OF assms] by (simp add: payroll_ok_def)

lemma no_session_is_paid_twice_witness:
  "distinct (paid_pairs (pw_events paid_world) ''c1'' 7) \<and> set (paid_pairs (pw_events paid_world) ''c1'' 7) = {(1, 2), (3, 4)}"
proof -
  obtain res where r: "example_cycle ''x'' ''TEACHER'' 20000000 (example_world whole_rows) = Inr (res, paid_world)"
    using example_cycle_runs by blast
  have "payroll_history paid_world 20000000"
    by (rule payroll_history.cycle [OF example_history r [unfolded example_cycle_def]]) simp
  moreover have "set (paid_pairs (pw_events paid_world) ''c1'' 7) = {(1, 2), (3, 4)}" by code_simp
  ultimately show ?thesis using no_session_is_paid_twice by blast
qed

text \<open>
  C7. A payroll cycle over attendance on whole seconds pays all closed work of the class. When a new cycle completes over a
  history whose boundaries do not go back, and all rows lie on whole seconds, then for every claimed student seat with
  attendance the reading at the boundary is provable and finds nothing left to pay. The cycle's identity is fresh, as
  \<^verbatim>\<open>uuid4\<close> makes it, and seat ids are the primary key. Rows with fractions of a second are excluded because the claim fails
  for them, as shown at the end of this theory.
\<close>

theorem payroll_cycle_pays_all_closed_work:
  assumes "class_zone (su_env su) c = Some tz" "lawful_tz tz" "payroll_history w t" "t \<le> b"
    and "complete_payroll_cycle su itr cycle c actor key b mechanism occurrence w = Inr (res, w')" "cr_created res"
    and "fresh_cycle (pw_events w) cycle" "distinct (map se_id (su_seats su))"
    and "\<forall>r \<in> set (pw_rows w'). second_us dvd ar_time r" "seat \<in> set (eligible_seat_ids (su_seats su) (pw_rows w) c)"
  shows "\<exists>sp. calculate_seat_payroll_intervals (su_env su) c b (pw_rows w') (pw_events w') (su_invalidated su c seat) seat = Inr sp
    \<and> sp_payable sp = [] \<and> sp_unprovable sp = []"
proof -
  let ?run = "\<lparr>sr_cycle = cycle, sr_boundary = b, sr_mechanism = mechanism, sr_occurrence = occurrence\<rparr>"
  let ?seats = "eligible_seat_ids (su_seats su) (pw_rows w) c"
  have "resolve_completed_run (pw_completions w) c key = None"
    using assms(5,6) by (auto simp: complete_payroll_cycle_def res_simps split: option.splits)
  with assms(5) obtain settled skipped w1 cs where
    s: "settle_class_payroll_cycle su c actor ?run w = Inr ((settled, skipped), w1)" "w' = w1\<lparr>pw_completions := cs\<rparr>"
    by (auto simp: complete_payroll_cycle_def res_simps)
  then have f: "rfold (settle_seat su c actor ?run) ?seats (([], []), w) = Inr ((settled, skipped), w1)"
    by (auto simp: settle_class_payroll_cycle_def Let_def res_simps)
  have ok: "payroll_ok (snd (([], []), w)) (sr_boundary ?run)"
    using payroll_ok_mono [OF payroll_history_ok [OF assms(3)] assms(4)] by simp
  have un: "\<forall>s \<in> set ?seats. untouched (pw_events (snd (([], []), w))) ?run s"
    using assms(7) by (auto simp: untouched_def fresh_cycle_def seat_request_def)
  have wh: "\<forall>x \<in> row_times (pw_rows (snd ((settled, skipped), w1))). second_us dvd x"
    using assms(9) s(2) by (auto simp: row_times_def)
  from settle_seats_clear [OF assms(1,2) f eligible_distinct [OF assms(8)] ok un wh] assms(10) s(2)
  show ?thesis by (simp add: seat_cleared_def)
qed

lemma payroll_cycle_pays_all_closed_work_witness:
  "\<exists>sp. calculate_seat_payroll_intervals payroll_env ''c1'' 20000000 (pw_rows paid_world) (pw_events paid_world) [] 7 = Inr sp
     \<and> sp_payable sp = []"
proof -
  obtain res where r: "example_cycle ''x'' ''TEACHER'' 20000000 (example_world whole_rows) = Inr (res, paid_world)" "cr_created res"
    using example_cycle_runs by blast
  have f: "fresh_cycle (pw_events (example_world whole_rows)) ''x''" by (simp add: fresh_cycle_def example_world_def)
  have d: "distinct (map se_id (su_seats example_payroll))" by code_simp
  have w: "\<forall>r \<in> set (pw_rows paid_world). second_us dvd ar_time r" by code_simp
  have s: "7 \<in> set (eligible_seat_ids (su_seats example_payroll) (pw_rows (example_world whole_rows)) ''c1'')" by code_simp
  have z: "class_zone (su_env example_payroll) ''c1'' = Some (fixed_zone ''UTC'' 0)"
    by (simp add: example_payroll_def example_class_zone)
  from payroll_cycle_pays_all_closed_work [OF z lawful_fixed_zone example_history _ r(1) [unfolded example_cycle_def] r(2) f d w s]
  show ?thesis by (auto simp: example_payroll_def)
qed

lemma create_idempotent_shape:
  assumes "create_idempotent_transaction digest race ctx now key e st = Inr (t, created, st')" "fc_name ctx = Some feat"
  shows "\<exists>rows. create_reserved_effects digest race ctx now (ef_class e) feat key [e] None st = Inr (t # rows, created, st')"
proof -
  from assms obtain rows cr s where c: "create_reserved_effects digest race ctx now (ef_class e) feat key [e] None st = Inr (rows, cr, s)"
    and r: "(case rows of [] \<Rightarrow> Inl (RuntimeErr ''IndexError'') | t # ts \<Rightarrow> Inr (t, cr, s)) = Inr (t, created, st')"
    by (auto simp: create_idempotent_transaction_def res_simps)
  from c r show ?thesis by (cases rows) auto
qed

lemma add_entries_summary: "add_entries acc (map as_summary shares) = add_shares acc shares"
  by (induction shares arbitrary: acc) (simp_all add: as_summary_def share_amount_def)

text \<open>
  C8. The credit is reproducible. A new attendance-derived event freezes exactly the inputs its amount follows from: the
  cents of the one ledger row it posts, to the seat's checking account, are those \<^verbatim>\<open>amount_from_summary\<close> recomputes from
  the frozen summary, and there is no row only when they recompute to zero.
\<close>

theorem credit_is_reproducible_from_frozen_inputs:
  assumes "record_payroll_event su c actor rq w = Inr (out, w')" "\<not> po_replayed out"
    and "rq_type rq = ''payroll''" "rq_reference rq = Some now" "rq_key rq \<noteq> []" "fc_name (su_feat su) = Some feat"
    and "find_reservation (pw_ledger w) c feat (rq_key rq) = None"
    and "find_reservation (su_race su (pw_ledger w)) c feat (rq_key rq) = None"
  shows "\<exists>pricing. ev_summary (po_event out) = Frozen pricing
    \<and> (case po_tx out of
         None \<Rightarrow> amount_from_summary pricing = 0 \<and> pw_ledger w' = pw_ledger w
       | Some r \<Rightarrow> tx_cents r = cents_even (amount_from_summary pricing) \<and> tx_scope r = (c, rq_seat rq, ''checking'')
           \<and> txs (pw_ledger w') = txs (su_race su (pw_ledger w)) @ [r])"
proof -
  have "record_new_event su c actor rq w = Inr (out, w')"
    using assms(1) by (cases rule: record_payroll_event_cases) (use assms(2) in auto)
  then obtain rows amount policy summary r led where e: "price_event su c actor now rq w = Inr (rows, amount, policy, summary)"
    "post_credit su c actor rq amount (pw_ledger w) = Inr (r, led)"
    "out = \<lparr>po_event = new_event su c actor now rq policy summary (pw_events w), po_tx = r, po_replayed = False\<rparr>"
    "w' = w\<lparr>pw_rows := rows, pw_events := pw_events w @ [po_event out], pw_ledger := led\<rparr>"
    using record_new_event_cases [OF _ assms(4)] by metis
  obtain shares where s: "amount = priced_amount shares" "summary = Frozen (map as_summary shares)"
    using price_event_payroll [OF e(1) assms(3)] by metis
  have am: "amount_from_summary (map as_summary shares) = amount"
    by (simp add: s(1) amount_from_summary_def priced_amount_def add_entries_summary)
  have sm: "ev_summary (po_event out) = Frozen (map as_summary shares)" by (simp add: e(3) new_event_def s(2))
  show ?thesis
  proof (cases "amount = 0")
    case True
    with e(2) have "r = None" "led = pw_ledger w" by (auto simp: post_credit_def)
    with True am sm e(3,4) show ?thesis by simp
  next
    case False
    let ?e = "(payroll_effect c actor rq amount)\<lparr>ef_amount := of_cents (cents_even amount)\<rparr>"
    obtain tr cr where r: "r = Some tr" and ci: "create_idempotent_transaction (su_digest su) (su_race su) (su_feat su)
        (utc_clock (su_env su)) (rq_key rq) ?e (pw_ledger w) = Inr (tr, cr, led)"
      using e(2) False assms(5)
      by (auto simp: post_credit_def create_pending_transaction_def payroll_effect_def str_or_def res_simps)
    have cl: "ef_class ?e = c" by (simp add: payroll_effect_def)
    note ex = create_idempotent_shape [OF ci assms(6), unfolded cl]
    from ex obtain rws where
      ce: "create_reserved_effects (su_digest su) (su_race su) (su_feat su) (utc_clock (su_env su)) c feat (rq_key rq) [?e] None (pw_ledger w)
        = Inr (tr # rws, cr, led)" by blast
    from ce show ?thesis
    proof (cases rule: create_reserved_effects_cases)
      case (fresh fp rv)
      note sh = post_effects_shape [OF fresh(7)]
      from sh(2) have "rws = []" by simp
      with sh(1,3) am sm r e(3,4) show ?thesis by (simp add: payroll_effect_def)
    qed (use assms(7,8) in auto)
  qed
qed

definition example_request :: payroll_request where
  "example_request = seat_request \<lparr>sr_cycle = ''x'', sr_boundary = 20000000, sr_mechanism = ''TEACHER'', sr_occurrence = None\<rparr> 7"

lemma credit_is_reproducible_from_frozen_inputs_witness:
  "\<exists>out w' pricing. record_payroll_event example_payroll ''c1'' 9 example_request (example_world whole_rows) = Inr (out, w')
     \<and> ev_summary (po_event out) = Frozen pricing \<and> map_option tx_cents (po_tx out) = Some (cents_even (amount_from_summary pricing))"
proof -
  let ?w = "example_world whole_rows"
  have "case record_payroll_event example_payroll ''c1'' 9 example_request ?w of Inl e \<Rightarrow> False
      | Inr (out, w') \<Rightarrow> \<not> po_replayed out \<and> po_tx out \<noteq> None" by code_simp
  then obtain out w' where r: "record_payroll_event example_payroll ''c1'' 9 example_request ?w = Inr (out, w')"
    "\<not> po_replayed out" "po_tx out \<noteq> None" by (auto split: sum.splits)
  have q: "rq_type example_request = ''payroll''" "rq_reference example_request = Some 20000000" "rq_key example_request \<noteq> []"
    "fc_name (su_feat example_payroll) = Some ''FEAT-PROD-004''" by code_simp+
  have n: "find_reservation (pw_ledger ?w) ''c1'' ''FEAT-PROD-004'' (rq_key example_request) = None"
    "find_reservation (su_race example_payroll (pw_ledger ?w)) ''c1'' ''FEAT-PROD-004'' (rq_key example_request) = None" by code_simp+
  from credit_is_reproducible_from_frozen_inputs [OF r(1,2) q n] r(1,3) show ?thesis by (auto split: option.splits)
qed

section \<open>What a stale boundary misses\<close>

text \<open>The events a cycle records carry its boundary.\<close>

definition records_at :: "int \<Rightarrow> attendance_event list \<Rightarrow> attendance_event list \<Rightarrow> bool" where
  "records_at b es es' = (\<exists>new. es' = es @ new \<and> (\<forall>e \<in> set new. pe_recorded e = b))"

lemma records_at_refl [simp]: "records_at b es es"
  by (simp add: records_at_def)

lemma records_at_trans: "records_at b es es' \<Longrightarrow> records_at b es' es'' \<Longrightarrow> records_at b es es''"
  unfolding records_at_def by fastforce

lemma record_event_records:
  assumes "record_payroll_event su c actor rq w = Inr (out, w')" "rq_reference rq = Some now"
  shows "records_at now (pw_events w) (pw_events w')"
  using assms(1)
proof (cases rule: record_payroll_event_cases)
  case new
  from record_new_event_cases [OF new(1) assms(2)] obtain policy summary rq' e where
    "pw_events w' = pw_events w @ [e]" "e = new_event su c actor now rq' policy summary (pw_events w)"
    by (metis payroll_outcome.select_convs(1) payroll_world.simps(8) payroll_world.select_convs(2)
        payroll_world.surjective payroll_world.update_convs(1-3))
  then show ?thesis by (auto simp: records_at_def new_event_def)
qed simp

lemma settle_seat_records:
  assumes "settle_seat su c actor run seat st = Inr st'"
  shows "records_at (sr_boundary run) (pw_events (snd st)) (pw_events (snd st'))"
proof (cases "already_settled (pw_events (snd st)) c seat (sr_cycle run)")
  case True
  with assms show ?thesis by (auto simp: settle_seat_def split: prod.splits)
next
  case False
  from assms False show ?thesis
  proof (cases rule: settle_seat_step)
    case (paid rows out)
    have "rq_reference (seat_request run seat) = Some (sr_boundary run)" by (simp add: seat_request_def)
    from record_event_records [OF paid(4) this] show ?thesis by simp
  qed simp
qed

lemma cycle_records:
  assumes "complete_payroll_cycle su itr cycle c actor key b mechanism occurrence w = Inr (res, w')"
  shows "records_at b (pw_events w) (pw_events w')"
proof (cases "resolve_completed_run (pw_completions w) c key")
  case (Some x)
  with assms show ?thesis by (auto simp: complete_payroll_cycle_def res_simps)
next
  case None
  let ?run = "\<lparr>sr_cycle = cycle, sr_boundary = b, sr_mechanism = mechanism, sr_occurrence = occurrence\<rparr>"
  from None assms obtain settled skipped w1 cs where
    s: "settle_class_payroll_cycle su c actor ?run w = Inr ((settled, skipped), w1)" "w' = w1\<lparr>pw_completions := cs\<rparr>"
    by (auto simp: complete_payroll_cycle_def res_simps)
  then obtain seats where "rfold (settle_seat su c actor ?run) seats (([], []), w) = Inr ((settled, skipped), w1)"
    by (auto simp: settle_class_payroll_cycle_def Let_def res_simps)
  then have "records_at b (pw_events w) (pw_events (snd ((settled, skipped), w1)))"
  proof (rule rfold_invariant [where P = "\<lambda>st. records_at b (pw_events w) (pw_events (snd st))"])
    fix x st st' assume "records_at b (pw_events w) (pw_events (snd st))" "settle_seat su c actor ?run x st = Inr st'"
    with settle_seat_records [OF this(2)] show "records_at b (pw_events w) (pw_events (snd st'))"
      by (auto intro: records_at_trans)
  qed simp
  then show ?thesis by (simp add: s(2))
qed

lemma later_events_unread: "records_at later es es' \<Longrightarrow> b < later \<Longrightarrow> seat_events es' c seat b = seat_events es c seat b"
  by (auto simp: records_at_def seat_events_def filter_empty_conv)

text \<open>
  C9. A boundary read before the lock pays again. The routes and the scheduler read the boundary instant and only then
  wait for the seats' locks. When a run with a later boundary completes first, an attendance-derived event at the earlier
  boundary is priced exactly as if that run had paid nothing: the sessions it names, and the amount, are those it would
  have had on the same rows without the run. The run below pays two sessions twice that way.
\<close>

theorem stale_boundary_ignores_later_run:
  assumes "complete_payroll_cycle su itr cycle c actor key later mechanism occurrence w = Inr (res, w')" "b < later"
  shows "price_event su2 d actor2 b rq w' = price_event su2 d actor2 b rq (w\<lparr>pw_rows := pw_rows w'\<rparr>)"
proof -
  have "seat_events (pw_events w') d seat b = seat_events (pw_events w) d seat b" for seat
    by (rule later_events_unread [OF cycle_records [OF assms(1)] assms(2)])
  then have "price_payable_attendance env d settings b rows (pw_events w') invalidated seat =
      price_payable_attendance env d settings b rows (pw_events w) invalidated seat" for env settings rows invalidated seat
    by (simp add: price_payable_attendance_def calculate_seat_payroll_intervals_def)
  then show ?thesis by (simp add: price_event_def split: option.split)
qed

lemma stale_boundary_pays_twice:
  "let w = after_cycle ''y'' ''SYSTEM'' 10000000 (after_cycle ''x'' ''TEACHER'' 20000000 (example_world whole_rows)) in
     paid_pairs (pw_events w) ''c1'' 7 = [(1, 2), (3, 4), (1, 2), (3, 4)] \<and> map tx_cents (txs (pw_ledger w)) = [600, 600]"
  by code_simp

lemma stale_boundary_ignores_later_run_witness:
  "paid_pairs (pw_events paid_world) ''c1'' 7 = [(1, 2), (3, 4)]
     \<and> (case price_event example_payroll ''c1'' 9 10000000 example_request paid_world of
          Inr (rows, amount, policy, Frozen shares) \<Rightarrow> amount = 6 \<and> concat (map share_keys shares) = [(1, 2), (3, 4)] | _ \<Rightarrow> False)"
proof
  show "paid_pairs (pw_events paid_world) ''c1'' 7 = [(1, 2), (3, 4)]" by code_simp
  obtain res where r: "example_cycle ''x'' ''TEACHER'' 20000000 (example_world whole_rows) = Inr (res, paid_world)"
    using example_cycle_runs by blast
  have rows: "pw_rows paid_world = whole_rows" by code_simp
  have eq: "price_event example_payroll ''c1'' 9 10000000 example_request paid_world =
      price_event example_payroll ''c1'' 9 10000000 example_request (example_world whole_rows)"
    using stale_boundary_ignores_later_run [OF r [unfolded example_cycle_def], of 10000000 example_payroll "''c1''" 9 example_request]
    by (simp add: rows) (simp add: example_world_def)
  show "case price_event example_payroll ''c1'' 9 10000000 example_request paid_world of
      Inr (rows, amount, policy, Frozen shares) \<Rightarrow> amount = 6 \<and> concat (map share_keys shares) = [(1, 2), (3, 4)] | _ \<Rightarrow> False"
    unfolding eq by code_simp
qed

section \<open>What fractions of a second break\<close>

lemma group_sources:
  assumes "\<forall>i \<in> set g. \<exists>iv s. i = closed_for_pricing iv \<and> as_evidence iv = Some s \<and> ai_seconds iv = (ai_closed iv - ai_opened iv) div second_us"
  shows "map fst g = map (\<lambda>s. (so_opened s, so_closed s)) (List.map_filter snd g)
    \<and> map so_seconds (List.map_filter snd g) = map (\<lambda>s. (so_closed s - so_opened s) div second_us) (List.map_filter snd g)"
  using assms
proof (induction g)
  case (Cons i g)
  then obtain iv s where i: "i = closed_for_pricing iv" "as_evidence iv = Some s" "ai_seconds iv = (ai_closed iv - ai_opened iv) div second_us"
    by auto
  with Cons show ?case by (auto simp: closed_for_pricing_def interval_span_def as_evidence_Some map_filter_simps)
qed (simp add: map_filter_simps)

text \<open>What a share freezes: the whole seconds of all its sessions together, and of each session alone.\<close>

lemma priced_share_seconds:
  fixes events :: "attendance_event list"
  assumes z: "class_zone env c = Some tz" "lawful_tz tz"
    and p: "price_payable_attendance env c settings now table events invalidated seat = Inr shares" "sh \<in> set shares"
  shows "st_seconds sh = (\<Sum>s\<leftarrow>st_sources sh. so_closed s - so_opened s) div second_us"
    "sum_list (map so_seconds (st_sources sh)) = (\<Sum>s\<leftarrow>st_sources sh. (so_closed s - so_opened s) div second_us)"
proof -
  obtain sp ivs where l: "list_attendance_intervals env c now table seat = Inr ivs"
    and sp: "sp = classify_reading (fold (read_event (List.map_filter as_evidence ivs)) (seat_events events c seat now) start_reading) invalidated ivs"
    and q: "price_intervals env c settings False (map closed_for_pricing (sp_payable sp)) = Inr shares"
    using price_payable_cases [OF p(1)] by metis
  let ?ivs = "map closed_for_pricing (sp_payable sp)"
  obtain ms where ms: "list_all2 (\<lambda>x m. share_of env c settings ?ivs x = Inr m) (policies settings c ?ivs) ms"
    "shares = sort_key st_last_closed (kept ms)" using price_intervals_cases [OF q] .
  have "Some sh \<in> set ms" using p(2) by (auto simp: ms(2) kept_def in_map_filter)
  from list_all2_in_set2 [OF ms(1) this] obtain x where x: "share_of env c settings ?ivs x = Inr (Some sh)" by blast
  let ?g = "policy_group settings c ?ivs x"
  have g: "elapsed_attendance_seconds env c (map fst ?g) = Inr (st_seconds sh)" "0 < st_seconds sh" "st_sources sh = List.map_filter snd ?g"
    using share_of_cases [OF x] by auto
  have ev: "\<exists>s. as_evidence iv = Some s" "ai_seconds iv = (ai_closed iv - ai_opened iv) div second_us" if "iv \<in> set (sp_payable sp)" for iv
  proof -
    have "sp_payable sp \<noteq> []" using that by auto
    note f = payable_facts(4) [OF l sp this that]
    then show "\<exists>s. as_evidence iv = Some s" by (auto simp: as_evidence_def)
    show "ai_seconds iv = (ai_closed iv - ai_opened iv) div second_us"
      using attendance_good [OF z l] f by (auto simp: good_interval_def)
  qed
  have "\<forall>i \<in> set ?g. \<exists>iv s. i = closed_for_pricing iv \<and> as_evidence iv = Some s \<and> ai_seconds iv = (ai_closed iv - ai_opened iv) div second_us"
    using ev by (fastforce simp: policy_group_def)
  note gs = group_sources [OF this]
  have ne: "map fst ?g \<noteq> []" using g(1,2) by (auto simp: elapsed_attendance_seconds_def)
  have "total_us (map fst ?g) = (\<Sum>s\<leftarrow>st_sources sh. so_closed s - so_opened s)"
    unfolding total_us_def conjunct1 [OF gs] g(3) [symmetric] by (simp add: comp_def)
  then show "st_seconds sh = (\<Sum>s\<leftarrow>st_sources sh. so_closed s - so_opened s) div second_us"
    using g(1) elapsed_zone [OF z(1) ne] by simp
  show "sum_list (map so_seconds (st_sources sh)) = (\<Sum>s\<leftarrow>st_sources sh. (so_closed s - so_opened s) div second_us)"
    unfolding g(3) conjunct2 [OF gs] ..
qed

text \<open>
  C15. Fractions of a second can block a seat's payroll for good. A share freezes the whole seconds of its sessions together
  and each session its own. Whenever the two differ for a share of a payroll event, as for two sessions of 1.6 s (3 and
  1 + 1), every later pricing of the seat's attendance fails, whatever else is recorded, until no interval is left.
\<close>

theorem subsecond_share_blocks_later_payroll:
  assumes z: "class_zone (su_env su) c = Some tz" "lawful_tz tz"
    and r: "record_payroll_event su c actor rq w = Inr (out, w')" "\<not> po_replayed out" "rq_type rq = ''payroll''" "rq_reference rq = Some now"
    and p: "ev_summary (po_event out) = Frozen shares" "p \<in> set shares"
      "(\<Sum>s\<leftarrow>sh_sources p. so_closed s - so_opened s) div second_us \<noteq> (\<Sum>s\<leftarrow>sh_sources p. (so_closed s - so_opened s) div second_us)"
    and l: "now \<le> later" "list_attendance_intervals env c later rows (rq_seat rq) \<noteq> Inr []"
  shows "isl (price_payable_attendance env c settings later rows (pw_events w' @ es) invalidated (rq_seat rq))"
proof (rule ccontr)
  have "record_new_event su c actor rq w = Inr (out, w')"
    using r(1) by (cases rule: record_payroll_event_cases) (use r(2) in auto)
  then obtain table amount policy summary t led where e: "price_event su c actor now rq w = Inr (table, amount, policy, summary)"
    "out = \<lparr>po_event = new_event su c actor now rq policy summary (pw_events w), po_tx = t, po_replayed = False\<rparr>"
    "w' = w\<lparr>pw_rows := table, pw_events := pw_events w @ [po_event out], pw_ledger := led\<rparr>"
    using record_new_event_cases [OF _ r(4)] by metis
  obtain ss where s: "price_payable_attendance (su_env su) c (su_settings su) now table (pw_events w) (su_invalidated su c (rq_seat rq)) (rq_seat rq) = Inr ss"
    "summary = Frozen (map as_summary ss)"
    using price_event_payroll [OF e(1) r(3)] by metis
  have ev: "ev_summary (po_event out) = Frozen (map as_summary ss)" "pe_class (po_event out) = c" "ev_seat (po_event out) = rq_seat rq"
    "pe_type (po_event out) = ''payroll''" "pe_recorded (po_event out) = now"
    by (simp_all add: e(2) new_event_def r(3) s(2))
  from p(1,2) ev(1) obtain sh where sh: "sh \<in> set ss" "p = as_summary sh" by auto
  have "sh_seconds p \<noteq> sum_list (map so_seconds (sh_sources p))"
    using priced_share_seconds [OF z s(1) sh(1)] p(3) by (simp add: sh(2) as_summary_def)
  then have bad: "\<not> event_valid evidence (po_event out)" for evidence
    using p(2) by (auto simp: event_valid_def p(1) share_valid_def)
  assume "\<not> ?thesis"
  then obtain res where "price_payable_attendance env c settings later rows (pw_events w' @ es) invalidated (rq_seat rq) = Inr res"
    by (cases "price_payable_attendance env c settings later rows (pw_events w' @ es) invalidated (rq_seat rq)") auto
  then obtain ivs sp where c: "list_attendance_intervals env c later rows (rq_seat rq) = Inr ivs"
    "sp = classify_reading (fold (read_event (List.map_filter as_evidence ivs)) (seat_events (pw_events w' @ es) c (rq_seat rq) later) start_reading) invalidated ivs"
    "sp_unprovable sp = []"
    using price_payable_cases by metis
  have "po_event out \<in> set (seat_events (pw_events w' @ es) c (rq_seat rq) later)"
    using ev l(1) by (simp add: seat_events_def e(3))
  then have "rd_invalid (fold (read_event (List.map_filter as_evidence ivs)) (seat_events (pw_events w' @ es) c (rq_seat rq) later) start_reading)"
    using bad fold_read_settled(1) [of start_reading] by auto
  with c l(2) show False by (simp add: classify_reading_def)
qed

lemma subsecond_sessions_block_later_payroll:
  "let w = after_cycle ''x'' ''TEACHER'' 20000000 (example_world example_table) in
     map tx_cents (txs (pw_ledger w)) = [300]
     \<and> (case example_cycle ''y'' ''TEACHER'' 30000000 w of
          Inl e \<Rightarrow> e = PayErr (PaySettlement ''Historical partial settlement has no provable interval membership.'') | Inr r \<Rightarrow> False)"
  by code_simp

lemma subsecond_share_blocks_later_payroll_witness:
  "\<exists>out w'. record_payroll_event example_payroll ''c1'' 9 example_request (example_world example_table) = Inr (out, w')
     \<and> isl (price_payable_attendance payroll_env ''c1'' (su_settings example_payroll) 30000000 example_table (pw_events w') [] 7)"
proof -
  let ?w = "example_world example_table" and ?t = "\<lambda>p. (\<Sum>s\<leftarrow>sh_sources p. so_closed s - so_opened s) div second_us"
  let ?s = "\<lambda>p. (\<Sum>s\<leftarrow>sh_sources p. (so_closed s - so_opened s) div second_us)"
  have "case record_payroll_event example_payroll ''c1'' 9 example_request ?w of Inl e \<Rightarrow> False
      | Inr (out, w') \<Rightarrow> \<not> po_replayed out \<and> (case ev_summary (po_event out) of Frozen ps \<Rightarrow> list_ex (\<lambda>p. ?t p \<noteq> ?s p) ps | _ \<Rightarrow> False)" by code_simp
  then obtain out w' ps p where r: "record_payroll_event example_payroll ''c1'' 9 example_request ?w = Inr (out, w')"
    "\<not> po_replayed out" "ev_summary (po_event out) = Frozen ps" "p \<in> set ps" "?t p \<noteq> ?s p"
    by (auto simp: list_ex_iff split: sum.splits pay_summary.splits)
  have q: "rq_type example_request = ''payroll''" "rq_reference example_request = Some 20000000" "rq_seat example_request = 7" by code_simp+
  have z: "class_zone (su_env example_payroll) ''c1'' = Some (fixed_zone ''UTC'' 0)"
    by (simp add: example_payroll_def example_class_zone)
  have l: "list_attendance_intervals payroll_env ''c1'' 30000000 example_table (rq_seat example_request) \<noteq> Inr []" by code_simp
  from subsecond_share_blocks_later_payroll [OF z lawful_fixed_zone r(1,2) q(1,2) r(3-5) _ l, of "su_settings example_payroll" "[]" "[]"]
  show ?thesis using r(1) q(3) by auto
qed

end
