(* ===== verification/Payroll_Allocation.thy ===== *)
theory Payroll_Allocation
  imports Payroll_Membership
begin

text \<open>
  \<^verbatim>\<open>allocate_payroll_cents\<close> (\<^verbatim>\<open>app/services/ledger_payroll_allocation.py\<close>): the cents of a payroll credit attributed to its
  sessions, share by share, by the largest remainder with ties to the earliest closing. An exact \<^verbatim>\<open>Fraction\<close> is a
  \<^typ>\<open>rat\<close>; the frozen identifiers and seconds are integers by their types, and the closing instant carries its offset.
\<close>

datatype alloc_error = AllocationIntegrity string

type_synonym allocation = "((nat \<times> nat) \<times> int) list"

definition alloc_guard :: "bool \<Rightarrow> string \<Rightarrow> alloc_error + unit" where
  "alloc_guard ok msg = rguard ok (AllocationIntegrity msg)"

definition share_cents :: "pricing_share \<Rightarrow> int" where
  "share_cents p = cents_even (ddiv (dmul (of_int (sh_seconds p)) (sh_rate p)) 60)"

text \<open>The exact quota of a source in a share of \<open>cents\<close> over \<open>seconds\<close>, and its whole cents.\<close>

definition quota :: "int \<Rightarrow> int \<Rightarrow> pricing_source \<Rightarrow> rat" where
  "quota cents seconds s = (if seconds = 0 then 0 else of_int (cents * so_seconds s) / of_int seconds)"

definition whole_cents :: "int \<Rightarrow> int \<Rightarrow> pricing_source \<Rightarrow> int" where
  "whole_cents cents seconds s = \<lfloor>quota cents seconds s\<rfloor>"

definition rank_key :: "int \<Rightarrow> int \<Rightarrow> pricing_source \<Rightarrow> rat \<times> int \<times> nat \<times> nat" where
  "rank_key cents seconds s = (- (quota cents seconds s - of_int (whole_cents cents seconds s)), so_closed s, so_open s, so_close s)"

fun enter_sources :: "int \<Rightarrow> int \<Rightarrow> pricing_source list \<Rightarrow> allocation \<Rightarrow> alloc_error + allocation" where
  "enter_sources cents seconds [] al = Inr al"
| "enter_sources cents seconds (s # ss) al =
     rbind (alloc_guard (so_open s \<noteq> 0 \<and> so_close s \<noteq> 0) ''Invalid interval source identifiers.'') (\<lambda>_.
     rbind (alloc_guard (source_key s \<notin> set (map fst al)) ''Duplicate interval membership.'') (\<lambda>_.
       enter_sources cents seconds ss (al @ [(source_key s, whole_cents cents seconds s)])))"

definition top_up :: "(nat \<times> nat) list \<Rightarrow> allocation \<Rightarrow> allocation" where
  "top_up keys al = map (\<lambda>(k, v). (k, if k \<in> set keys then v + 1 else v)) al"

definition allocate_share :: "pricing_share \<Rightarrow> allocation \<Rightarrow> alloc_error + allocation" where
  "allocate_share p al =
     (let seconds = sh_seconds p; cents = share_cents p; sources = sh_sources p in
      rbind (alloc_guard (0 \<le> seconds \<and> 0 \<le> sh_rate p) ''Invalid original pricing inputs.'') (\<lambda>_.
      rbind (alloc_guard (\<forall>s \<in> set sources. 0 \<le> so_seconds s) ''Invalid credited seconds.'') (\<lambda>_.
      rbind (alloc_guard (sum_list (map so_seconds sources) = seconds) ''Membership does not sum to its pricing share.'') (\<lambda>_.
      rbind (enter_sources cents seconds sources al) (\<lambda>al'.
        let spare = cents - sum_list (map (whole_cents cents seconds) sources)
        in Inr (top_up (map source_key (take (nat spare) (sort_key (rank_key cents seconds) sources))) al'))))))"

definition allocate_payroll_cents :: "pricing_share list \<Rightarrow> rat \<Rightarrow> int \<Rightarrow> alloc_error + allocation" where
  "allocate_payroll_cents pricing credit version =
     rbind (alloc_guard (version = 1) ''Original allocation version is unavailable.'') (\<lambda>_.
     rbind (alloc_guard (0 \<le> credit \<and> credit = of_cents (cents_even credit)) ''Invalid original credit.'') (\<lambda>_.
     rbind (rfold allocate_share pricing []) (\<lambda>al.
     rbind (alloc_guard (sum_list (map share_cents pricing) = cents_even credit) ''Original credit does not equal frozen pricing shares.'')
       (\<lambda>_. Inr al))))"

section \<open>The largest remainder\<close>

lemma alloc_guard_Inr [simp, res_simps]: "alloc_guard ok e = Inr u \<longleftrightarrow> ok"
  by (simp add: alloc_guard_def)

definition share_ready :: "pricing_share \<Rightarrow> bool" where
  "share_ready p = (0 \<le> sh_seconds p \<and> 0 \<le> sh_rate p \<and> (\<forall>s \<in> set (sh_sources p). 0 \<le> so_seconds s \<and> so_open s \<noteq> 0 \<and> so_close s \<noteq> 0)
     \<and> sum_list (map so_seconds (sh_sources p)) = sh_seconds p)"

lemma share_cents_nonneg: "share_ready p \<Longrightarrow> 0 \<le> share_cents p"
  unfolding share_cents_def share_ready_def by (intro cents_even_nonneg ddiv_nonneg dmul_nonneg) auto

lemma quota_sum:
  assumes "sum_list (map so_seconds ss) = seconds" "0 \<le> seconds" "seconds = 0 \<longrightarrow> cents = 0"
  shows "sum_list (map (quota cents seconds) ss) = of_int cents"
proof (cases "seconds = 0")
  case True
  then have "quota cents seconds = (\<lambda>s. 0)" "cents = 0" using assms(3) by (auto simp: quota_def)
  then show ?thesis by simp
next
  case False
  have "sum_list (map (quota cents seconds) ss) = of_int (cents * sum_list (map so_seconds ss)) / of_int seconds"
    using False by (induction ss) (auto simp: quota_def distrib_left add_divide_distrib)
  then show ?thesis using assms(1) False by simp
qed

lemma share_quota_sum: "share_ready p \<Longrightarrow> sum_list (map (quota (share_cents p) (sh_seconds p)) (sh_sources p)) = of_int (share_cents p)"
  by (rule quota_sum) (auto simp: share_ready_def share_cents_def dmul_def ddiv_def dec_simps cents_even_def half_even_def)

text \<open>
  The spare cents are the sum of the remainders, so there are at most as many of them as sources with a remainder, and the
  sources ranked first all have one.
\<close>

definition frac_of :: "int \<Rightarrow> int \<Rightarrow> pricing_source \<Rightarrow> rat" where
  "frac_of cents seconds s = quota cents seconds s - of_int (whole_cents cents seconds s)"

lemma frac_bounds: "0 \<le> frac_of cents seconds s" "frac_of cents seconds s < 1"
  unfolding frac_of_def whole_cents_def by linarith+

lemma sum_frac_count:
  fixes f :: "'a \<Rightarrow> rat"
  assumes "\<And>x. 0 \<le> f x" "\<And>x. f x < 1"
  shows "sum_list (map f xs) \<le> of_nat (length (filter (\<lambda>x. 0 < f x) xs))" "0 \<le> sum_list (map f xs)"
proof -
  have "sum_list (map f xs) \<le> of_nat (length (filter (\<lambda>x. 0 < f x) xs)) \<and> 0 \<le> sum_list (map f xs)"
  proof (induction xs)
    case (Cons x xs)
    have "f x = 0" if "\<not> 0 < f x" using that assms(1) [of x] by linarith
    with Cons assms(2) [of x] show ?case by (cases "0 < f x") auto
  qed simp
  then show "sum_list (map f xs) \<le> of_nat (length (filter (\<lambda>x. 0 < f x) xs))" "0 \<le> sum_list (map f xs)" by blast+
qed

lemma sorted_take_pos:
  fixes f :: "'a \<Rightarrow> rat"
  assumes "sorted_wrt (\<lambda>x y. f y \<le> f x) xs" "n \<le> length (filter (\<lambda>x. 0 < f x) xs)" "x \<in> set (take n xs)"
  shows "0 < f x"
  using assms
proof (induction xs arbitrary: n)
  case (Cons y ys)
  show ?case
  proof (cases "0 < f y")
    case True
    with Cons show ?thesis by (cases n) auto
  next
    case False
    then have "filter (\<lambda>x. 0 < f x) (y # ys) = []" using Cons.prems(1) by (force simp: filter_empty_conv not_less)
    with Cons.prems(2,3) show ?thesis by simp
  qed
qed simp

lemma enter_sources_Inr:
  "distinct (map fst al) \<Longrightarrow> enter_sources cents seconds ss al = Inr al' \<longleftrightarrow>
     (\<forall>s \<in> set ss. so_open s \<noteq> 0 \<and> so_close s \<noteq> 0) \<and> distinct (map fst al @ map source_key ss)
     \<and> al' = al @ map (\<lambda>s. (source_key s, whole_cents cents seconds s)) ss"
proof (induction ss arbitrary: al)
  case (Cons s ss)
  show ?case
  proof (cases "source_key s \<in> set (map fst al)")
    case False
    then have "distinct (map fst (al @ [(source_key s, whole_cents cents seconds s)]))" using Cons.prems by simp
    from Cons.IH [OF this] False Cons.prems show ?thesis by (auto simp: res_simps)
  qed (auto simp: res_simps)
qed auto

definition spare_cents :: "pricing_share \<Rightarrow> int" where
  "spare_cents p = share_cents p - sum_list (map (whole_cents (share_cents p) (sh_seconds p)) (sh_sources p))"

definition favoured :: "pricing_share \<Rightarrow> pricing_source list" where
  "favoured p = take (nat (spare_cents p)) (sort_key (rank_key (share_cents p) (sh_seconds p)) (sh_sources p))"

definition share_alloc :: "pricing_share \<Rightarrow> allocation" where
  "share_alloc p = map (\<lambda>s. (source_key s, whole_cents (share_cents p) (sh_seconds p) s
     + (if source_key s \<in> set (map source_key (favoured p)) then 1 else 0))) (sh_sources p)"

lemma share_alloc_keys: "map fst (share_alloc p) = share_keys p"
  by (simp add: share_alloc_def share_keys_def)

lemma favoured_sub: "set (favoured p) \<subseteq> set (sh_sources p)"
  unfolding favoured_def by (metis set_sort set_take_subset)

lemma allocate_share_Inr:
  assumes "distinct (map fst al)"
  shows "allocate_share p al = Inr al' \<longleftrightarrow> share_ready p \<and> distinct (map fst al @ share_keys p) \<and> al' = al @ share_alloc p"
proof -
  let ?new = "map (\<lambda>s. (source_key s, whole_cents (share_cents p) (sh_seconds p) s)) (sh_sources p)"
  let ?K = "map source_key (favoured p)"
  have K: "set ?K \<subseteq> set (share_keys p)" using favoured_sub [of p] by (auto simp: share_keys_def)
  have "top_up ?K (al @ ?new) = al @ share_alloc p" if "distinct (map fst al @ share_keys p)"
  proof -
    have "top_up ?K al = al"
      unfolding top_up_def by (rule map_idI) (use that K in \<open>force split: prod.splits\<close>)
    then show ?thesis by (auto simp: top_up_def share_alloc_def)
  qed
  then show ?thesis
    unfolding allocate_share_def Let_def spare_cents_def [symmetric] favoured_def [symmetric]
    by (auto simp: res_simps enter_sources_Inr [OF assms] share_ready_def share_keys_def)
qed

lemma allocate_shares_Inr:
  "distinct (map fst al) \<Longrightarrow> rfold allocate_share ps al = Inr al' \<longleftrightarrow>
     (\<forall>p \<in> set ps. share_ready p) \<and> distinct (map fst al @ concat (map share_keys ps)) \<and> al' = al @ concat (map share_alloc ps)"
proof (induction ps arbitrary: al)
  case (Cons p ps)
  show ?case
  proof (cases "share_ready p \<and> distinct (map fst al @ share_keys p)")
    case True
    then have a: "allocate_share p al = Inr (al @ share_alloc p)" using allocate_share_Inr [OF Cons.prems] by blast
    have "distinct (map fst (al @ share_alloc p))" using True by (simp add: share_alloc_keys)
    from Cons.IH [OF this] a True show ?thesis by (auto simp: share_alloc_keys)
  next
    case False
    then have "allocate_share p al \<noteq> Inr x" for x using allocate_share_Inr [OF Cons.prems] by blast
    then have "rfold allocate_share (p # ps) al \<noteq> Inr al'" by (auto simp: res_simps)
    with False show ?thesis by auto
  qed
qed auto

lemma spare_bounds:
  assumes "share_ready p"
  shows "0 \<le> spare_cents p"
    "nat (spare_cents p) \<le> length (filter (\<lambda>s. 0 < frac_of (share_cents p) (sh_seconds p) s) (sh_sources p))"
proof -
  let ?f = "frac_of (share_cents p) (sh_seconds p)"
  have "sum_list (map ?f ss) = sum_list (map (quota (share_cents p) (sh_seconds p)) ss)
      - of_int (sum_list (map (whole_cents (share_cents p) (sh_seconds p)) ss))" for ss
    by (induction ss) (simp_all add: frac_of_def)
  then have e: "of_int (spare_cents p) = sum_list (map ?f (sh_sources p))"
    using share_quota_sum [OF assms] by (simp add: spare_cents_def)
  note b = sum_frac_count [of ?f "sh_sources p", OF frac_bounds]
  have "(0 :: rat) \<le> of_int (spare_cents p)" using b(2) unfolding e .
  then show "0 \<le> spare_cents p" by simp
  have "(of_int (spare_cents p) :: rat) \<le> of_int (int (length (filter (\<lambda>s. 0 < ?f s) (sh_sources p))))"
    using b(1) unfolding e by simp
  then show "nat (spare_cents p) \<le> length (filter (\<lambda>s. 0 < ?f s) (sh_sources p))" unfolding of_int_le_iff by linarith
qed

lemma favoured_frac:
  assumes "share_ready p" "s \<in> set (favoured p)"
  shows "0 < frac_of (share_cents p) (sh_seconds p) s"
proof -
  let ?f = "frac_of (share_cents p) (sh_seconds p)" and ?R = "sort_key (rank_key (share_cents p) (sh_seconds p)) (sh_sources p)"
  have "sorted_wrt (\<lambda>x y. rank_key (share_cents p) (sh_seconds p) x \<le> rank_key (share_cents p) (sh_seconds p) y) ?R"
    using sorted_sort_key [of "rank_key (share_cents p) (sh_seconds p)"] by (simp add: sorted_map)
  then have r: "sorted_wrt (\<lambda>x y. ?f y \<le> ?f x) ?R"
    by (rule sorted_wrt_mono_rel [rotated]) (auto simp: rank_key_def frac_of_def)
  have "length (filter (\<lambda>s. 0 < ?f s) ?R) = length (filter (\<lambda>s. 0 < ?f s) (sh_sources p))"
    by (metis mset_filter mset_sort size_mset)
  with spare_bounds(2) [OF assms(1)] have "nat (spare_cents p) \<le> length (filter (\<lambda>s. 0 < ?f s) ?R)" by simp
  from sorted_take_pos [OF r this] assms(2) show ?thesis by (simp add: favoured_def)
qed

lemma sum_list_mset_cong: "mset xs = mset ys \<Longrightarrow> sum_list (map f xs) = (sum_list (map f ys) :: int)"
  by (metis mset_map sum_mset_sum_list)

lemma share_alloc_sum:
  assumes "share_ready p" "distinct (share_keys p)"
  shows "sum_list (map snd (share_alloc p)) = share_cents p"
proof -
  let ?K = "set (map source_key (favoured p))" and ?R = "sort_key (rank_key (share_cents p) (sh_seconds p)) (sh_sources p)"
  let ?n = "nat (spare_cents p)" and ?one = "\<lambda>s. if source_key s \<in> ?K then 1 else (0 :: int)"
  have "mset (map source_key ?R) = mset (share_keys p)" by (simp add: share_keys_def)
  then have d: "distinct (map source_key ?R)" using assms(2) mset_eq_imp_distinct_iff by blast
  have R: "?R = favoured p @ drop ?n ?R" by (simp add: favoured_def)
  have fav: "sum_list (map ?one (favoured p)) = int (length (favoured p))"
  proof -
    have "map ?one (favoured p) = map (\<lambda>s. 1) (favoured p)" by (rule map_cong) auto
    then show ?thesis by (simp only: sum_list_triv)
  qed
  have dR: "distinct (map source_key (favoured p @ drop ?n ?R))" by (subst R [symmetric]) (rule d)
  have rest: "sum_list (map ?one (drop ?n ?R)) = 0"
  proof -
    have "map ?one (drop ?n ?R) = map (\<lambda>s. 0) (drop ?n ?R)" by (rule map_cong) (use dR in auto)
    then show ?thesis by (simp only: sum_list_triv)
  qed
  have split: "sum_list (map ?one ?R) = sum_list (map ?one (favoured p)) + sum_list (map ?one (drop ?n ?R))"
    by (subst R) simp
  have len: "length (favoured p) = ?n"
    using le_trans [OF spare_bounds(2) [OF assms(1)] length_filter_le] by (simp add: favoured_def)
  have "sum_list (map ?one (sh_sources p)) = sum_list (map ?one ?R)" by (rule sum_list_mset_cong) simp
  with fav rest split len spare_bounds(1) [OF assms(1)] have "sum_list (map ?one (sh_sources p)) = spare_cents p" by simp
  moreover have "sum_list (map snd (share_alloc p))
      = sum_list (map (whole_cents (share_cents p) (sh_seconds p)) (sh_sources p)) + sum_list (map ?one (sh_sources p))"
    by (simp add: share_alloc_def o_def sum_list_addf)
  ultimately show ?thesis by (simp add: spare_cents_def)
qed

section \<open>Properties\<close>

text \<open>
  C16. A payroll credit is attributed exactly and fairly. When the allocation succeeds, every frozen session of the credit
  appears once, in the order of the evidence, the attributed cents add up to the credit, and each session gets its exact
  quota rounded down or up, so never a cent more than its rounded-up share of the setting that priced it.
\<close>

theorem allocation_is_exact_and_fair:
  assumes "allocate_payroll_cents pricing credit version = Inr al"
  shows "of_cents (sum_list (map snd al)) = credit \<and> map fst al = concat (map share_keys pricing) \<and> distinct (map fst al)
    \<and> (\<forall>p \<in> set pricing. \<forall>s \<in> set (sh_sources p). \<exists>v. map_of al (source_key s) = Some v
       \<and> \<lfloor>quota (share_cents p) (sh_seconds p) s\<rfloor> \<le> v \<and> v \<le> \<lceil>quota (share_cents p) (sh_seconds p) s\<rceil>)"
proof (intro conjI ballI)
  have g: "credit = of_cents (cents_even credit)" "sum_list (map share_cents pricing) = cents_even credit"
    and r: "rfold allocate_share pricing [] = Inr al"
    using assms by (auto simp: allocate_payroll_cents_def res_simps)
  have al: "\<forall>p \<in> set pricing. share_ready p" "distinct (concat (map share_keys pricing))" "al = concat (map share_alloc pricing)"
    using allocate_shares_Inr [of "[]" pricing al] r by auto
  show k: "map fst al = concat (map share_keys pricing)" by (simp add: al(3) map_concat o_def share_alloc_keys)
  show d: "distinct (map fst al)" unfolding k by (rule al(2))
  have each: "distinct (share_keys p)" if "p \<in> set pricing" for p
    using al(2) that by (auto simp: distinct_concat_iff)
  have "sum_list (map snd (concat (map share_alloc ps))) = sum_list (map share_cents ps)" if "set ps \<subseteq> set pricing" for ps
    using that by (induction ps) (auto simp: share_alloc_sum al(1) each)
  with g show "of_cents (sum_list (map snd al)) = credit" by (simp add: al(3))
  show "\<exists>v. map_of al (source_key s) = Some v
       \<and> \<lfloor>quota (share_cents p) (sh_seconds p) s\<rfloor> \<le> v \<and> v \<le> \<lceil>quota (share_cents p) (sh_seconds p) s\<rceil>"
    if p: "p \<in> set pricing" "s \<in> set (sh_sources p)" for p s
  proof -
    let ?q = "quota (share_cents p) (sh_seconds p) s"
    let ?v = "whole_cents (share_cents p) (sh_seconds p) s + (if source_key s \<in> set (map source_key (favoured p)) then 1 else 0)"
    have "(source_key s, ?v) \<in> set (share_alloc p)" unfolding share_alloc_def set_map by (rule image_eqI [OF refl p(2)])
    then have "(source_key s, ?v) \<in> set al" using p(1) by (auto simp: al(3))
    then have m: "map_of al (source_key s) = Some ?v" using d by (simp add: map_of_is_SomeI)
    have "0 < frac_of (share_cents p) (sh_seconds p) s" if "source_key s \<in> set (map source_key (favoured p))"
    proof -
      from that obtain s' where s': "s' \<in> set (favoured p)" "source_key s' = source_key s" by auto
      have "s' = s" using each [OF p(1)] favoured_sub [of p] s' p(2) by (auto simp: share_keys_def distinct_map inj_on_def)
      with favoured_frac [of p s'] s'(1) al(1) p(1) show ?thesis by simp
    qed
    then have "?v \<le> \<lceil>?q\<rceil>" by (auto simp: frac_of_def whole_cents_def) linarith+
    with m show ?thesis by (auto simp: whole_cents_def)
  qed
qed

definition example_share :: pricing_share where
  "example_share = \<lparr>sh_policy = Some ''p'', sh_seconds = 7, sh_rate = 1, sh_sources =
     [\<lparr>so_open = 1, so_close = 2, so_opened = 0, so_closed = 5, so_seconds = 2\<rparr>,
      \<lparr>so_open = 3, so_close = 4, so_opened = 6, so_closed = 9, so_seconds = 5\<rparr>]\<rparr>"

lemma allocation_is_exact_and_fair_witness:
  "\<exists>al. allocate_payroll_cents [example_share] (12/100) 1 = Inr al \<and> of_cents (sum_list (map snd al)) = 12/100
     \<and> (\<exists>v. map_of al (1, 2) = Some v \<and> v \<le> \<lceil>quota (share_cents example_share) 7 (hd (sh_sources example_share))\<rceil>)"
proof -
  have "\<not> isl (allocate_payroll_cents [example_share] (12/100) 1)" by code_simp
  then obtain al where al: "allocate_payroll_cents [example_share] (12/100) 1 = Inr al"
    by (cases "allocate_payroll_cents [example_share] (12/100) 1") auto
  from allocation_is_exact_and_fair [OF al] al show ?thesis by (auto simp: example_share_def source_key_def)
qed

text \<open>Valid frozen inputs whose cents add up to the credit are always allocated.\<close>

lemma valid_inputs_are_allocated:
  assumes "\<forall>p \<in> set pricing. share_ready p" "distinct (concat (map share_keys pricing))"
    and "credit = of_cents (sum_list (map share_cents pricing))"
  shows "\<exists>al. allocate_payroll_cents pricing credit 1 = Inr al"
proof -
  have "0 \<le> sum_list (map share_cents pricing)" using assms(1) by (intro sum_list_nonneg) (auto simp: share_cents_nonneg)
  with assms allocate_shares_Inr [of "[]" pricing "concat (map share_alloc pricing)"] show ?thesis
    by (auto simp: allocate_payroll_cents_def res_simps of_cents_nonneg)
qed

end
