(* ===== verification/Obligations.thy ===== *)
theory Obligations
  imports Attendance Ledger_Plans Class_Configuration
begin

text \<open>
  Obligations, \<^verbatim>\<open>app/services/obligations_service.py\<close>: the append-only events of \<^verbatim>\<open>assessment_events\<close>, the
  bill cycles of a lineage, and the one derivation of what is owed. Nothing owed is stored: the amount comes from
  the policy row an assessment froze, what was paid from the Ledger rows its payments name. Money is in cents
  (the columns have two decimals). Instants are compared at class level through the resolver wherever the code
  asks it at class level, and directly where it asks at system level.
\<close>

section \<open>Rows\<close>

datatype event_kind = ASSESSMENT | PAYMENT | WAIVED | WITHDRAWN

record obl_event =
  oe_id :: nat
  oe_seat :: seat_id
  oe_class :: class_id
  oe_ref :: string
  oe_corr :: string
  oe_source :: "string option"
  oe_kind :: event_kind
  oe_type :: string
  oe_policy :: "string option"
  oe_time :: int
  oe_cycle :: "nat option"
  oe_tx :: "nat option"
  oe_notes :: "string option"

record bill_cycle =
  bc_id :: nat
  bc_class :: class_id
  bc_ref :: string
  bc_number :: int
  bc_policy :: "string option"
  bc_version :: "string option"
  bc_boundary :: int
  bc_next :: "int option"
  bc_grace :: "int option"

record rent_policy =
  rp_id :: nat
  rp_uuid :: string
  rp_class :: class_id
  rp_in_use :: bool
  rp_configured :: int
  rp_amount :: "int option"
  rp_frequency :: "string option"
  rp_custom_value :: "int option"
  rp_custom_unit :: "string option"
  rp_first_due :: "int option"
  rp_due_day :: "int option"
  rp_grace_days :: "int option"
  rp_penalty :: "int option"
  rp_penalty_type :: "string option"
  rp_penalty_days :: "int option"
  rp_preview_enabled :: bool
  rp_preview_days :: "int option"
  rp_incremental :: bool

record insurance_policy =
  ip_uuid :: string
  ip_class :: class_id
  ip_premium :: int
  ip_frequency :: string
  ip_preview_days :: "int option"
  ip_mode :: "string option"
  ip_cancel_days :: "int option"

record 'h obl_command =
  oc_class :: class_id
  oc_name :: string
  oc_key :: string
  oc_ref :: string
  oc_fingerprint :: 'h
  oc_version :: int
  oc_cycle :: nat

record 'h obligations =
  ob_events :: "obl_event list"
  ob_cycles :: "bill_cycle list"
  ob_commands :: "'h obl_command list"
  ob_rents :: "rent_policy list"
  ob_insurance :: "insurance_policy list"

datatype obl_error =
    OblTime pay_error
  | OblValue string
  | OblLookup string
  | OblRuntime string
  | OblAttribute
  | OblIntegrity
  | OblLedger led_error
  | BillCycleLifecycle string
  | SuccessionNotDue
  | SuccessionAfterTerminal
  | SuccessionReplayMismatch
  | SuccessionConflict
  | ObligationNotWithdrawable string

definition obl_time :: "pay_error + 'a \<Rightarrow> obl_error + 'a" where
  "obl_time m = (case m of Inl e \<Rightarrow> Inl (OblTime e) | Inr x \<Rightarrow> Inr x)"

lemma obl_time_Inr [simp, res_simps]: "obl_time m = Inr x \<longleftrightarrow> m = Inr x"
  by (simp add: obl_time_def split: sum.splits)

lemma obl_time_simps [simp]: "obl_time (Inr x) = Inr x" "obl_time (Inl e) = Inl (OblTime e)"
  by (simp_all add: obl_time_def)

definition obl_later_than :: "time_env \<Rightarrow> class_id \<Rightarrow> int \<Rightarrow> int \<Rightarrow> obl_error + bool" where
  "obl_later_than env c candidate ref = obl_time (later_than env c candidate ref)"

text \<open>The \<^verbatim>\<open>current_time\<close> primitive at class level: the given reference, or the clock, once the class has a zone.\<close>

definition class_now :: "time_env \<Rightarrow> class_id \<Rightarrow> int option \<Rightarrow> obl_error + int" where
  "class_now env c reference = rbind (obl_time (cle env c ''current_time'' (map_option Aware reference) no_kwargs))
     (\<lambda>r. case r of RNow w now \<Rightarrow> Inr now | _ \<Rightarrow> Inl OblAttribute)"

definition class_between :: "time_env \<Rightarrow> class_id \<Rightarrow> int \<Rightarrow> int \<Rightarrow> int \<Rightarrow> obl_error + bool" where
  "class_between env c t s e = rbind (obl_time (cle env c ''between_boundaries'' (Some (Aware t))
     (no_kwargs\<lparr>kw_candidate := Some (Aware t), kw_start_boundary := Some (Aware s), kw_end_boundary := Some (Aware e)\<rparr>)))
     (\<lambda>r. case r of RBetween b \<Rightarrow> Inr b | _ \<Rightarrow> Inl OblAttribute)"

section \<open>Event reads\<close>

definition get_assessment_for_correlation :: "'h obligations \<Rightarrow> string \<Rightarrow> obl_event option" where
  "get_assessment_for_correlation ob corr =
     List.find (\<lambda>e. oe_corr e = corr \<and> oe_kind e = ASSESSMENT) (ob_events ob)"

definition get_obligations_arising_from :: "'h obligations \<Rightarrow> string \<Rightarrow> obl_event list" where
  "get_obligations_arising_from ob source =
     (if source = [] then []
      else sort_key (\<lambda>e. (oe_time e, oe_id e)) (filter (\<lambda>e. oe_source e = Some source \<and> oe_kind e = ASSESSMENT) (ob_events ob)))"

definition get_withdrawal_event :: "'h obligations \<Rightarrow> string \<Rightarrow> obl_event option" where
  "get_withdrawal_event ob corr = List.find (\<lambda>e. oe_corr e = corr \<and> oe_kind e = WITHDRAWN) (ob_events ob)"

definition get_satisfaction_events :: "'h obligations \<Rightarrow> string \<Rightarrow> obl_event list" where
  "get_satisfaction_events ob corr =
     sort_key oe_time (filter (\<lambda>e. oe_corr e = corr \<and> oe_kind e \<in> {PAYMENT, WAIVED}) (ob_events ob))"

definition payment_event_magnitude :: "tx list \<Rightarrow> obl_event \<Rightarrow> int" where
  "payment_event_magnitude ts e =
     (if oe_kind e \<noteq> PAYMENT then 0
      else (case oe_tx e of None \<Rightarrow> 0
        | Some i \<Rightarrow> (case List.find (\<lambda>t. tx_id t = i) ts of None \<Rightarrow> 0 | Some t \<Rightarrow> \<bar>tx_cents t\<bar>)))"

definition get_paid_magnitude :: "tx list \<Rightarrow> 'h obligations \<Rightarrow> string \<Rightarrow> int" where
  "get_paid_magnitude ts ob corr = sum_list (map (payment_event_magnitude ts) (get_satisfaction_events ob corr))"

definition get_paid_magnitude_through_event :: "tx list \<Rightarrow> 'h obligations \<Rightarrow> string \<Rightarrow> obl_event \<Rightarrow> int" where
  "get_paid_magnitude_through_event ts ob corr b =
     sum_list (map (payment_event_magnitude ts)
       (filter (\<lambda>e. oe_kind e = PAYMENT \<and> (oe_time e < oe_time b \<or> (oe_time e = oe_time b \<and> oe_id e \<le> oe_id b)))
         (get_satisfaction_events ob corr)))"

definition get_payment_event_by_ledger :: "'h obligations \<Rightarrow> nat option \<Rightarrow> obl_event option" where
  "get_payment_event_by_ledger ob tx =
     (case tx of None \<Rightarrow> None | Some i \<Rightarrow> List.find (\<lambda>e. oe_tx e = Some i \<and> oe_kind e = PAYMENT) (ob_events ob))"

definition get_assessment_events_for_seat_class :: "'h obligations \<Rightarrow> seat_id \<Rightarrow> class_id \<Rightarrow> string option \<Rightarrow> obl_event list" where
  "get_assessment_events_for_seat_class ob s c type =
     sort_key oe_time (filter (\<lambda>e. oe_seat e = s \<and> oe_class e = c
       \<and> (str_or type [] = [] \<or> Some (oe_type e) = type)) (ob_events ob))"

definition check_idempotency_assessment :: "'h obligations \<Rightarrow> string \<Rightarrow> string \<Rightarrow> bool" where
  "check_idempotency_assessment ob ref corr =
     (List.find (\<lambda>e. oe_ref e = ref \<and> oe_corr e = corr \<and> oe_kind e = ASSESSMENT) (ob_events ob) \<noteq> None)"

definition check_idempotency_satisfaction :: "'h obligations \<Rightarrow> string \<Rightarrow> event_kind \<Rightarrow> bool" where
  "check_idempotency_satisfaction ob corr k = (List.find (\<lambda>e. oe_corr e = corr \<and> oe_kind e = k) (ob_events ob) \<noteq> None)"

section \<open>Amount and due date\<close>

definition find_rent :: "'h obligations \<Rightarrow> string \<Rightarrow> rent_policy option" where
  "find_rent ob uuid = List.find (\<lambda>r. rp_uuid r = uuid) (ob_rents ob)"

definition get_insurance_definition :: "'h obligations \<Rightarrow> string \<Rightarrow> class_id \<Rightarrow> insurance_policy option" where
  "get_insurance_definition ob uuid c = List.find (\<lambda>p. ip_uuid p = uuid \<and> ip_class p = c) (ob_insurance ob)"

definition get_rent_settings :: "'h obligations \<Rightarrow> class_id \<Rightarrow> rent_policy option" where
  "get_rent_settings ob c =
     first_row (newest_first (\<lambda>r. (rp_configured r, rp_id r)) (filter (\<lambda>r. rp_class r = c \<and> rp_in_use r) (ob_rents ob)))"

definition resolve_assessment_amount :: "'h obligations \<Rightarrow> obl_event \<Rightarrow> int" where
  "resolve_assessment_amount ob e =
     (case str_or (oe_policy e) [] of [] \<Rightarrow> 0
      | p # ps \<Rightarrow> (let uuid = p # ps in
          if oe_type e = ''RENT'' then (case find_rent ob uuid of None \<Rightarrow> 0
            | Some r \<Rightarrow> (case rp_amount r of None \<Rightarrow> 0 | Some a \<Rightarrow> a))
          else if oe_type e = ''LATE_FEE'' then (case find_rent ob uuid of None \<Rightarrow> 0
            | Some r \<Rightarrow> (case rp_penalty r of None \<Rightarrow> 0 | Some a \<Rightarrow> a))
          else if oe_type e = ''INSURANCE_PREMIUM'' then (case get_insurance_definition ob uuid (oe_class e) of None \<Rightarrow> 0
            | Some p \<Rightarrow> ip_premium p)
          else 0))"

definition find_cycle :: "'h obligations \<Rightarrow> nat option \<Rightarrow> bill_cycle option" where
  "find_cycle ob i = (case i of None \<Rightarrow> None | Some k \<Rightarrow> List.find (\<lambda>b. bc_id b = k) (ob_cycles ob))"

definition resolve_assessment_due_at :: "'h obligations \<Rightarrow> obl_event \<Rightarrow> int" where
  "resolve_assessment_due_at ob e = (case find_cycle ob (oe_cycle e) of Some b \<Rightarrow> bc_boundary b | None \<Rightarrow> oe_time e)"

section \<open>The derived state\<close>

datatype obligation_status = OUTSTANDING | SATISFIED | WITHDRAWN_STATUS

record obligation_state =
  os_corr :: string
  os_class :: class_id
  os_seat :: seat_id
  os_type :: string
  os_ref :: string
  os_cycle :: "nat option"
  os_assessed :: int
  os_satisfied :: int
  os_remaining :: int
  os_waived :: bool
  os_withdrawn :: bool
  os_status :: obligation_status
  os_due :: int

definition recorded_by :: "time_env \<Rightarrow> class_id \<Rightarrow> int option \<Rightarrow> int \<Rightarrow> obl_error + bool" where
  "recorded_by env c cutoff t = (case cutoff of None \<Rightarrow> Inr True
     | Some k \<Rightarrow> rbind (obl_later_than env c t k) (\<lambda>later. Inr (\<not> later)))"

fun apply_satisfactions :: "time_env \<Rightarrow> tx list \<Rightarrow> class_id \<Rightarrow> int option \<Rightarrow> obl_event list \<Rightarrow> int \<times> bool \<Rightarrow> obl_error + (int \<times> bool)" where
  "apply_satisfactions env ts c cutoff [] acc = Inr acc"
| "apply_satisfactions env ts c cutoff (e # es) (paid, waived) =
     rbind (recorded_by env c cutoff (oe_time e)) (\<lambda>counts.
       apply_satisfactions env ts c cutoff es
         (if \<not> counts then (paid, waived)
          else if oe_kind e = PAYMENT then (paid + payment_event_magnitude ts e, waived)
          else (paid, waived \<or> oe_kind e = WAIVED)))"

definition get_obligation_state :: "time_env \<Rightarrow> tx list \<Rightarrow> 'h obligations \<Rightarrow> string \<Rightarrow> int option \<Rightarrow> obl_error + obligation_state option" where
  "get_obligation_state env ts ob corr cutoff =
     (case get_assessment_for_correlation ob corr of None \<Rightarrow> Inr None
      | Some a \<Rightarrow>
        rbind (apply_satisfactions env ts (oe_class a) cutoff (get_satisfaction_events ob corr) (0, False)) (\<lambda>(paid, waived).
        rbind (case get_withdrawal_event ob corr of None \<Rightarrow> Inr False
               | Some w \<Rightarrow> recorded_by env (oe_class a) cutoff (oe_time w)) (\<lambda>withdrawn.
          let assessed = resolve_assessment_amount ob a;
              status = (if withdrawn then WITHDRAWN_STATUS else if waived \<or> assessed \<le> paid then SATISFIED else OUTSTANDING)
          in Inr (Some \<lparr>os_corr = corr, os_class = oe_class a, os_seat = oe_seat a, os_type = oe_type a, os_ref = oe_ref a,
               os_cycle = oe_cycle a, os_assessed = assessed, os_satisfied = paid,
               os_remaining = (if status = OUTSTANDING then assessed - paid else 0),
               os_waived = waived, os_withdrawn = withdrawn, os_status = status,
               os_due = resolve_assessment_due_at ob a\<rparr>))))"

definition is_obligation_past_due :: "time_env \<Rightarrow> obligation_state \<Rightarrow> int option \<Rightarrow> obl_error + bool" where
  "is_obligation_past_due env os reference =
     (if os_status os \<noteq> OUTSTANDING then Inr False
      else rbind (class_now env (os_class os) reference) (\<lambda>now. obl_later_than env (os_class os) now (os_due os)))"

section \<open>Bill cycles\<close>

definition get_bill_cycles_for_internal_ref :: "'h obligations \<Rightarrow> string \<Rightarrow> bill_cycle list" where
  "get_bill_cycles_for_internal_ref ob ref = sort_key bc_number (filter (\<lambda>b. bc_ref b = ref) (ob_cycles ob))"

definition get_latest_bill_cycle :: "'h obligations \<Rightarrow> string \<Rightarrow> bill_cycle option" where
  "get_latest_bill_cycle ob ref = first_row (newest_first bc_number (filter (\<lambda>b. bc_ref b = ref) (ob_cycles ob)))"

definition class_cycles :: "'h obligations \<Rightarrow> class_id \<Rightarrow> string \<Rightarrow> bill_cycle list" where
  "class_cycles ob c ref = filter (\<lambda>b. bc_class b = c \<and> bc_ref b = ref) (ob_cycles ob)"

definition cycle_assessments :: "'h obligations \<Rightarrow> bill_cycle \<Rightarrow> obl_event list" where
  "cycle_assessments ob b = filter (\<lambda>e. oe_cycle e = Some (bc_id b) \<and> oe_kind e = ASSESSMENT) (ob_events ob)"

definition is_cycle_committed :: "'h obligations \<Rightarrow> bill_cycle \<Rightarrow> bool" where
  "is_cycle_committed ob b = (\<exists>a \<in> set (cycle_assessments ob b). get_satisfaction_events ob (oe_corr a) \<noteq> [])"

definition get_termination_instant :: "'h obligations \<Rightarrow> class_id \<Rightarrow> string \<Rightarrow> int option" where
  "get_termination_instant ob c ref = map_option bc_boundary
     (first_row (newest_first bc_number (filter (\<lambda>b. bc_next b = None) (class_cycles ob c ref))))"

fun first_containing :: "time_env \<Rightarrow> class_id \<Rightarrow> int \<Rightarrow> bill_cycle list \<Rightarrow> obl_error + bill_cycle option" where
  "first_containing env c t [] = Inr None"
| "first_containing env c t (b # bs) =
     (case bc_next b of None \<Rightarrow> first_containing env c t bs
      | Some e \<Rightarrow> rbind (class_between env c t (bc_boundary b) e) (\<lambda>hit.
          if hit then Inr (Some b) else first_containing env c t bs))"

definition get_current_bill_cycle :: "time_env \<Rightarrow> 'h obligations \<Rightarrow> class_id \<Rightarrow> string \<Rightarrow> int option \<Rightarrow> obl_error + bill_cycle option" where
  "get_current_bill_cycle env ob c ref reference =
     rbind (class_now env c reference) (\<lambda>now.
     rbind (case get_termination_instant ob c ref of None \<Rightarrow> Inr False
            | Some i \<Rightarrow> rbind (obl_later_than env c i now) (\<lambda>later. Inr (\<not> later))) (\<lambda>ended.
       if ended then Inr None
       else first_containing env c now (sort_key bc_number (filter (\<lambda>b. bc_next b \<noteq> None) (class_cycles ob c ref)))))"

definition get_stop_renewal_instant :: "time_env \<Rightarrow> 'h obligations \<Rightarrow> class_id \<Rightarrow> string \<Rightarrow> int option \<Rightarrow> obl_error + int option" where
  "get_stop_renewal_instant env ob c ref reference =
     (case get_latest_bill_cycle ob ref of None \<Rightarrow> Inr None
      | Some latest \<Rightarrow>
        if bc_class latest \<noteq> c \<or> bc_next latest = None then Inr None
        else rbind (get_current_bill_cycle env ob c ref reference) (\<lambda>current.
          case current of None \<Rightarrow> Inr (bc_next latest)
          | Some b \<Rightarrow> Inr (if bc_id latest = bc_id b \<or> is_cycle_committed ob latest then bc_next latest else bc_next b)))"

section \<open>When a successor is assessed\<close>

text \<open>\<^verbatim>\<open>policy_reference_service.get_bill_preview_days\<close>: rent first, then insurance.\<close>

definition get_bill_preview_days :: "'h obligations \<Rightarrow> string \<Rightarrow> class_id \<Rightarrow> obl_error + int" where
  "get_bill_preview_days ob uuid c =
     (case List.find (\<lambda>r. rp_uuid r = uuid \<and> rp_class r = c) (ob_rents ob) of
        Some r \<Rightarrow> Inr (if \<not> rp_preview_enabled r then 0 else max 0 (case rp_preview_days r of None \<Rightarrow> 0 | Some d \<Rightarrow> d))
      | None \<Rightarrow> (case get_insurance_definition ob uuid c of
          Some p \<Rightarrow> Inr (max 0 (case ip_preview_days p of None \<Rightarrow> 0 | Some d \<Rightarrow> d))
        | None \<Rightarrow> Inl (OblLookup ''no such policy version in the class'')))"

definition start_of_class_day_before :: "time_env \<Rightarrow> class_id \<Rightarrow> int \<Rightarrow> int \<Rightarrow> obl_error + int" where
  "start_of_class_day_before env c instant days =
     obl_time (rbind (day_bounds env c instant) (\<lambda>(day_start, _).
       rbind (shift_seconds env c day_start (12 * 3600 - days * 24 * 3600)) (\<lambda>midday.
       rbind (day_bounds env c midday) (\<lambda>(s, _). Inr s))))"

definition get_assessment_point :: "time_env \<Rightarrow> 'h obligations \<Rightarrow> bill_cycle \<Rightarrow> obl_error + int option" where
  "get_assessment_point env ob b =
     (case bc_next b of None \<Rightarrow> Inr None
      | Some nxt \<Rightarrow>
        (let preview = (case str_or (bc_policy b) [] of [] \<Rightarrow> 0
           | p # ps \<Rightarrow> (case get_bill_preview_days ob (p # ps) (bc_class b) of Inl e \<Rightarrow> 0 | Inr d \<Rightarrow> d))
         in if preview \<le> 0 then Inr (Some nxt)
            else rbind (start_of_class_day_before env (bc_class b) nxt preview) (\<lambda>t. Inr (Some t))))"

datatype eligibility = EMPTY | DUE | NOT_DUE | TERMINAL

definition get_succession_eligibility ::
    "time_env \<Rightarrow> 'h obligations \<Rightarrow> class_id \<Rightarrow> string \<Rightarrow> int option \<Rightarrow> obl_error + (eligibility \<times> bill_cycle option)" where
  "get_succession_eligibility env ob c ref reference =
     (case first_row (newest_first bc_number (class_cycles ob c ref)) of
        None \<Rightarrow> Inr (EMPTY, None)
      | Some latest \<Rightarrow>
        if bc_next latest = None then Inr (TERMINAL, Some latest)
        else rbind (class_now env c reference) (\<lambda>now.
          rbind (get_assessment_point env ob latest) (\<lambda>point.
          case point of None \<Rightarrow> Inl OblAttribute
          | Some p \<Rightarrow> rbind (obl_later_than env c p now) (\<lambda>not_yet.
              Inr (if not_yet then NOT_DUE else DUE, Some latest)))))"

text \<open>The class-local day of the last instant before an exclusive end.\<close>

definition last_class_day_before :: "time_env \<Rightarrow> class_id \<Rightarrow> int \<Rightarrow> obl_error + date" where
  "last_class_day_before env c end_exclusive =
     obl_time (rbind (shift_seconds env c end_exclusive (-1)) (evaluation_day env c))"

section \<open>Reads over several obligations\<close>

fun required_satisfied :: "time_env \<Rightarrow> tx list \<Rightarrow> 'h obligations \<Rightarrow> class_id \<Rightarrow> int \<Rightarrow> obl_event list \<Rightarrow> obl_error + bool" where
  "required_satisfied env ts ob c now [] = Inr True"
| "required_satisfied env ts ob c now (a # as) =
     rbind (get_obligation_state env ts ob (oe_corr a) (Some now)) (\<lambda>state.
       case state of None \<Rightarrow> required_satisfied env ts ob c now as
       | Some os \<Rightarrow>
         if os_withdrawn os then required_satisfied env ts ob c now as
         else rbind (obl_later_than env c (os_due os) now) (\<lambda>not_due.
           if not_due then required_satisfied env ts ob c now as
           else if os_status os \<noteq> SATISFIED then Inr False
           else required_satisfied env ts ob c now as))"

definition are_required_obligations_satisfied ::
    "time_env \<Rightarrow> tx list \<Rightarrow> 'h obligations \<Rightarrow> class_id \<Rightarrow> string \<Rightarrow> int option \<Rightarrow> obl_error + bool" where
  "are_required_obligations_satisfied env ts ob c ref reference =
     rbind (class_now env c reference) (\<lambda>now.
       let ids = map bc_id (class_cycles ob c ref) in
       if ids = [] then Inr True
       else required_satisfied env ts ob c now
         (filter (\<lambda>e. oe_class e = c \<and> oe_cycle e \<in> Some ` set ids \<and> oe_kind e = ASSESSMENT) (ob_events ob)))"

definition get_seat_current_period_state ::
    "time_env \<Rightarrow> tx list \<Rightarrow> 'h obligations \<Rightarrow> class_id \<Rightarrow> string \<Rightarrow> seat_id \<Rightarrow> int option \<Rightarrow> obl_error + obligation_state option" where
  "get_seat_current_period_state env ts ob c ref s reference =
     rbind (get_current_bill_cycle env ob c ref reference) (\<lambda>current.
       case current of None \<Rightarrow> Inr None
       | Some b \<Rightarrow> (case first_row (sort_key oe_id (filter (\<lambda>e. oe_class e = c \<and> oe_cycle e = Some (bc_id b)
             \<and> oe_seat e = s \<and> oe_kind e = ASSESSMENT) (ob_events ob))) of
           None \<Rightarrow> Inr None
         | Some a \<Rightarrow> get_obligation_state env ts ob (oe_corr a) None))"

fun any_surviving :: "time_env \<Rightarrow> tx list \<Rightarrow> 'h obligations \<Rightarrow> class_id \<Rightarrow> int \<Rightarrow> obl_event list \<Rightarrow> obl_error + bool" where
  "any_surviving env ts ob c now [] = Inr False"
| "any_surviving env ts ob c now (a # as) =
     rbind (get_obligation_state env ts ob (oe_corr a) None) (\<lambda>state.
       case state of None \<Rightarrow> any_surviving env ts ob c now as
       | Some os \<Rightarrow>
         if os_withdrawn os then any_surviving env ts ob c now as
         else if os_status os = OUTSTANDING then Inr True
         else (case Option.bind (find_cycle ob (oe_cycle a)) bc_next of
             None \<Rightarrow> any_surviving env ts ob c now as
           | Some nxt \<Rightarrow> rbind (obl_later_than env c nxt now) (\<lambda>ahead.
               if ahead then Inr True else any_surviving env ts ob c now as)))"

definition seat_has_surviving_obligations ::
    "time_env \<Rightarrow> tx list \<Rightarrow> 'h obligations \<Rightarrow> class_id \<Rightarrow> seat_id \<Rightarrow> string list \<Rightarrow> int option \<Rightarrow> obl_error + bool" where
  "seat_has_surviving_obligations env ts ob c s types reference =
     rbind (class_now env c reference) (\<lambda>now. any_surviving env ts ob c now
       (filter (\<lambda>e. oe_class e = c \<and> oe_seat e = s \<and> oe_kind e = ASSESSMENT \<and> oe_type e \<in> set types) (ob_events ob)))"

definition get_default_payment_target ::
    "time_env \<Rightarrow> tx list \<Rightarrow> 'h obligations \<Rightarrow> class_id \<Rightarrow> string \<Rightarrow> obl_error + obligation_state option" where
  "get_default_payment_target env ts ob c ref =
     rbind (rmapM (\<lambda>a. get_obligation_state env ts ob (oe_corr a) None)
         (filter (\<lambda>e. oe_class e = c \<and> oe_ref e = ref \<and> oe_kind e = ASSESSMENT) (ob_events ob))) (\<lambda>states.
       Inr (first_row (sort_key (\<lambda>os. (os_due os, os_corr os))
         (filter (\<lambda>os. os_status os = OUTSTANDING) (List.map_filter (\<lambda>x. x) states)))))"

definition get_obligation_command_reservation :: "'h obligations \<Rightarrow> class_id \<Rightarrow> string \<Rightarrow> string \<Rightarrow> 'h obl_command option" where
  "get_obligation_command_reservation ob c command key =
     List.find (\<lambda>r. oc_class r = c \<and> oc_name r = command \<and> oc_key r = key) (ob_commands ob)"

definition get_assessments_for_bill_cycle :: "'h obligations \<Rightarrow> nat \<Rightarrow> string option \<Rightarrow> obl_event list" where
  "get_assessments_for_bill_cycle ob i type =
     sort_key oe_time (filter (\<lambda>e. oe_cycle e = Some i \<and> oe_kind e = ASSESSMENT
       \<and> (str_or type [] = [] \<or> Some (oe_type e) = type)) (ob_events ob))"

definition non_obligation_assessment_types :: "string set" where
  "non_obligation_assessment_types = {''NSF_FEE''}"

definition obligation_related_transaction_ids :: "'h obligations \<Rightarrow> nat option list \<Rightarrow> nat set" where
  "obligation_related_transaction_ids ob ids =
     set (List.map_filter (\<lambda>e. if oe_type e \<in> non_obligation_assessment_types \<or> oe_tx e = None \<or> oe_tx e \<notin> set ids
       then None else oe_tx e) (ob_events ob))"

definition is_obligation_related_transaction :: "'h obligations \<Rightarrow> nat option \<Rightarrow> bool" where
  "is_obligation_related_transaction ob tx = (tx \<noteq> None \<and> obligation_related_transaction_ids ob [tx] \<noteq> {})"

definition get_payment_events_for_assessment :: "'h obligations \<Rightarrow> nat \<Rightarrow> class_id \<Rightarrow> obl_event list" where
  "get_payment_events_for_assessment ob i c =
     (case List.find (\<lambda>e. oe_id e = i) (ob_events ob) of None \<Rightarrow> []
      | Some a \<Rightarrow> sort_key oe_time (filter (\<lambda>e. oe_corr e = oe_corr a \<and> oe_class e = c \<and> oe_kind e = PAYMENT) (ob_events ob)))"

definition get_waived_seats_for_bill_cycle :: "'h obligations \<Rightarrow> nat \<Rightarrow> seat_id set" where
  "get_waived_seats_for_bill_cycle ob i = oe_seat ` set (filter (\<lambda>e. oe_cycle e = Some i \<and> oe_kind e = WAIVED) (ob_events ob))"

definition get_rent_payment_history :: "'h obligations \<Rightarrow> seat_id \<Rightarrow> class_id \<Rightarrow> nat \<Rightarrow> obl_event list" where
  "get_rent_payment_history ob s c limit =
     take limit (newest_first oe_time (filter (\<lambda>e. oe_seat e = s \<and> oe_class e = c \<and> oe_type e = ''RENT'') (ob_events ob)))"

definition get_rent_waivers_for_seat :: "'h obligations \<Rightarrow> seat_id \<Rightarrow> class_id \<Rightarrow> obl_event list" where
  "get_rent_waivers_for_seat ob s c =
     newest_first oe_time (filter (\<lambda>e. oe_seat e = s \<and> oe_class e = c \<and> oe_type e = ''RENT'' \<and> oe_kind e = WAIVED) (ob_events ob))"

record waiver_row =
  wv_id :: nat
  wv_corr :: string
  wv_seat :: seat_id
  wv_at :: int
  wv_start :: "int option"
  wv_end :: "int option"
  wv_notes :: "string option"

definition get_rent_waiver_history_for_class :: "'h obligations \<Rightarrow> class_id \<Rightarrow> nat \<Rightarrow> waiver_row list" where
  "get_rent_waiver_history_for_class ob c limit =
     map (\<lambda>w. \<lparr>wv_id = oe_id w, wv_corr = oe_corr w, wv_seat = oe_seat w, wv_at = oe_time w,
         wv_start = map_option bc_boundary (find_cycle ob (oe_cycle w)),
         wv_end = Option.bind (find_cycle ob (oe_cycle w)) bc_next, wv_notes = oe_notes w\<rparr>)
       (take limit (newest_first oe_time
         (filter (\<lambda>e. oe_class e = c \<and> oe_type e = ''RENT'' \<and> oe_kind e = WAIVED) (ob_events ob))))"

section \<open>What Interpretation reads\<close>

definition get_seat_ids_with_self_payments :: "tx list \<Rightarrow> 'h obligations \<Rightarrow> class_id \<Rightarrow> int option \<Rightarrow> int option \<Rightarrow> seat_id set" where
  "get_seat_ids_with_self_payments ts ob c start stop =
     (case (start, stop) of
        (Some s, Some e) \<Rightarrow> if c = [] then {} else
          oe_seat ` set (filter (\<lambda>ev. oe_class ev = c \<and> oe_kind ev = PAYMENT \<and> s \<le> oe_time ev \<and> oe_time ev < e
            \<and> (\<exists>t \<in> set ts. oe_tx ev = Some (tx_id t) \<and> tx_mechanism t = ''self'')) (ob_events ob))
      | _ \<Rightarrow> {})"

record obligation_event_row =
  or_corr :: string
  or_type :: string
  or_kind :: event_kind
  or_time :: int
  or_tx :: "nat option"
  or_ledger :: "int option"
  or_assessed :: "int option"

definition get_obligation_events_for_window ::
    "tx list \<Rightarrow> 'h obligations \<Rightarrow> class_id \<Rightarrow> int option \<Rightarrow> int option \<Rightarrow> obligation_event_row list" where
  "get_obligation_events_for_window ts ob c start stop =
     (case (start, stop) of
        (Some s, Some e) \<Rightarrow> if c = [] then [] else
          (let evs = filter (\<lambda>ev. oe_class ev = c) (ob_events ob);
               withdrawn = map oe_corr (filter (\<lambda>ev. oe_kind ev = WITHDRAWN \<and> oe_time ev < e) evs);
               owed = filter (\<lambda>ev. oe_kind ev = ASSESSMENT \<and> s \<le> oe_time ev \<and> oe_time ev < e
                        \<and> oe_corr ev \<notin> set withdrawn) evs;
               settled = filter (\<lambda>ev. oe_corr ev \<in> set (map oe_corr owed) \<and> oe_kind ev \<in> {PAYMENT, WAIVED} \<and> oe_time ev < e) evs
           in map (\<lambda>a. \<lparr>or_corr = oe_corr a, or_type = oe_type a, or_kind = ASSESSMENT, or_time = oe_time a, or_tx = None,
                    or_ledger = None, or_assessed = Some (resolve_assessment_amount ob a)\<rparr>) owed
            @ map (\<lambda>ev. \<lparr>or_corr = oe_corr ev, or_type = oe_type ev, or_kind = oe_kind ev, or_time = oe_time ev, or_tx = oe_tx ev,
                    or_ledger = (if oe_kind ev = PAYMENT then map_option (\<lambda>t. \<bar>tx_cents t\<bar>)
                      (Option.bind (oe_tx ev) (\<lambda>i. List.find (\<lambda>t. tx_id t = i) ts)) else None),
                    or_assessed = None\<rparr>) settled)
      | _ \<Rightarrow> [])"

end
