(* ===== verification/Bill_Cycles.thy ===== *)
theory Bill_Cycles
  imports Obligations
begin

text \<open>
  The writers of the Obligations domain: \<^verbatim>\<open>assess_obligation_feat.py\<close>, \<^verbatim>\<open>satisfy_obligation_feat.py\<close>,
  \<^verbatim>\<open>withdraw_obligation_feat.py\<close>, \<^verbatim>\<open>schedule_next_bill_cycle_feat.py\<close> and \<^verbatim>\<open>terminate_bill_cycle_feat.py\<close> of
  \<^verbatim>\<open>app/feats/\<close>. As for the Ledger, an exception discards the state, \<open>race\<close> is what other sessions commit
  between this session's reads and its insert (a termination is raced before each of its inserts), a stored fingerprint is compared through the parameter \<open>digest\<close>, and
  \<open>now\<close> is the timestamp the row is created with.
\<close>

section \<open>Assessment\<close>

record assessment_request =
  aq_seat :: seat_id
  aq_class :: class_id
  aq_ref :: string
  aq_corr :: string
  aq_type :: string
  aq_policy :: "string option"
  aq_cycle :: "nat option"
  aq_source :: "string option"

definition next_event_row_id :: "'h obligations \<Rightarrow> nat" where
  "next_event_row_id ob = Suc (foldr max (map oe_id (ob_events ob)) 0)"

definition find_assessment :: "'h obligations \<Rightarrow> string \<Rightarrow> string \<Rightarrow> obl_event option" where
  "find_assessment ob ref corr =
     List.find (\<lambda>e. oe_ref e = ref \<and> oe_corr e = corr \<and> oe_kind e = ASSESSMENT) (ob_events ob)"

definition append_event :: "obl_event \<Rightarrow> 'h obligations \<Rightarrow> 'h obligations" where
  "append_event e ob = ob\<lparr>ob_events := ob_events ob @ [e]\<rparr>"

definition assessment_row :: "int \<Rightarrow> assessment_request \<Rightarrow> 'h obligations \<Rightarrow> obl_event" where
  "assessment_row now q ob = \<lparr>oe_id = next_event_row_id ob, oe_seat = aq_seat q, oe_class = aq_class q, oe_ref = aq_ref q,
     oe_corr = aq_corr q, oe_source = aq_source q, oe_kind = ASSESSMENT, oe_type = aq_type q, oe_policy = aq_policy q,
     oe_time = now, oe_cycle = aq_cycle q, oe_tx = None, oe_notes = None\<rparr>"

definition assess_obligation ::
    "('h obligations \<Rightarrow> 'h obligations) \<Rightarrow> int \<Rightarrow> assessment_request \<Rightarrow> 'h obligations \<Rightarrow> obl_error + (obl_event \<times> 'h obligations)" where
  "assess_obligation race now q ob =
     rbind (rguard (aq_seat q \<noteq> 0 \<and> aq_class q \<noteq> []) (OblValue ''seat_id and class_id are required'')) (\<lambda>_.
     rbind (rguard (aq_ref q \<noteq> [] \<and> aq_corr q \<noteq> []) (OblValue ''internal_ref and correlation_id are required'')) (\<lambda>_.
     rbind (rguard (aq_type q \<noteq> []) (OblValue ''obligation_type is required'')) (\<lambda>_.
       if check_idempotency_assessment ob (aq_ref q) (aq_corr q)
       then (case get_assessment_for_correlation ob (aq_corr q) of None \<Rightarrow> Inl OblAttribute | Some e \<Rightarrow> Inr (e, ob))
       else (let ob1 = race ob in
         case find_assessment ob1 (aq_ref q) (aq_corr q) of
           Some e \<Rightarrow> Inr (e, ob1)
         | None \<Rightarrow> (let e = assessment_row now q ob1 in Inr (e, append_event e ob1))))))"

section \<open>Satisfaction\<close>

record satisfy_request =
  sq_corr :: string
  sq_class :: class_id
  sq_seat :: seat_id
  sq_payment :: bool    \<comment> \<open>method: PAYMENT, or else WAIVED\<close>
  sq_tx :: "nat option"
  sq_notes :: "string option"

definition clean_notes :: "string option \<Rightarrow> string option" where
  "clean_notes notes = (let s = str_strip (str_or notes []) in if s = [] then None else Some s)"

text \<open>
  The row a satisfaction or a withdrawal adds to its assessment's lineage. Neither command locks, and no constraint of the
  table covers these rows, so both insert on whatever other sessions committed after the reads.
\<close>

definition lineage_row :: "int \<Rightarrow> event_kind \<Rightarrow> nat option \<Rightarrow> string option \<Rightarrow> obl_event \<Rightarrow> 'h obligations \<Rightarrow> obl_event" where
  "lineage_row now k tx notes a ob = \<lparr>oe_id = next_event_row_id ob, oe_seat = oe_seat a, oe_class = oe_class a,
     oe_ref = oe_ref a, oe_corr = oe_corr a, oe_source = None, oe_kind = k, oe_type = oe_type a, oe_policy = None,
     oe_time = now, oe_cycle = oe_cycle a, oe_tx = tx, oe_notes = clean_notes notes\<rparr>"

definition satisfy_obligation ::
    "('h obligations \<Rightarrow> 'h obligations) \<Rightarrow> int \<Rightarrow> satisfy_request \<Rightarrow> 'h obligations \<Rightarrow> obl_error + (obl_event \<times> 'h obligations)" where
  "satisfy_obligation race now q ob =
     (case get_assessment_for_correlation ob (sq_corr q) of
        None \<Rightarrow> Inl (OblValue ''Assessment not found for correlation'')
      | Some a \<Rightarrow>
        rbind (rguard (oe_class a = sq_class q \<and> oe_seat a = sq_seat q) (OblValue ''Assessment scope mismatch'')) (\<lambda>_.
        rbind (rguard (get_withdrawal_event ob (sq_corr q) = None)
                 (OblValue ''Assessment was withdrawn and cannot be satisfied'')) (\<lambda>_.
        rbind (rguard (sq_payment q \<or> oe_type a = ''RENT'') (OblValue ''WAIVED is only lawful for RENT'')) (\<lambda>_.
        rbind (rguard (\<not> sq_payment q \<or> (case sq_tx q of None \<Rightarrow> False | Some i \<Rightarrow> i \<noteq> 0))
                 (OblValue ''PAYMENT method requires ledger_transaction_id'')) (\<lambda>_.
          case (if sq_payment q then get_payment_event_by_ledger ob (sq_tx q)
                else List.find (\<lambda>e. oe_corr e = sq_corr q \<and> oe_kind e = WAIVED) (ob_events ob)) of
            Some e \<Rightarrow> Inr (e, ob)
          | None \<Rightarrow>
            (let ob1 = race ob;
                 e = lineage_row now (if sq_payment q then PAYMENT else WAIVED) (if sq_payment q then sq_tx q else None)
                       (sq_notes q) a ob1
             in Inr (e, append_event e ob1)))))))"

section \<open>Withdrawal\<close>

definition withdraw_assessment ::
    "time_env \<Rightarrow> ('h obligations \<Rightarrow> 'h obligations) \<Rightarrow> int \<Rightarrow> class_id \<Rightarrow> string \<Rightarrow> int option \<Rightarrow> string option \<Rightarrow> 'h obligations
       \<Rightarrow> obl_error + (obl_event \<times> 'h obligations)" where
  "withdraw_assessment env race now c corr reference notes ob =
     (case get_assessment_for_correlation ob corr of
        None \<Rightarrow> Inl (ObligationNotWithdrawable ''no assessment in class'')
      | Some a \<Rightarrow>
        if oe_class a \<noteq> c then Inl (ObligationNotWithdrawable ''no assessment in class'')
        else (case get_withdrawal_event ob corr of
          Some w \<Rightarrow> Inr (w, ob)
        | None \<Rightarrow> (case find_cycle ob (oe_cycle a) of
            None \<Rightarrow> Inl (ObligationNotWithdrawable ''not bound to a scheduled period'')
          | Some b \<Rightarrow>
            rbind (class_now env c reference) (\<lambda>cancelling.
            rbind (obl_later_than env c cancelling (bc_boundary b)) (\<lambda>begun.
              if begun then Inl (ObligationNotWithdrawable ''its period began'')
              else if get_satisfaction_events ob corr \<noteq> []
                then Inl (ObligationNotWithdrawable ''has a recorded satisfaction; its period is committed'')
              else (let ob1 = race ob; e = lineage_row now WITHDRAWN None notes a ob1 in Inr (e, append_event e ob1)))))))"

section \<open>Succession\<close>

record succession_terms =
  tm_ref :: string
  tm_policy :: "string option"
  tm_version :: "string option"
  tm_boundary :: "int option"
  tm_next :: "int option"
  tm_grace :: "int option"

record succession_request =
  cq_class :: class_id
  cq_terms :: succession_terms
  cq_key :: string
  cq_reference :: "int option"

definition succession_name :: string where "succession_name = ''schedule_next_bill_cycle''"
definition succession_version :: int where "succession_version = 1"
definition supported_succession_versions :: "int set" where "supported_succession_versions = {1}"
definition max_succession_key :: nat where "max_succession_key = 255"

text \<open>Cases 1 and 2 of a known command identity: the same terms replay, other terms are refused.\<close>

definition replay_succession ::
    "(succession_terms \<Rightarrow> 'h) \<Rightarrow> 'h obl_command \<Rightarrow> succession_request \<Rightarrow> 'h obligations \<Rightarrow> obl_error + (bill_cycle \<times> 'h obligations)" where
  "replay_succession digest r q ob =
     (if oc_version r \<notin> supported_succession_versions \<or> oc_fingerprint r \<noteq> digest (cq_terms q)
      then Inl SuccessionReplayMismatch
      else (case find_cycle ob (Some (oc_cycle r)) of None \<Rightarrow> Inl OblAttribute | Some b \<Rightarrow> Inr (b, ob)))"

definition validate_identity :: "succession_request \<Rightarrow> obl_error + unit" where
  "validate_identity q =
     rbind (rguard (cq_class q \<noteq> [] \<and> tm_ref (cq_terms q) \<noteq> []) (OblValue ''requires class_id and internal_ref.'')) (\<lambda>_.
     rbind (rguard (str_strip (cq_key q) \<noteq> []) (OblValue ''requires a non-empty idempotency_key (command identity).'')) (\<lambda>_.
     rguard (length (cq_key q) \<le> max_succession_key) (OblValue ''idempotency_key exceeds 255 characters.'')))"

definition next_cycle_id :: "'h obligations \<Rightarrow> nat" where
  "next_cycle_id ob = Suc (foldr max (map bc_id (ob_cycles ob)) 0)"

definition cycle_taken :: "'h obligations \<Rightarrow> string \<Rightarrow> int \<Rightarrow> bool" where
  "cycle_taken ob ref n = (\<exists>b \<in> set (ob_cycles ob). bc_ref b = ref \<and> bc_number b = n)"

definition append_cycle :: "bill_cycle \<Rightarrow> 'h obl_command list \<Rightarrow> 'h obligations \<Rightarrow> 'h obligations" where
  "append_cycle b rs ob = ob\<lparr>ob_cycles := ob_cycles ob @ [b], ob_commands := ob_commands ob @ rs\<rparr>"

text \<open>
  The nested insert of the cycle and its reservation, on the state other sessions left. A broken uniqueness
  constraint is settled by the identity first, then by who holds the derived position.
\<close>

definition insert_successor ::
    "(succession_terms \<Rightarrow> 'h) \<Rightarrow> succession_request \<Rightarrow> int \<Rightarrow> int \<Rightarrow> int \<Rightarrow> 'h obligations \<Rightarrow> obl_error + (bill_cycle \<times> 'h obligations)" where
  "insert_successor digest q boundary nxt number ob =
     (let c = cq_class q; tm = cq_terms q; held = get_obligation_command_reservation ob c succession_name (cq_key q) in
      if cycle_taken ob (tm_ref tm) number \<or> held \<noteq> None then
        (case held of Some r \<Rightarrow> replay_succession digest r q ob
         | None \<Rightarrow> if cycle_taken ob (tm_ref tm) number then Inl SuccessionConflict else Inl OblIntegrity)
      else (let b = \<lparr>bc_id = next_cycle_id ob, bc_class = c, bc_ref = tm_ref tm, bc_number = number, bc_policy = tm_policy tm,
                     bc_version = tm_version tm, bc_boundary = boundary, bc_next = Some nxt, bc_grace = tm_grace tm\<rparr>;
                r = \<lparr>oc_class = c, oc_name = succession_name, oc_key = cq_key q, oc_ref = tm_ref tm,
                     oc_fingerprint = digest tm, oc_version = succession_version, oc_cycle = bc_id b\<rparr>
            in Inr (b, append_cycle b [r] ob)))"

definition schedule_next_bill_cycle ::
    "time_env \<Rightarrow> (succession_terms \<Rightarrow> 'h) \<Rightarrow> ('h obligations \<Rightarrow> 'h obligations) \<Rightarrow> succession_request \<Rightarrow> 'h obligations
       \<Rightarrow> obl_error + (bill_cycle \<times> 'h obligations)" where
  "schedule_next_bill_cycle env digest race q ob =
     rbind (validate_identity q) (\<lambda>_.
     case get_obligation_command_reservation ob (cq_class q) succession_name (cq_key q) of
       Some r \<Rightarrow> replay_succession digest r q ob
     | None \<Rightarrow>
       rbind (class_now env (cq_class q) (cq_reference q)) (\<lambda>now.
       case (tm_boundary (cq_terms q), tm_next (cq_terms q)) of
         (Some boundary, Some nxt) \<Rightarrow>
           rbind (obl_later_than env (cq_class q) nxt boundary) (\<lambda>ordered.
           rbind (rguard ordered (OblValue ''next_assessment_at must be strictly after cycle_boundary_at'')) (\<lambda>_.
           rbind (get_succession_eligibility env ob (cq_class q) (tm_ref (cq_terms q)) (Some now)) (\<lambda>(el, latest).
             if el = TERMINAL then Inl SuccessionAfterTerminal
             else if el = NOT_DUE then Inl SuccessionNotDue
             else insert_successor digest q boundary nxt
                    (case latest of None \<Rightarrow> 1 | Some b \<Rightarrow> bc_number b + 1) (race ob))))
       | _ \<Rightarrow> Inl (OblValue ''requires cycle_boundary_at and next_assessment_at.'')))"

section \<open>Termination\<close>

fun withdraw_untouched ::
    "time_env \<Rightarrow> ('h obligations \<Rightarrow> 'h obligations) \<Rightarrow> int \<Rightarrow> class_id \<Rightarrow> int option \<Rightarrow> obl_event list \<Rightarrow> 'h obligations
       \<Rightarrow> obl_error + 'h obligations" where
  "withdraw_untouched env race now c reference [] ob = Inr ob"
| "withdraw_untouched env race now c reference (a # as) ob =
     (if get_satisfaction_events ob (oe_corr a) \<noteq> [] then withdraw_untouched env race now c reference as ob
      else rbind (withdraw_assessment env race now c (oe_corr a) reference (Some ''Renewal ended before this period began'') ob)
             (\<lambda>(_, ob1). withdraw_untouched env race now c reference as ob1))"

definition terminal_cycle :: "bill_cycle \<Rightarrow> int \<Rightarrow> 'h obligations \<Rightarrow> bill_cycle" where
  "terminal_cycle latest instant ob =
     latest\<lparr>bc_id := next_cycle_id ob, bc_number := bc_number latest + 1, bc_boundary := instant, bc_next := None, bc_grace := None\<rparr>"

definition scheduled_after :: "'h obligations \<Rightarrow> class_id \<Rightarrow> string \<Rightarrow> int \<Rightarrow> bill_cycle list" where
  "scheduled_after ob c ref instant = filter (\<lambda>b. bc_next b \<noteq> None \<and> instant \<le> bc_boundary b) (class_cycles ob c ref)"

text \<open>The terminal row takes the position after the latest cycle read; if another session took it, the constraint refuses it.\<close>

definition terminate_bill_cycle ::
    "time_env \<Rightarrow> ('h obligations \<Rightarrow> 'h obligations) \<Rightarrow> int \<Rightarrow> class_id \<Rightarrow> string \<Rightarrow> int option \<Rightarrow> int option \<Rightarrow> 'h obligations
       \<Rightarrow> obl_error + (bill_cycle \<times> 'h obligations)" where
  "terminate_bill_cycle env race now c ref termination_at reference ob =
     (case get_latest_bill_cycle ob ref of
        None \<Rightarrow> Inl (BillCycleLifecycle ''nothing to terminate'')
      | Some latest \<Rightarrow>
        if bc_class latest \<noteq> c then Inl (BillCycleLifecycle ''class scope mismatch'')
        else if bc_next latest = None then Inr (latest, ob)
        else
          rbind (case termination_at of Some t \<Rightarrow> Inr (Some t)
                 | None \<Rightarrow> get_stop_renewal_instant env ob c ref reference) (\<lambda>found.
          case found of None \<Rightarrow> Inl OblAttribute
          | Some instant \<Rightarrow>
            rbind (withdraw_untouched env race now c reference
                     (concat (map (cycle_assessments ob) (scheduled_after ob c ref instant))) ob) (\<lambda>ob1.
            let ob2 = race ob1; b = terminal_cycle latest instant ob2 in
            rbind (rguard (\<not> cycle_taken ob2 (bc_ref b) (bc_number b)) OblIntegrity) (\<lambda>_. Inr (b, append_cycle b [] ob2)))))"

end
