(* ===== verification/Rent_Payment.thy ===== *)
theory Rent_Payment
  imports Bill_Cycles
begin

text \<open>
  Paying rent, \<^verbatim>\<open>app/feats/rent_payment_feat.py\<close>: one command that debits the Ledger, records the PAYMENT event that names
  the debit, and grants the perks of a settled rent. The state is the Ledger, the obligation tables and the entitlements;
  granting is Store's, so the entitlements are a type variable and \<open>re_award\<close> what Store answers. An error value discards
  the state; a result with \<open>success = False\<close> does not, because the FEAT boundary commits whenever its body returns.
\<close>

section \<open>Environment, request and result\<close>

record ('h, 'k, 'e) rent_world =
  rw_ledger :: "'h ledger"
  rw_obl :: "'k obligations"
  rw_ent :: 'e

record roster_seat =
  st_id :: seat_id
  st_class :: class_id
  st_user :: "nat option"
  st_role :: string

text \<open>
  \<open>re_wait\<close> is what others commit while this session waits for the seat lock; \<open>re_race\<close> and \<open>re_race2\<close> what they commit to
  the Ledger after it, \<open>re_orace\<close> what they commit to the obligations, whose waivers and withdrawals do not take that lock; \<open>re_owner\<close> is the teacher each class row names; \<open>re_hash\<close> the first 24 digits of a SHA-256; \<open>re_describe\<close> the text
  a student sees.
\<close>

record ('h, 'k, 'e) rent_env =
  re_time :: time_env
  re_now :: int
  re_ctx :: feat_ctx
  re_digest :: "fprint \<Rightarrow> 'h"
  re_funding :: "class_id \<Rightarrow> string option \<Rightarrow> string \<Rightarrow> string"
  re_banking :: "class_id \<Rightarrow> banking_directive"
  re_owner :: "class_id \<Rightarrow> nat option"
  re_seats :: "roster_seat list"
  re_hash :: "string \<Rightarrow> string"
  re_describe :: "'k obligations \<Rightarrow> class_id \<Rightarrow> obl_event \<Rightarrow> string"
  re_award :: "rent_policy \<Rightarrow> seat_id \<Rightarrow> string \<Rightarrow> 'e \<Rightarrow> obl_error + (int \<times> 'e)"
  re_wait :: "('h, 'k, 'e) rent_world \<Rightarrow> ('h, 'k, 'e) rent_world"
  re_race :: "'h ledger \<Rightarrow> 'h ledger"
  re_race2 :: "'h ledger \<Rightarrow> 'h ledger"
  re_orace :: "'k obligations \<Rightarrow> 'k obligations"

record rent_request =
  rq_class :: class_id
  rq_seat :: seat_id
  rq_corr :: string
  rq_key :: string
  rq_amount :: "dec option"

record rent_result =
  rr_success :: bool
  rr_corr :: string
  rr_tx :: "nat option"
  rr_paid :: int
  rr_remaining :: int
  rr_fully :: bool
  rr_passes :: int
  rr_already :: bool
  rr_error :: "string option"

definition refused :: "string \<Rightarrow> string \<Rightarrow> rent_result" where
  "refused corr err = \<lparr>rr_success = False, rr_corr = corr, rr_tx = None, rr_paid = 0, rr_remaining = 0, rr_fully = False,
     rr_passes = 0, rr_already = False, rr_error = Some err\<rparr>"

definition already_settled :: "string \<Rightarrow> rent_result" where
  "already_settled corr = \<lparr>rr_success = True, rr_corr = corr, rr_tx = None, rr_paid = 0, rr_remaining = 0, rr_fully = True,
     rr_passes = 0, rr_already = True, rr_error = None\<rparr>"

definition obl_ledger :: "led_error + 'a \<Rightarrow> obl_error + 'a" where
  "obl_ledger m = (case m of Inl e \<Rightarrow> Inl (OblLedger e) | Inr x \<Rightarrow> Inr x)"

lemma obl_ledger_Inr [simp, res_simps]: "obl_ledger m = Inr x \<longleftrightarrow> m = Inr x"
  by (simp add: obl_ledger_def split: sum.splits)

lemma obl_ledger_simps [simp]: "obl_ledger (Inr x) = Inr x" "obl_ledger (Inl e) = Inl (OblLedger e)"
  by (simp_all add: obl_ledger_def)

text \<open>A payment is a positive finite number of whole cents, at most a million.\<close>

definition requested_amount_problem :: "dec \<Rightarrow> string option" where
  "requested_amount_problem amount =
     (case amount of
        Finite q \<Rightarrow>
          if q \<le> 0 then Some ''Payment amount must be positive''
          else if q > 1000000 then Some ''Enter a valid payment amount.''
          else if q \<noteq> of_cents (cents_even q) then Some ''Payment amount must be in whole cents.''
          else None
      | _ \<Rightarrow> Some ''Enter a valid payment amount.'')"

text \<open>\<^verbatim>\<open>resolve_teacher_seat_for_class\<close> of \<^verbatim>\<open>app/services/identity_service.py\<close>.\<close>

definition resolve_teacher_seat_for_class :: "(class_id \<Rightarrow> nat option) \<Rightarrow> roster_seat list \<Rightarrow> class_id \<Rightarrow> obl_error + roster_seat" where
  "resolve_teacher_seat_for_class owner seats c =
     (if c = [] then Inl (OblValue ''FATAL: class_id is required to resolve teacher seat.'')
      else (case owner c of
        None \<Rightarrow> Inl (OblValue ''FATAL: No established teacher owner'')
      | Some u \<Rightarrow> (case filter (\<lambda>s. st_class s = c \<and> st_user s = Some u \<and> st_role s = ''teacher'') seats of
          [s] \<Rightarrow> Inr s
        | _ \<Rightarrow> Inl (OblValue ''FATAL: Expected exactly one canonical teacher seat''))))"

definition period_has_begun :: "time_env \<Rightarrow> class_id \<Rightarrow> obligation_state \<Rightarrow> obl_error + bool" where
  "period_has_begun env c s = rbind (class_now env c None) (\<lambda>now.
     rbind (obl_later_than env c (os_due s) now) (\<lambda>later. Inr (\<not> later)))"

section \<open>One obligation\<close>

definition cents_of_amount :: "dec option \<Rightarrow> int option" where
  "cents_of_amount amount = (case amount of Some (Finite q) \<Rightarrow> Some (cents_even q) | _ \<Rightarrow> None)"

definition payment_intent :: "rent_request \<Rightarrow> fval list" where
  "payment_intent q = [VStr ''RENT_PAYMENT'', VStr (rq_corr q),
     (case cents_of_amount (rq_amount q) of None \<Rightarrow> VNull | Some n \<Rightarrow> VAmount (of_cents n))]"

definition payment_key :: "string \<Rightarrow> string" where
  "payment_key key = ''rent-payment:'' @ key @ '':principal''"

definition payment_plan :: "seat_id \<Rightarrow> class_id \<Rightarrow> string \<Rightarrow> seat_id \<Rightarrow> fval list option \<Rightarrow> ledger_plan" where
  "payment_plan seat c description authority intent = \<lparr>pl_seat = seat, pl_class = c, pl_debit = 0, pl_description = description,
     pl_type = ''rent_payment'', pl_actor = seat, pl_target = authority, pl_mechanism = ''self'', pl_fee_actor = None,
     pl_source = ''checking'', pl_target_account = None, pl_origin = None, pl_intent_locator = None, pl_original = None,
     pl_correlation = None, pl_intent = intent, pl_subtype = None\<rparr>"

text \<open>A known command answers from its own debit: what was paid up to and with it.\<close>

definition replay_rent_payment :: "rent_request \<Rightarrow> obl_event \<Rightarrow> tx \<Rightarrow> ('h, 'k, 'e) rent_world \<Rightarrow> obl_error + rent_result" where
  "replay_rent_payment q a debit w =
     (let ob = rw_obl w; assessed = resolve_assessment_amount ob a in
      case get_payment_event_by_ledger ob (Some (tx_id debit)) of
        None \<Rightarrow> Inl (OblRuntime ''FATAL: Rent payment debit has no PAYMENT satisfaction event'')
      | Some e \<Rightarrow>
        (let paid = get_paid_magnitude_through_event (txs (rw_ledger w)) ob (rq_corr q) e; fully = (assessed \<le> paid) in
         rbind (rguard (rq_amount q \<noteq> None \<or> fully) (OblValue ''Replay fingerprint mismatch for full rent payment intent.'')) (\<lambda>_.
         Inr \<lparr>rr_success = True, rr_corr = rq_corr q, rr_tx = Some (tx_id debit), rr_paid = \<bar>tx_cents debit\<bar>,
              rr_remaining = max 0 (assessed - paid), rr_fully = fully, rr_passes = 0, rr_already = fully, rr_error = None\<rparr>)))"

text \<open>The settings the obligation was assessed under, or the class's current ones.\<close>

definition payment_settings :: "'k obligations \<Rightarrow> class_id \<Rightarrow> obl_event \<Rightarrow> rent_policy option" where
  "payment_settings ob c a =
     (case (if str_or (oe_policy a) [] \<noteq> [] then find_rent ob (str_or (oe_policy a) []) else None) of
        Some r \<Rightarrow> Some r | None \<Rightarrow> get_rent_settings ob c)"

text \<open>The cents this command pays of what remains, or none when a part is not allowed.\<close>

definition payment_slice :: "rent_policy \<Rightarrow> int option \<Rightarrow> int \<Rightarrow> int option" where
  "payment_slice settings requested remaining =
     (case requested of None \<Rightarrow> Some remaining
      | Some n \<Rightarrow> if remaining \<le> n then Some remaining else if rp_incremental settings then Some n else None)"

text \<open>The funding of an authorized amount: the plan for the debit, resolved against the seat's balances without any fee.\<close>

definition funded_plan ::
    "('h, 'k, 'e) rent_env \<Rightarrow> class_id \<Rightarrow> seat_id \<Rightarrow> string \<Rightarrow> fval list option \<Rightarrow> int \<Rightarrow> 'h ledger \<Rightarrow> obl_error + resolved_plan" where
  "funded_plan en c seat description intent amount st =
     rbind (resolve_teacher_seat_for_class (re_owner en) (re_seats en) c) (\<lambda>authority.
     rbind (obl_ledger (build_intended_ledger_plan (of_cents amount) (payment_plan seat c description (st_id authority) intent)))
       (\<lambda>p. obl_ledger (resolve_intended_ledger_plan p (re_banking en c) ''NONE'' False st)))"

text \<open>The perks of the payment that settles a rent whose period has begun.\<close>

definition payment_perks ::
    "('h, 'k, 'e) rent_env \<Rightarrow> rent_request \<Rightarrow> obl_event \<Rightarrow> obligation_state \<Rightarrow> rent_policy \<Rightarrow> bool \<Rightarrow> 'e \<Rightarrow> obl_error + (int \<times> 'e)" where
  "payment_perks en q a state settings newly_fully_paid ent =
     (if newly_fully_paid \<and> oe_type a = ''RENT''
      then rbind (period_has_begun (re_time en) (rq_class q) state) (\<lambda>begun.
        if begun then re_award en settings (rq_seat q) (rq_corr q) ent else Inr (0, ent))
      else Inr (0, ent))"

definition record_payment ::
    "('h, 'k, 'e) rent_env \<Rightarrow> rent_request \<Rightarrow> obl_event \<Rightarrow> obligation_state \<Rightarrow> rent_policy \<Rightarrow> int \<Rightarrow> int \<Rightarrow> int \<Rightarrow> resolved_plan
       \<Rightarrow> ('h, 'k, 'e) rent_world \<Rightarrow> obl_error + (rent_result \<times> ('h, 'k, 'e) rent_world)" where
  "record_payment en q a state settings assessed paid amount resolved w =
     rbind (obl_ledger (apply_resolved_ledger_plan (re_digest en) (re_funding en) (re_race en) (re_race2 en) (re_ctx en) (re_now en)
              resolved (payment_key (rq_key q)) (rw_ledger w))) (\<lambda>(applied, ledger).
     case pr_principal applied of None \<Rightarrow> Inl OblAttribute
     | Some debit \<Rightarrow>
       rbind (satisfy_obligation (re_orace en) (re_now en) \<lparr>sq_corr = rq_corr q, sq_class = rq_class q, sq_seat = rq_seat q, sq_payment = True,
                sq_tx = Some (tx_id debit), sq_notes = None\<rparr> (rw_obl w)) (\<lambda>(event, ob).
       let fully = (assessed \<le> paid + amount) in
       rbind (payment_perks en q a state settings (fully \<and> paid < assessed \<and> pr_created applied = Some True) (rw_ent w))
         (\<lambda>(passes, ent).
       Inr (\<lparr>rr_success = True, rr_corr = rq_corr q, rr_tx = Some (tx_id debit), rr_paid = amount,
             rr_remaining = max 0 (assessed - (paid + amount)), rr_fully = fully, rr_passes = passes, rr_already = False,
             rr_error = None\<rparr>,
            \<lparr>rw_ledger = ledger, rw_obl = ob, rw_ent = ent\<rparr>))))"

definition post_rent_payment ::
    "('h, 'k, 'e) rent_env \<Rightarrow> rent_request \<Rightarrow> obl_event \<Rightarrow> obligation_state \<Rightarrow> rent_policy \<Rightarrow> int \<Rightarrow> int \<Rightarrow> int
       \<Rightarrow> ('h, 'k, 'e) rent_world \<Rightarrow> obl_error + (rent_result \<times> ('h, 'k, 'e) rent_world)" where
  "post_rent_payment en q a state settings assessed paid amount w =
     rbind (funded_plan en (rq_class q) (rq_seat q) (re_describe en (rw_obl w) (rq_class q) a) (Some (payment_intent q)) amount
              (rw_ledger w)) (\<lambda>resolved.
     if rs_checking_after resolved < 0 then Inr (refused (rq_corr q) ''INSUFFICIENT_FUNDS'', w)
     else record_payment en q a state settings assessed paid amount resolved w)"

text \<open>Under the seat lock: a replay, or a new payment of what remains.\<close>

definition pay_rent_locked ::
    "('h, 'k, 'e) rent_env \<Rightarrow> rent_request \<Rightarrow> obl_event \<Rightarrow> obligation_state \<Rightarrow> ('h, 'k, 'e) rent_world
       \<Rightarrow> obl_error + (rent_result \<times> ('h, 'k, 'e) rent_world)" where
  "pay_rent_locked en q a state w =
     rbind (obl_ledger (lock_recovery_scope (rq_class q) (rq_seat q) (rw_ledger w))) (\<lambda>_.
     rbind (obl_ledger (replay_reserved_charge (re_digest en) (rq_class q) (str_or (fc_name (re_ctx en)) []) (payment_key (rq_key q))
              (rq_seat q) (rq_seat q) ''rent_payment'' (Some (payment_intent q)) (rw_ledger w))) (\<lambda>prior.
     case prior of
       Some (debit, rows) \<Rightarrow> rbind (replay_rent_payment q a debit w) (\<lambda>r. Inr (r, w))
     | None \<Rightarrow>
       (case payment_settings (rw_obl w) (rq_class q) a of
          None \<Rightarrow> Inr (refused (rq_corr q) ''NO_SETTINGS'', w)
        | Some settings \<Rightarrow>
          (let assessed = resolve_assessment_amount (rw_obl w) a;
               paid = get_paid_magnitude (txs (rw_ledger w)) (rw_obl w) (rq_corr q) in
           if assessed \<le> 0 then Inr (refused (rq_corr q) ''ZERO_AMOUNT'', w)
           else if assessed - paid \<le> 0 then Inr (already_settled (rq_corr q), w)
           else (case payment_slice settings (cents_of_amount (rq_amount q)) (assessed - paid) of
                   None \<Rightarrow> Inr (refused (rq_corr q) ''PARTIAL_NOT_ALLOWED'', w)
                 | Some amount \<Rightarrow> post_rent_payment en q a state settings assessed paid amount w)))))"

definition pay_rent ::
    "('h, 'k, 'e) rent_env \<Rightarrow> rent_request \<Rightarrow> ('h, 'k, 'e) rent_world \<Rightarrow> obl_error + (rent_result \<times> ('h, 'k, 'e) rent_world)" where
  "pay_rent en q w =
     rbind (rguard (rq_class q \<noteq> [] \<and> rq_seat q \<noteq> 0 \<and> rq_corr q \<noteq> []) (OblValue ''pay_rent requires class_id, seat_id, and correlation_id'')) (\<lambda>_.
     rbind (rguard (rq_key q \<noteq> []) (OblValue ''pay_rent requires a command idempotency_key'')) (\<lambda>_.
     if (case rq_amount q of None \<Rightarrow> False | Some amount \<Rightarrow> requested_amount_problem amount \<noteq> None)
     then Inr (refused (rq_corr q) ''INVALID_AMOUNT'', w)
     else (case get_assessment_for_correlation (rw_obl w) (rq_corr q) of
       None \<Rightarrow> Inr (refused (rq_corr q) ''NO_ASSESSMENT'', w)
     | Some a \<Rightarrow>
       if oe_type a \<notin> {''RENT'', ''LATE_FEE''} then Inr (refused (rq_corr q) ''NOT_RENT_DOMAIN'', w)
       else if oe_class a \<noteq> rq_class q \<or> oe_seat a \<noteq> rq_seat q then Inr (refused (rq_corr q) ''SCOPE_MISMATCH'', w)
       else rbind (get_obligation_state (re_time en) (txs (rw_ledger w)) (rw_obl w) (rq_corr q) None) (\<lambda>st.
         case st of None \<Rightarrow> Inl OblAttribute
         | Some state \<Rightarrow>
           if os_withdrawn state then Inr (refused (rq_corr q) ''WITHDRAWN'', w)
           else if os_waived state then Inr (already_settled (rq_corr q), w)
           else (let w1 = re_wait en w in
             if seat_class (rw_ledger w1) (rq_seat q) \<noteq> Some (rq_class q) then Inr (refused (rq_corr q) ''NO_SEAT'', w1)
             else pay_rent_locked en q a state w1)))))"

section \<open>A whole bill\<close>

record bill_result =
  br_success :: bool
  br_paid :: int
  br_remaining :: int
  br_fully :: bool
  br_passes :: int
  br_results :: "rent_result list"
  br_error :: "string option"

definition bill_refused :: "rent_result list \<Rightarrow> string option \<Rightarrow> bill_result" where
  "bill_refused results err = \<lparr>br_success = False, br_paid = 0, br_remaining = 0, br_fully = False, br_passes = 0,
     br_results = results, br_error = err\<rparr>"

definition bill_slice_command_key :: "(string \<Rightarrow> string) \<Rightarrow> string \<Rightarrow> string \<Rightarrow> string" where
  "bill_slice_command_key hash key corr = ''billpay:'' @ hash (key @ '':'' @ corr)"

definition bill_slice_already_posted :: "('h, 'k, 'e) rent_env \<Rightarrow> class_id \<Rightarrow> string \<Rightarrow> 'h ledger \<Rightarrow> string \<Rightarrow> bool" where
  "bill_slice_already_posted en c key st corr =
     (find_reservation st c (str_or (fc_name (re_ctx en)) []) (payment_key (bill_slice_command_key (re_hash en) key corr)) \<noteq> None)"

definition bill_obligations_in_order :: "'k obligations \<Rightarrow> string \<Rightarrow> obl_event list" where
  "bill_obligations_in_order ob corr =
     (case get_assessment_for_correlation ob corr of None \<Rightarrow> [] | Some a \<Rightarrow> [a])
     @ filter (\<lambda>e. oe_type e = ''LATE_FEE'') (get_obligations_arising_from ob corr)"

definition remaining_amount :: "time_env \<Rightarrow> ('h, 'k, 'e) rent_world \<Rightarrow> obl_event \<Rightarrow> obl_error + int" where
  "remaining_amount env w e =
     rbind (get_obligation_state env (txs (rw_ledger w)) (rw_obl w) (oe_corr e) None) (\<lambda>st.
       case st of None \<Rightarrow> Inl OblAttribute | Some s \<Rightarrow> Inr (os_remaining s))"

definition slice_request :: "('h, 'k, 'e) rent_env \<Rightarrow> class_id \<Rightarrow> seat_id \<Rightarrow> string \<Rightarrow> string \<Rightarrow> int \<Rightarrow> rent_request" where
  "slice_request en c seat key corr amount = \<lparr>rq_class = c, rq_seat = seat, rq_corr = corr,
     rq_key = bill_slice_command_key (re_hash en) key corr, rq_amount = Some (Finite (of_cents amount))\<rparr>"

text \<open>
  The allocation loop over the obligations and what each had remaining: what was paid, the perks, the slices paid, and
  the error of the slice that failed, which ends the loop.
\<close>

fun pay_slices ::
    "('h, 'k, 'e) rent_env \<Rightarrow> class_id \<Rightarrow> seat_id \<Rightarrow> string \<Rightarrow> (obl_event \<times> int) list \<Rightarrow> int \<Rightarrow> ('h, 'k, 'e) rent_world
       \<Rightarrow> obl_error + (int \<times> int \<times> rent_result list \<times> string option option \<times> ('h, 'k, 'e) rent_world)" where
  "pay_slices en c seat key [] budget w = Inr (0, 0, [], None, w)"
| "pay_slices en c seat key ((e, remaining) # slices) budget w =
     (if budget \<le> 0 then Inr (0, 0, [], None, w)
      else if remaining \<le> 0 then pay_slices en c seat key slices budget w
      else rbind (pay_rent en (slice_request en c seat key (oe_corr e) (min remaining budget)) w) (\<lambda>(r, w1).
        if \<not> rr_success r then Inr (0, 0, [r], Some (rr_error r), w1)
        else rbind (pay_slices en c seat key slices (budget - rr_paid r) w1) (\<lambda>(paid, passes, rs, failed, w2).
          Inr (rr_paid r + paid, rr_passes r + passes, r # rs, failed, w2))))"

text \<open>The up-front screen of a command none of whose slices has posted yet.\<close>

definition bill_is_affordable :: "('h, 'k, 'e) rent_env \<Rightarrow> class_id \<Rightarrow> seat_id \<Rightarrow> int \<Rightarrow> 'h ledger \<Rightarrow> obl_error + bool" where
  "bill_is_affordable en c seat budget st =
     rbind (funded_plan en c seat ''Rent bill'' None budget st) (\<lambda>r. Inr (0 \<le> rs_checking_after r))"

definition pay_rent_bill ::
    "('h, 'k, 'e) rent_env \<Rightarrow> class_id \<Rightarrow> seat_id \<Rightarrow> string \<Rightarrow> string \<Rightarrow> dec option \<Rightarrow> ('h, 'k, 'e) rent_world
       \<Rightarrow> obl_error + (bill_result \<times> ('h, 'k, 'e) rent_world)" where
  "pay_rent_bill en c seat corr key amount w =
     (if (case amount of None \<Rightarrow> False | Some q \<Rightarrow> requested_amount_problem q \<noteq> None)
      then Inr (bill_refused [] (Some ''INVALID_AMOUNT''), w)
      else (let obligations = bill_obligations_in_order (rw_obl w) corr in
        if obligations = [] then Inr (bill_refused [] (Some ''NO_ASSESSMENT''), w)
        else rbind (rmapM (remaining_amount (re_time en) w) obligations) (\<lambda>remainings.
          let group_remaining = sum_list remainings in
          if group_remaining \<le> 0
          then Inr (\<lparr>br_success = True, br_paid = 0, br_remaining = 0, br_fully = True, br_passes = 0, br_results = [],
                     br_error = None\<rparr>, w)
          else (let budget = (case cents_of_amount amount of None \<Rightarrow> group_remaining | Some n \<Rightarrow> min n group_remaining);
                    w1 = re_wait en w in
            if seat_class (rw_ledger w1) seat \<noteq> Some c then Inr (bill_refused [] (Some ''NO_SEAT''), w1)
            else rbind (obl_ledger (lock_recovery_scope c seat (rw_ledger w1))) (\<lambda>_.
              rbind (if \<exists>e \<in> set obligations. bill_slice_already_posted en c key (rw_ledger w1) (oe_corr e) then Inr True
                     else bill_is_affordable en c seat budget (rw_ledger w1)) (\<lambda>affordable.
              if \<not> affordable then Inr (bill_refused [] (Some ''INSUFFICIENT_FUNDS''), w1)
              else rbind (pay_slices en c seat key (zip obligations remainings) budget w1) (\<lambda>(paid, passes, rs, failed, w2).
                case failed of
                  Some err \<Rightarrow> Inr (bill_refused rs err, w2)
                | None \<Rightarrow>
                  rbind (rmapM (remaining_amount (re_time en) w2) obligations) (\<lambda>afters.
                  Inr (\<lparr>br_success = True, br_paid = paid, br_remaining = sum_list afters, br_fully = (sum_list afters \<le> 0),
                        br_passes = passes, br_results = rs, br_error = None\<rparr>, w2)))))))))"

end
