(* ===== verification/Obligation_Invariant.thy ===== *)
theory Obligation_Invariant
  imports Bill_Cycles
begin

text \<open>
  The invariant of the obligation tables and its preservation by every writer: one assessment per lineage and
  correlation, one payment per Ledger transaction, at most one waiver and one withdrawal, nothing both withdrawn and
  satisfied, lineages numbered without gaps that end at their terminal cycle, and commands that own their cycle.
\<close>

section \<open>Lists in id order\<close>

lemma max_id_fresh: "x \<in> set xs \<Longrightarrow> f x < Suc (foldr max (map f xs) (0 :: nat))"
  by (induction xs) (auto simp: less_Suc_eq_le le_max_iff_disj)

lemma next_ids_fresh:
  "e \<in> set (ob_events ob) \<Longrightarrow> oe_id e < next_event_row_id ob" "b \<in> set (ob_cycles ob) \<Longrightarrow> bc_id b < next_cycle_id ob"
  by (simp_all add: next_event_row_id_def next_cycle_id_def max_id_fresh)

section \<open>Events\<close>

definition kind_rows :: "event_kind \<Rightarrow> obl_event list \<Rightarrow> obl_event list" where
  "kind_rows k es = filter (\<lambda>e. oe_kind e = k) es"

definition of_lineage :: "obl_event \<Rightarrow> obl_event \<Rightarrow> bool" where
  "of_lineage a e = (oe_corr e = oe_corr a \<and> oe_class e = oe_class a \<and> oe_seat e = oe_seat a \<and> oe_ref e = oe_ref a
     \<and> oe_type e = oe_type a \<and> oe_cycle e = oe_cycle a)"

definition events_ok :: "'h obligations \<Rightarrow> bool" where
  "events_ok ob = (sorted_wrt (<) (map oe_id (ob_events ob))
     \<and> distinct (map (\<lambda>e. (oe_ref e, oe_corr e)) (kind_rows ASSESSMENT (ob_events ob)))
     \<and> distinct (map oe_tx (kind_rows PAYMENT (ob_events ob)))
     \<and> (\<forall>e \<in> set (ob_events ob). (oe_kind e = PAYMENT) = (oe_tx e \<noteq> None))
     \<and> distinct (map oe_corr (kind_rows WAIVED (ob_events ob)))
     \<and> distinct (map oe_corr (kind_rows WITHDRAWN (ob_events ob)))
     \<and> (\<forall>e \<in> set (ob_events ob). oe_kind e = WAIVED \<longrightarrow> oe_type e = ''RENT'')
     \<and> (\<forall>w \<in> set (kind_rows WITHDRAWN (ob_events ob)). get_satisfaction_events ob (oe_corr w) = [])
     \<and> (\<forall>e \<in> set (ob_events ob). oe_kind e \<noteq> ASSESSMENT \<longrightarrow>
          (\<exists>a. get_assessment_for_correlation ob (oe_corr e) = Some a \<and> of_lineage a e)))"

lemma kind_rows_simps [simp]:
  "kind_rows k (es @ es') = kind_rows k es @ kind_rows k es'" "kind_rows k [] = []"
  "kind_rows k [e] = (if oe_kind e = k then [e] else [])" "set (kind_rows k es) = {e \<in> set es. oe_kind e = k}"
  by (auto simp: kind_rows_def)

lemma append_event_simps [simp]:
  "ob_events (append_event e ob) = ob_events ob @ [e]" "ob_cycles (append_event e ob) = ob_cycles ob"
  "ob_commands (append_event e ob) = ob_commands ob" "ob_rents (append_event e ob) = ob_rents ob"
  "ob_insurance (append_event e ob) = ob_insurance ob"
  by (simp_all add: append_event_def)

lemma append_cycle_simps [simp]:
  "ob_events (append_cycle b rs ob) = ob_events ob" "ob_cycles (append_cycle b rs ob) = ob_cycles ob @ [b]"
  "ob_commands (append_cycle b rs ob) = ob_commands ob @ rs" "ob_rents (append_cycle b rs ob) = ob_rents ob"
  "ob_insurance (append_cycle b rs ob) = ob_insurance ob"
  by (simp_all add: append_cycle_def)

lemma events_only:
  "ob_events ob' = ob_events ob \<Longrightarrow> get_assessment_for_correlation ob' corr = get_assessment_for_correlation ob corr"
  "ob_events ob' = ob_events ob \<Longrightarrow> get_satisfaction_events ob' corr = get_satisfaction_events ob corr"
  "ob_events ob' = ob_events ob \<Longrightarrow> get_withdrawal_event ob' corr = get_withdrawal_event ob corr"
  "ob_events ob' = ob_events ob \<Longrightarrow> get_payment_event_by_ledger ob' tx = get_payment_event_by_ledger ob tx"
  by (simp_all add: get_assessment_for_correlation_def get_satisfaction_events_def get_withdrawal_event_def
      get_payment_event_by_ledger_def split: option.split)

lemma events_ok_cong: "ob_events ob' = ob_events ob \<Longrightarrow> events_ok ob' = events_ok ob"
  unfolding events_ok_def get_assessment_for_correlation_def get_satisfaction_events_def by simp

lemma find_assessment_append:
  "get_assessment_for_correlation ob corr = Some a \<Longrightarrow> ob_events ob' = ob_events ob @ es
     \<Longrightarrow> get_assessment_for_correlation ob' corr = Some a"
  by (simp add: get_assessment_for_correlation_def find_append)

lemma assessment_SomeD:
  "get_assessment_for_correlation ob corr = Some a \<Longrightarrow> a \<in> set (ob_events ob) \<and> oe_corr a = corr \<and> oe_kind a = ASSESSMENT"
  by (auto simp: get_assessment_for_correlation_def find_Some_iff)

lemma satisfaction_none_iff:
  "get_satisfaction_events ob corr = [] \<longleftrightarrow> (\<forall>e \<in> set (ob_events ob). oe_corr e = corr \<longrightarrow> oe_kind e \<notin> {PAYMENT, WAIVED})"
proof -
  have "get_satisfaction_events ob corr = [] \<longleftrightarrow> set (get_satisfaction_events ob corr) = {}" by simp
  also have "\<dots> \<longleftrightarrow> (\<forall>e \<in> set (ob_events ob). oe_corr e = corr \<longrightarrow> oe_kind e \<notin> {PAYMENT, WAIVED})"
    unfolding get_satisfaction_events_def set_sort set_filter by auto
  finally show ?thesis .
qed

lemma satisfaction_events_append:
  "get_satisfaction_events (append_event e ob) corr = [] \<longleftrightarrow>
     get_satisfaction_events ob corr = [] \<and> \<not> (oe_corr e = corr \<and> oe_kind e \<in> {PAYMENT, WAIVED})"
  by (auto simp: satisfaction_none_iff)

lemma withdrawal_None_iff:
  "get_withdrawal_event ob corr = None \<longleftrightarrow> (\<forall>e \<in> set (ob_events ob). oe_corr e = corr \<longrightarrow> oe_kind e \<noteq> WITHDRAWN)"
  by (auto simp: get_withdrawal_event_def find_None_iff)

lemma events_ok_append:
  assumes "events_ok ob" "oe_id e = next_event_row_id ob"
    and "oe_kind e = ASSESSMENT \<Longrightarrow> find_assessment ob (oe_ref e) (oe_corr e) = None"
    and "oe_kind e = PAYMENT \<Longrightarrow> oe_tx e \<noteq> None \<and> get_payment_event_by_ledger ob (oe_tx e) = None"
    and "oe_kind e \<noteq> PAYMENT \<Longrightarrow> oe_tx e = None"
    and "oe_kind e = WAIVED \<Longrightarrow> oe_type e = ''RENT'' \<and> check_idempotency_satisfaction ob (oe_corr e) WAIVED = False"
    and "oe_kind e \<in> {PAYMENT, WAIVED} \<Longrightarrow> get_withdrawal_event ob (oe_corr e) = None"
    and "oe_kind e = WITHDRAWN \<Longrightarrow> get_withdrawal_event ob (oe_corr e) = None \<and> get_satisfaction_events ob (oe_corr e) = []"
    and "oe_kind e \<noteq> ASSESSMENT \<Longrightarrow> \<exists>a. get_assessment_for_correlation ob (oe_corr e) = Some a \<and> of_lineage a e"
  shows "events_ok (append_event e ob)"
proof -
  have old: "\<exists>a. get_assessment_for_correlation (append_event e ob) (oe_corr x) = Some a \<and> of_lineage a x"
    if "x \<in> set (ob_events ob) \<or> x = e" "oe_kind x \<noteq> ASSESSMENT" for x
  proof -
    from that assms(1,9) obtain a where "get_assessment_for_correlation ob (oe_corr x) = Some a" "of_lineage a x"
      unfolding events_ok_def by blast
    then show ?thesis using find_assessment_append [of ob _ a "append_event e ob" "[e]"] by simp
  qed
  have ids: "sorted_wrt (<) (map oe_id (ob_events ob @ [e]))"
    using assms(1,2) next_ids_fresh(1) [of _ ob] by (auto simp: events_ok_def sorted_wrt_append)
  have d1: "distinct (map (\<lambda>e. (oe_ref e, oe_corr e)) (kind_rows ASSESSMENT (ob_events ob @ [e])))"
    using assms(1,3) by (auto simp: events_ok_def find_assessment_def find_None_iff)
  have d2: "distinct (map oe_tx (kind_rows PAYMENT (ob_events ob @ [e])))"
    using assms(1,4) by (auto simp: events_ok_def get_payment_event_by_ledger_def find_None_iff split: option.splits)
  have d3: "distinct (map oe_corr (kind_rows WAIVED (ob_events ob @ [e])))"
    using assms(1,6) by (auto simp: events_ok_def check_idempotency_satisfaction_def find_None_iff)
  have d4: "distinct (map oe_corr (kind_rows WITHDRAWN (ob_events ob @ [e])))"
    using assms(1,8) by (auto simp: events_ok_def withdrawal_None_iff)
  have tx: "\<forall>x \<in> set (ob_events ob @ [e]). (oe_kind x = PAYMENT) = (oe_tx x \<noteq> None)"
  proof -
    have "(oe_kind e = PAYMENT) = (oe_tx e \<noteq> None)" by (cases "oe_kind e = PAYMENT") (use assms(4,5) in simp_all)
    then show ?thesis using assms(1) unfolding events_ok_def by simp
  qed
  have rent: "\<forall>x \<in> set (ob_events ob @ [e]). oe_kind x = WAIVED \<longrightarrow> oe_type x = ''RENT''"
    using assms(1,6) by (auto simp: events_ok_def)
  have wd: "get_satisfaction_events (append_event e ob) (oe_corr w) = []"
    if "w \<in> set (ob_events ob @ [e])" "oe_kind w = WITHDRAWN" for w
  proof (cases "w = e")
    case True
    then show ?thesis using assms(8) that(2) by (simp add: satisfaction_events_append)
  next
    case False
    then have w: "w \<in> set (ob_events ob)" using that(1) by simp
    then have "get_withdrawal_event ob (oe_corr w) \<noteq> None" using that(2) by (auto simp: withdrawal_None_iff)
    then show ?thesis using assms(1,7) w that(2) unfolding satisfaction_events_append events_ok_def by auto
  qed
  show ?thesis
    unfolding events_ok_def append_event_simps using ids d1 d2 d3 d4 tx rent wd old by auto
qed

section \<open>Lineages\<close>

definition lineage :: "'h obligations \<Rightarrow> string \<Rightarrow> bill_cycle list" where
  "lineage ob ref = filter (\<lambda>b. bc_ref b = ref) (ob_cycles ob)"

definition lineage_ok :: "bill_cycle list \<Rightarrow> bool" where
  "lineage_ok bs = (map bc_number bs = map int [1..<Suc (length bs)]
     \<and> (\<forall>b \<in> set bs. \<forall>b' \<in> set bs. bc_class b = bc_class b')
     \<and> (\<forall>b \<in> set (butlast bs). bc_next b \<noteq> None)
     \<and> (\<forall>b \<in> set bs. \<forall>e. bc_next b = Some e \<longrightarrow> bc_boundary b < e))"

definition cycles_ok :: "'h obligations \<Rightarrow> bool" where
  "cycles_ok ob = (sorted_wrt (<) (map bc_id (ob_cycles ob)) \<and> (\<forall>ref. lineage_ok (lineage ob ref)))"

lemma lineage_append [simp]:
  "lineage (append_cycle b rs ob) ref = lineage ob ref @ (if bc_ref b = ref then [b] else [])"
  "lineage (append_event e ob) ref = lineage ob ref"
  by (simp_all add: lineage_def)

lemma lineage_ok_snoc:
  assumes "lineage_ok bs" "bc_number b = int (Suc (length bs))"
    and "bs \<noteq> [] \<Longrightarrow> bc_class b = bc_class (last bs) \<and> bc_next (last bs) \<noteq> None"
    and "\<And>e. bc_next b = Some e \<Longrightarrow> bc_boundary b < e"
  shows "lineage_ok (bs @ [b])"
proof -
  have num: "map bc_number (bs @ [b]) = map int [1..<Suc (length (bs @ [b]))]"
    using assms(1,2) unfolding lineage_ok_def by simp
  have cls: "bc_class x = bc_class b" if "x \<in> set bs" for x
  proof -
    have "bs \<noteq> []" using that by auto
    then show ?thesis using assms(1,3) that last_in_set [of bs] unfolding lineage_ok_def by metis
  qed
  have nxt: "bc_next x \<noteq> None" if "x \<in> set bs" for x
  proof -
    have "bs \<noteq> []" using that by auto
    then have "set bs = set (butlast bs) \<union> {last bs}" by (metis append_butlast_last_id list.set(1,2) set_append)
    with that assms(1,3) \<open>bs \<noteq> []\<close> show ?thesis unfolding lineage_ok_def by auto
  qed
  show ?thesis
    unfolding lineage_ok_def
    using num cls nxt assms(1,4) by (auto simp: lineage_ok_def butlast_append)
qed

lemma lineage_sorted: "lineage_ok bs \<Longrightarrow> sort_key bc_number bs = bs"
  by (rule sort_key_id_if_sorted) (simp add: lineage_ok_def sorted_map sorted_wrt_map del: upt_Suc)

lemma newest_lineage: "lineage_ok bs \<Longrightarrow> first_row (newest_first bc_number bs) = (if bs = [] then None else Some (last bs))"
  by (simp add: first_row_newest lineage_sorted)

lemma latest_bill_cycle:
  "cycles_ok ob \<Longrightarrow> get_latest_bill_cycle ob ref = (if lineage ob ref = [] then None else Some (last (lineage ob ref)))"
  using newest_lineage [of "lineage ob ref"] by (simp add: get_latest_bill_cycle_def lineage_def cycles_ok_def)

lemma class_cycles_lineage:
  assumes "cycles_ok ob"
  shows "class_cycles ob c ref = (if lineage ob ref = [] \<or> bc_class (last (lineage ob ref)) \<noteq> c then [] else lineage ob ref)"
proof -
  have f: "class_cycles ob c ref = filter (\<lambda>b. bc_class b = c) (lineage ob ref)"
    by (simp add: class_cycles_def lineage_def conj_commute)
  have cls: "bc_class b = bc_class (last (lineage ob ref))" if "b \<in> set (lineage ob ref)" for b
  proof -
    have "lineage ob ref \<noteq> []" using that by auto
    with that assms last_in_set show ?thesis unfolding cycles_ok_def lineage_ok_def by metis
  qed
  show ?thesis
  proof (cases "lineage ob ref = [] \<or> bc_class (last (lineage ob ref)) \<noteq> c")
    case True
    then have "filter (\<lambda>b. bc_class b = c) (lineage ob ref) = []" using cls by (auto simp: filter_empty_conv)
    then show ?thesis using True by (simp add: f)
  next
    case False
    then have "filter (\<lambda>b. bc_class b = c) (lineage ob ref) = lineage ob ref" using cls by (intro filter_True) auto
    then show ?thesis using False by (simp add: f)
  qed
qed

lemma cycle_taken_lineage:
  assumes "cycles_ok ob"
  shows "cycle_taken ob ref n \<longleftrightarrow> 1 \<le> n \<and> n \<le> int (length (lineage ob ref))"
proof -
  have "cycle_taken ob ref n \<longleftrightarrow> n \<in> set (map bc_number (lineage ob ref))"
    by (auto simp: cycle_taken_def lineage_def)
  moreover have "map bc_number (lineage ob ref) = map int [1..<Suc (length (lineage ob ref))]"
    using assms by (simp add: cycles_ok_def lineage_ok_def)
  ultimately have "cycle_taken ob ref n \<longleftrightarrow> (\<exists>k. n = int k \<and> 1 \<le> k \<and> k \<le> length (lineage ob ref))"
    by (auto simp del: upt_Suc)
  also have "\<dots> \<longleftrightarrow> 1 \<le> n \<and> n \<le> int (length (lineage ob ref))"
    by (auto intro: exI [of _ "nat n"])
  finally show ?thesis .
qed

lemma last_number:
  assumes "lineage_ok bs" "bs \<noteq> []"
  shows "bc_number (last bs) = int (length bs)"
proof -
  have "bc_number (last bs) = last (map int [1..<Suc (length bs)])"
    using assms last_map [of bs bc_number] by (simp add: lineage_ok_def del: upt_Suc)
  moreover have "Suc 0 \<le> length bs" using assms(2) by (cases bs) auto
  ultimately show ?thesis by (simp add: upt_Suc_append)
qed

lemma cycles_ok_append:
  assumes "cycles_ok ob" "bc_id b = next_cycle_id ob" "lineage_ok (lineage ob (bc_ref b) @ [b])"
  shows "cycles_ok (append_cycle b rs ob)"
  using assms next_ids_fresh(2) [of _ ob] by (auto simp: cycles_ok_def sorted_wrt_append)

end
