(* ===== verification/Obligation_Run.thy ===== *)
theory Obligation_Run
  imports Obligation_Invariant Command_Interface
begin

text \<open>
  Runs of the Obligations domain: its writers in any order, raced by one another, while teachers save new policy
  versions. Every run keeps the invariant and only extends the tables.
\<close>

section \<open>What the resolver answers\<close>

lemma cle_Inr:
  "cle env c p ref kw = Inr r \<Longrightarrow> \<exists>h now tz. dispatch p = Some h \<and> h now tz kw = Inr r
     \<and> (case ref of None \<Rightarrow> now = utc_clock env | Some t \<Rightarrow> ensure_aware_utc ref = Inr now)"
  by (fastforce simp: cle_def canonical_temporal_resolver_def res_simps split: if_splits option.splits)

lemma later_than_value:
  assumes "later_than env c a b = Inr l"
  shows "l = (b < a)"
proof -
  let ?kw = "no_kwargs\<lparr>kw_candidate := Some (Aware a), kw_reference := Some (Aware b)\<rparr>"
  obtain r where r: "cle env c ''later_than'' None ?kw = Inr r" "(case r of RLater x \<Rightarrow> Inr x | _ \<Rightarrow> Inl PayAttribute) = Inr l"
    using assms unfolding later_than_def rbind_eq_Inr by blast
  from cle_Inr [OF r(1)] have "r = RLater (b < a)" by (auto simp: p_later_than_def ensure_aware_utc_def)
  with r(2) show ?thesis by simp
qed

lemma obl_later_than_value: "obl_later_than env c a b = Inr l \<Longrightarrow> l = (b < a)"
  by (simp add: obl_later_than_def later_than_value)

lemma dispatch_obligations [simp]:
  "dispatch ''current_time'' = Some p_current_time" "dispatch ''between_boundaries'' = Some p_between_boundaries"
  by (simp_all add: dispatch_def)

lemma class_now_value:
  assumes "class_now env c (Some t) = Inr n"
  shows "n = t"
proof -
  obtain r where r: "cle env c ''current_time'' (Some (Aware t)) no_kwargs = Inr r" "(case r of RNow w x \<Rightarrow> Inr x | _ \<Rightarrow> Inl OblAttribute) = Inr n"
    using assms unfolding class_now_def rbind_eq_Inr by auto
  from cle_Inr [OF r(1)] obtain w where "r = RNow w t" by (auto simp: p_current_time_def ensure_aware_utc_def)
  with r(2) show ?thesis by simp
qed

lemma class_between_value:
  assumes "class_between env c t s e = Inr h"
  shows "s < e \<and> h = (s \<le> t \<and> t < e)"
proof -
  let ?kw = "no_kwargs\<lparr>kw_candidate := Some (Aware t), kw_start_boundary := Some (Aware s), kw_end_boundary := Some (Aware e)\<rparr>"
  obtain r where r: "cle env c ''between_boundaries'' (Some (Aware t)) ?kw = Inr r" "(case r of RBetween x \<Rightarrow> Inr x | _ \<Rightarrow> Inl OblAttribute) = Inr h"
    using assms unfolding class_between_def rbind_eq_Inr by auto
  from cle_Inr [OF r(1)] have "r = RBetween (s \<le> t \<and> t < e)" "s < e"
    by (auto simp: p_between_boundaries_def ensure_aware_utc_def split: if_splits)
  with r(2) show ?thesis by simp
qed

section \<open>Extension\<close>

definition rents_grow :: "rent_policy list \<Rightarrow> rent_policy list \<Rightarrow> bool" where
  "rents_grow rs rs' = (\<exists>us vs. rs' = us @ vs \<and> list_all2 (\<lambda>r r'. r'\<lparr>rp_in_use := rp_in_use r\<rparr> = r) rs us
     \<and> (\<forall>v \<in> set vs. rp_uuid v \<notin> rp_uuid ` set rs))"

definition obl_extends :: "'h obligations \<Rightarrow> 'h obligations \<Rightarrow> bool" where
  "obl_extends ob ob' = ((\<exists>es. ob_events ob' = ob_events ob @ es) \<and> (\<exists>bs. ob_cycles ob' = ob_cycles ob @ bs)
     \<and> (\<exists>rs. ob_commands ob' = ob_commands ob @ rs) \<and> rents_grow (ob_rents ob) (ob_rents ob')
     \<and> (\<exists>ps. ob_insurance ob' = ob_insurance ob @ ps))"

lemma rents_grow_refl [simp]: "rents_grow rs rs"
  unfolding rents_grow_def by (rule exI [of _ rs], rule exI [of _ "[]"]) (simp add: list.rel_refl)

lemma same_uuids: "list_all2 (\<lambda>r r'. r'\<lparr>rp_in_use := rp_in_use r\<rparr> = r) rs us \<Longrightarrow> map rp_uuid us = map rp_uuid rs"
proof (induction rule: list_all2_induct)
  case (Cons r rs u us)
  have "rp_uuid (u\<lparr>rp_in_use := rp_in_use r\<rparr>) = rp_uuid u" by simp
  with Cons show ?case by simp
qed simp

lemma rents_grow_trans:
  assumes "rents_grow rs rs1" "rents_grow rs1 rs2"
  shows "rents_grow rs rs2"
proof -
  let ?R = "\<lambda>r r'. r'\<lparr>rp_in_use := rp_in_use r\<rparr> = r"
  obtain us vs where u: "rs1 = us @ vs" "list_all2 ?R rs us" "\<forall>v \<in> set vs. rp_uuid v \<notin> rp_uuid ` set rs"
    using assms(1) unfolding rents_grow_def by blast
  obtain us2 vs2 where w: "rs2 = us2 @ vs2" "list_all2 ?R rs1 us2" "\<forall>v \<in> set vs2. rp_uuid v \<notin> rp_uuid ` set rs1"
    using assms(2) unfolding rents_grow_def by blast
  obtain a b where ab: "us2 = a @ b" "list_all2 ?R us a" "list_all2 ?R vs b"
    using w(2) unfolding u(1) by (auto simp: list_all2_append1)
  have t: "?R x z" if "?R x y" "?R y z" for x y z :: rent_policy
    using that by (metis rent_policy.update_convs(4) rent_policy.surjective rent_policy.select_convs(4))
  have "list_all2 ?R rs a" by (rule list_all2_trans [OF _ u(2) ab(2)]) (use t in blast)
  moreover have "\<forall>v \<in> set (b @ vs2). rp_uuid v \<notin> rp_uuid ` set rs"
  proof
    fix v assume v: "v \<in> set (b @ vs2)"
    have b: "rp_uuid ` set b = rp_uuid ` set vs" using arg_cong [OF same_uuids [OF ab(3)], of set] by simp
    have rs: "rp_uuid ` set rs \<subseteq> rp_uuid ` set rs1" using arg_cong [OF same_uuids [OF u(2)], of set] by (auto simp: u(1))
    show "rp_uuid v \<notin> rp_uuid ` set rs"
    proof (cases "v \<in> set b")
      case True
      then obtain x where "x \<in> set vs" "rp_uuid v = rp_uuid x" using b by blast
      then show ?thesis using u(3) by metis
    next
      case False
      then have "rp_uuid v \<notin> rp_uuid ` set rs1" using v w(3) by simp
      then show ?thesis using rs by blast
    qed
  qed
  ultimately show ?thesis
    unfolding rents_grow_def w(1) ab(1) by (intro exI [of _ a] exI [of _ "b @ vs2"]) simp
qed

lemma obl_extends_refl [simp]: "obl_extends ob ob"
  by (auto simp: obl_extends_def)

lemma obl_extends_trans: "obl_extends ob ob1 \<Longrightarrow> obl_extends ob1 ob2 \<Longrightarrow> obl_extends ob ob2"
  unfolding obl_extends_def using rents_grow_trans by fastforce

lemma obl_extends_append [simp]: "obl_extends ob (append_event e ob)" "obl_extends ob (append_cycle b rs ob)"
  by (simp_all add: obl_extends_def)

section \<open>Commands\<close>

definition cycle_terms :: "bill_cycle \<Rightarrow> succession_terms" where
  "cycle_terms b = \<lparr>tm_ref = bc_ref b, tm_policy = bc_policy b, tm_version = bc_version b, tm_boundary = Some (bc_boundary b),
     tm_next = bc_next b, tm_grace = bc_grace b\<rparr>"

definition commands_ok :: "(succession_terms \<Rightarrow> 'h) \<Rightarrow> 'h obligations \<Rightarrow> bool" where
  "commands_ok digest ob = (distinct (map (\<lambda>r. (oc_class r, oc_name r, oc_key r)) (ob_commands ob))
     \<and> (\<forall>r \<in> set (ob_commands ob). oc_version r = succession_version \<and>
          (\<exists>b. find_cycle ob (Some (oc_cycle r)) = Some b \<and> bc_class b = oc_class r \<and> bc_ref b = oc_ref r
             \<and> oc_fingerprint r = digest (cycle_terms b))))"

definition obligations_ok :: "(succession_terms \<Rightarrow> 'h) \<Rightarrow> 'h obligations \<Rightarrow> bool" where
  "obligations_ok digest ob = (events_ok ob \<and> cycles_ok ob \<and> commands_ok digest ob)"

lemma find_cycle_append: "find_cycle ob i = Some b \<Longrightarrow> ob_cycles ob' = ob_cycles ob @ bs \<Longrightarrow> find_cycle ob' i = Some b"
  by (auto simp: find_cycle_def find_append split: option.splits)

lemma find_cycle_new: "cycles_ok (append_cycle b rs ob) \<Longrightarrow> find_cycle (append_cycle b rs ob) (Some (bc_id b)) = Some b"
proof -
  assume "cycles_ok (append_cycle b rs ob)"
  then have "List.find (\<lambda>x. bc_id x = bc_id b) (ob_cycles ob) = None"
    by (auto simp: cycles_ok_def sorted_wrt_append find_None_iff)
  then show ?thesis by (simp add: find_cycle_def find_append)
qed

lemma commands_ok_grow:
  assumes "commands_ok digest ob" "ob_cycles ob' = ob_cycles ob @ bs" "ob_commands ob' = ob_commands ob"
  shows "commands_ok digest ob'"
  using assms find_cycle_append [OF _ assms(2)] unfolding commands_ok_def by (metis (no_types, lifting))

lemma commands_ok_new:
  assumes "commands_ok digest ob" "cycles_ok (append_cycle b [r] ob)" "oc_cycle r = bc_id b" "oc_class r = bc_class b"
    and "oc_ref r = bc_ref b" "oc_fingerprint r = digest (cycle_terms b)" "oc_version r = succession_version"
    and "get_obligation_command_reservation ob (oc_class r) (oc_name r) (oc_key r) = None"
  shows "commands_ok digest (append_cycle b [r] ob)"
proof -
  have old: "\<exists>b'. find_cycle (append_cycle b [r] ob) (Some (oc_cycle x)) = Some b' \<and> bc_class b' = oc_class x
      \<and> bc_ref b' = oc_ref x \<and> oc_fingerprint x = digest (cycle_terms b')" if "x \<in> set (ob_commands ob)" for x
    using assms(1) that find_cycle_append [of ob _ _ "append_cycle b [r] ob" "[b]"] unfolding commands_ok_def
    by (metis append_cycle_simps(2))
  have "(oc_class r, oc_name r, oc_key r) \<notin> set (map (\<lambda>r. (oc_class r, oc_name r, oc_key r)) (ob_commands ob))"
    using assms(8) by (auto simp: get_obligation_command_reservation_def find_None_iff)
  with assms(1,3-7) old find_cycle_new [OF assms(2)] show ?thesis
    by (auto simp: commands_ok_def)
qed

section \<open>The writers, case by case\<close>

text \<open>
  What other sessions must not do to the obligation \<open>corr\<close> between the reads and the insert of a row of kind \<open>k\<close>, where
  neither lock nor constraint keeps them from it: pay or waive it while it is withdrawn, withdraw it while it is satisfied,
  waive it twice, or count the same Ledger row as another payment.
\<close>

fun clashes :: "event_kind \<Rightarrow> event_kind set" where
  "clashes ASSESSMENT = {}"
| "clashes PAYMENT = {WITHDRAWN}"
| "clashes WAIVED = {WAIVED, WITHDRAWN}"
| "clashes WITHDRAWN = {PAYMENT, WAIVED, WITHDRAWN}"

definition quiet_for :: "event_kind \<Rightarrow> string \<Rightarrow> nat option \<Rightarrow> 'h obligations \<Rightarrow> 'h obligations \<Rightarrow> bool" where
  "quiet_for k corr tx ob ob1 \<longleftrightarrow> (\<forall>es. ob_events ob1 = ob_events ob @ es \<longrightarrow> (\<forall>e \<in> set es.
     (oe_corr e = corr \<longrightarrow> oe_kind e \<notin> clashes k) \<and> (k = PAYMENT \<longrightarrow> oe_kind e = PAYMENT \<longrightarrow> oe_tx e \<noteq> tx)))"

lemma quiet_for_same [simp]: "quiet_for k corr tx ob ob"
  by (simp add: quiet_for_def)

lemma quiet_reads:
  assumes "obl_extends ob ob1" "quiet_for k corr tx ob ob1"
  shows "k \<noteq> ASSESSMENT \<Longrightarrow> get_withdrawal_event ob corr = None \<Longrightarrow> get_withdrawal_event ob1 corr = None"
    "k = WITHDRAWN \<Longrightarrow> get_satisfaction_events ob corr = [] \<Longrightarrow> get_satisfaction_events ob1 corr = []"
    "k = WAIVED \<Longrightarrow> \<not> check_idempotency_satisfaction ob corr WAIVED \<Longrightarrow> \<not> check_idempotency_satisfaction ob1 corr WAIVED"
    "k = PAYMENT \<Longrightarrow> tx \<noteq> None \<Longrightarrow> get_payment_event_by_ledger ob tx = None \<Longrightarrow> get_payment_event_by_ledger ob1 tx = None"
    "get_assessment_for_correlation ob corr = Some a \<Longrightarrow> get_assessment_for_correlation ob1 corr = Some a"
proof -
  obtain es where es: "ob_events ob1 = ob_events ob @ es" using assms(1) by (auto simp: obl_extends_def)
  have q: "oe_kind e \<notin> clashes k" if "e \<in> set es" "oe_corr e = corr" for e
    using that assms(2) es by (auto simp: quiet_for_def)
  have t: "oe_tx e \<noteq> tx" if "e \<in> set es" "k = PAYMENT" "oe_kind e = PAYMENT" for e
    using that assms(2) es by (auto simp: quiet_for_def)
  show "get_withdrawal_event ob1 corr = None" if "k \<noteq> ASSESSMENT" "get_withdrawal_event ob corr = None"
  proof -
    have "WITHDRAWN \<in> clashes k" using that(1) by (cases k) auto
    then have "\<forall>e \<in> set es. oe_corr e = corr \<longrightarrow> oe_kind e \<noteq> WITHDRAWN" using q by metis
    then show ?thesis using that(2) unfolding withdrawal_None_iff es set_append by blast
  qed
  show "get_satisfaction_events ob1 corr = []" if "k = WITHDRAWN" "get_satisfaction_events ob corr = []"
  proof -
    have "\<forall>e \<in> set es. oe_corr e = corr \<longrightarrow> oe_kind e \<notin> {PAYMENT, WAIVED}" using q by (auto simp: that(1))
    then show ?thesis using that(2) unfolding satisfaction_none_iff es set_append by blast
  qed
  show "\<not> check_idempotency_satisfaction ob1 corr WAIVED" if "k = WAIVED" "\<not> check_idempotency_satisfaction ob corr WAIVED"
  proof -
    have "\<forall>e \<in> set es. oe_corr e = corr \<longrightarrow> oe_kind e \<noteq> WAIVED" using q by (auto simp: that(1))
    then show ?thesis
      using that(2) unfolding check_idempotency_satisfaction_def find_None_iff es set_append by blast
  qed
  show "get_payment_event_by_ledger ob1 tx = None" if "k = PAYMENT" "tx \<noteq> None" "get_payment_event_by_ledger ob tx = None"
  proof -
    have "\<forall>e \<in> set es. oe_kind e = PAYMENT \<longrightarrow> oe_tx e \<noteq> tx" using t that(1) by blast
    then have "\<forall>e \<in> set es. \<not> (oe_tx e = tx \<and> oe_kind e = PAYMENT)" by blast
    then have "List.find (\<lambda>e. oe_tx e = tx \<and> oe_kind e = PAYMENT) es = None" by (simp add: find_None_iff)
    then show ?thesis using that(2,3) by (auto simp: get_payment_event_by_ledger_def es find_append)
  qed
  show "get_assessment_for_correlation ob1 corr = Some a" if "get_assessment_for_correlation ob corr = Some a"
    by (rule find_assessment_append [OF that es])
qed

lemma assess_cases:
  assumes "assess_obligation race now q ob = Inr (e, ob')"
  obtains (known) "ob' = ob" "get_assessment_for_correlation ob (aq_corr q) = Some e"
      "check_idempotency_assessment ob (aq_ref q) (aq_corr q)"
  | (lost_race) "ob' = race ob" "find_assessment (race ob) (aq_ref q) (aq_corr q) = Some e"
  | (fresh) "find_assessment (race ob) (aq_ref q) (aq_corr q) = None" "e = assessment_row now q (race ob)"
      "ob' = append_event e (race ob)"
proof (cases "check_idempotency_assessment ob (aq_ref q) (aq_corr q)")
  case True
  with assms show thesis
    by (intro known) (simp_all add: assess_obligation_def res_simps split: option.splits)
next
  case False
  note step = assms [unfolded assess_obligation_def, simplified False Let_def res_simps if_False]
  show thesis
  proof (cases "find_assessment (race ob) (aq_ref q) (aq_corr q)")
    case None
    with step show thesis by (intro fresh) auto
  next
    case (Some x)
    with step show thesis by (intro lost_race) simp_all
  qed
qed

lemma satisfy_cases:
  assumes "satisfy_obligation race now q ob = Inr (e, ob')"
  obtains (replay) "ob' = ob" "e \<in> set (ob_events ob)"
  | (fresh) a k where "get_assessment_for_correlation ob (sq_corr q) = Some a" "oe_class a = sq_class q" "oe_seat a = sq_seat q"
      "get_withdrawal_event ob (sq_corr q) = None" "k = (if sq_payment q then PAYMENT else WAIVED)"
      "\<not> sq_payment q \<longrightarrow> oe_type a = ''RENT'' \<and> check_idempotency_satisfaction ob (sq_corr q) WAIVED = False"
      "sq_payment q \<longrightarrow> sq_tx q \<noteq> None \<and> get_payment_event_by_ledger ob (sq_tx q) = None"
      "e = lineage_row now k (if sq_payment q then sq_tx q else None) (sq_notes q) a (race ob)"
      "ob' = append_event e (race ob)"
proof -
  obtain a where a: "get_assessment_for_correlation ob (sq_corr q) = Some a"
    using assms by (auto simp: satisfy_obligation_def split: option.splits)
  let ?found = "if sq_payment q then get_payment_event_by_ledger ob (sq_tx q)
    else List.find (\<lambda>e. oe_corr e = sq_corr q \<and> oe_kind e = WAIVED) (ob_events ob)"
  note step = assms [unfolded satisfy_obligation_def a option.case rbind_eq_Inr rguard_Inr]
  from step have g: "oe_class a = sq_class q" "oe_seat a = sq_seat q" "get_withdrawal_event ob (sq_corr q) = None"
    "sq_payment q \<or> oe_type a = ''RENT''" "\<not> sq_payment q \<or> sq_tx q \<noteq> None"
    by (cases "sq_tx q"; auto)+
  show thesis
  proof (cases ?found)
    case None
    with step have "e = lineage_row now (if sq_payment q then PAYMENT else WAIVED) (if sq_payment q then sq_tx q else None) (sq_notes q) a (race ob)"
      "ob' = append_event e (race ob)" by (auto simp: Let_def)
    then show thesis using g None
      by (intro fresh [OF a g(1-3) refl]) (auto simp: check_idempotency_satisfaction_def)
  next
    case (Some x)
    with step have "ob' = ob" "e = x" by simp_all
    moreover have "x \<in> set (ob_events ob)"
      using Some by (auto simp: get_payment_event_by_ledger_def find_Some_iff split: if_splits option.splits)
    ultimately show thesis by (intro replay) simp_all
  qed
qed

lemma withdraw_cases:
  assumes "withdraw_assessment env race now c corr reference notes ob = Inr (e, ob')"
  obtains (replay) "ob' = ob" "get_withdrawal_event ob corr = Some e"
  | (fresh) a b cancelling where "get_assessment_for_correlation ob corr = Some a" "oe_class a = c" "get_withdrawal_event ob corr = None"
      "find_cycle ob (oe_cycle a) = Some b" "class_now env c reference = Inr cancelling" "cancelling \<le> bc_boundary b"
      "get_satisfaction_events ob corr = []" "e = lineage_row now WITHDRAWN None notes a (race ob)" "ob' = append_event e (race ob)"
proof (cases "get_withdrawal_event ob corr")
  case None
  from assms obtain a where a: "get_assessment_for_correlation ob corr = Some a" "oe_class a = c"
    by (auto simp: withdraw_assessment_def split: option.splits if_splits)
  from assms a None obtain b where b: "find_cycle ob (oe_cycle a) = Some b"
    by (auto simp: withdraw_assessment_def split: option.splits)
  from assms a None b obtain k l where k: "class_now env c reference = Inr k" "obl_later_than env c k (bc_boundary b) = Inr l"
    "\<not> l" "get_satisfaction_events ob corr = []" "e = lineage_row now WITHDRAWN None notes a (race ob)" "ob' = append_event e (race ob)"
    unfolding withdraw_assessment_def by (simp add: res_simps Let_def split: if_splits) metis
  from obl_later_than_value [OF k(2)] k(3) have "k \<le> bc_boundary b" by simp
  then show thesis using fresh [OF a None b k(1)] k(4-6) by blast
next
  case (Some w)
  with assms have "ob' = ob" "e = w" by (auto simp: withdraw_assessment_def split: option.splits if_splits)
  with Some show thesis by (intro replay) simp_all
qed

lemma replay_succession_Inr:
  "replay_succession digest r q ob = Inr (b, ob') \<longleftrightarrow>
     ob' = ob \<and> oc_version r \<in> supported_succession_versions \<and> oc_fingerprint r = digest (cq_terms q) \<and> find_cycle ob (Some (oc_cycle r)) = Some b"
  by (auto simp: replay_succession_def split: option.splits)

lemma insert_cases:
  assumes "insert_successor digest q boundary nxt number ob = Inr (b, ob')"
  obtains (replay) r where "get_obligation_command_reservation ob (cq_class q) succession_name (cq_key q) = Some r"
      "replay_succession digest r q ob = Inr (b, ob')"
  | (fresh) r where "get_obligation_command_reservation ob (cq_class q) succession_name (cq_key q) = None"
      "\<not> cycle_taken ob (tm_ref (cq_terms q)) number" "ob' = append_cycle b [r] ob"
      "b = \<lparr>bc_id = next_cycle_id ob, bc_class = cq_class q, bc_ref = tm_ref (cq_terms q), bc_number = number,
         bc_policy = tm_policy (cq_terms q), bc_version = tm_version (cq_terms q), bc_boundary = boundary,
         bc_next = Some nxt, bc_grace = tm_grace (cq_terms q)\<rparr>"
      "r = \<lparr>oc_class = cq_class q, oc_name = succession_name, oc_key = cq_key q, oc_ref = tm_ref (cq_terms q),
         oc_fingerprint = digest (cq_terms q), oc_version = succession_version, oc_cycle = bc_id b\<rparr>"
proof (cases "get_obligation_command_reservation ob (cq_class q) succession_name (cq_key q)")
  case None
  with assms have "\<not> cycle_taken ob (tm_ref (cq_terms q)) number" by (auto simp: insert_successor_def Let_def)
  with None assms show thesis by (intro fresh) (auto simp: insert_successor_def Let_def)
next
  case (Some r)
  with assms have "replay_succession digest r q ob = Inr (b, ob')" by (simp add: insert_successor_def Let_def)
  with Some show thesis by (rule replay)
qed

text \<open>The position a succession derives: the class's own lineage, not terminal, and due.\<close>

lemma eligibility_cases:
  assumes "get_succession_eligibility env ob c ref (Some now) = Inr (el, latest)" "el \<noteq> TERMINAL" "el \<noteq> NOT_DUE"
  obtains (empty_lineage) "latest = None" "class_cycles ob c ref = []"
  | (due) b p where "latest = Some b" "first_row (newest_first bc_number (class_cycles ob c ref)) = Some b" "bc_next b \<noteq> None"
      "get_assessment_point env ob b = Inr (Some p)" "p \<le> now"
proof (cases "first_row (newest_first bc_number (class_cycles ob c ref))")
  case None
  then have "class_cycles ob c ref = []" by (simp add: first_row_newest split: if_splits)
  with None assms(1) show thesis by (intro empty_lineage) (auto simp: get_succession_eligibility_def)
next
  case (Some b)
  with assms have nt: "bc_next b \<noteq> None" by (auto simp: get_succession_eligibility_def split: if_splits)
  with Some assms(1) obtain p n l where p: "class_now env c (Some now) = Inr n" "get_assessment_point env ob b = Inr (Some p)"
    "obl_later_than env c p n = Inr l" "(if l then NOT_DUE else DUE) = el" "latest = Some b"
    by (auto simp: get_succession_eligibility_def res_simps split: option.splits)
  from p(3,4) assms(3) class_now_value [OF p(1)] have "p \<le> now" by (auto dest!: obl_later_than_value split: if_splits)
  with p Some nt show thesis by (intro due) auto
qed

lemma schedule_cases:
  assumes "schedule_next_bill_cycle env digest race q ob = Inr (b, ob')"
  obtains (replay) r where "validate_identity q = Inr ()"
      "get_obligation_command_reservation ob (cq_class q) succession_name (cq_key q) = Some r"
      "replay_succession digest r q ob = Inr (b, ob')"
  | (insert) now boundary nxt latest el where "validate_identity q = Inr ()" "class_now env (cq_class q) (cq_reference q) = Inr now"
      "get_obligation_command_reservation ob (cq_class q) succession_name (cq_key q) = None"
      "tm_boundary (cq_terms q) = Some boundary" "tm_next (cq_terms q) = Some nxt" "boundary < nxt"
      "get_succession_eligibility env ob (cq_class q) (tm_ref (cq_terms q)) (Some now) = Inr (el, latest)"
      "el \<noteq> TERMINAL" "el \<noteq> NOT_DUE"
      "insert_successor digest q boundary nxt (case latest of None \<Rightarrow> 1 | Some b \<Rightarrow> bc_number b + 1) (race ob) = Inr (b, ob')"
proof (cases "get_obligation_command_reservation ob (cq_class q) succession_name (cq_key q)")
  case None
  with assms obtain now boundary nxt ordered el latest where *: "validate_identity q = Inr ()"
    "class_now env (cq_class q) (cq_reference q) = Inr now"
    "tm_boundary (cq_terms q) = Some boundary" "tm_next (cq_terms q) = Some nxt"
    "obl_later_than env (cq_class q) nxt boundary = Inr ordered" "ordered"
    "get_succession_eligibility env ob (cq_class q) (tm_ref (cq_terms q)) (Some now) = Inr (el, latest)"
    "el \<noteq> TERMINAL" "el \<noteq> NOT_DUE"
    "insert_successor digest q boundary nxt (case latest of None \<Rightarrow> 1 | Some b \<Rightarrow> bc_number b + 1) (race ob) = Inr (b, ob')"
    unfolding schedule_next_bill_cycle_def by (fastforce simp: res_simps split: option.splits if_splits)
  show thesis using insert [OF *(1,2) None *(3,4) _ *(7-10)] obl_later_than_value [OF *(5)] *(6) by simp
next
  case (Some r)
  with assms show thesis by (intro replay) (auto simp: schedule_next_bill_cycle_def res_simps)
qed

lemma terminate_cases:
  assumes "terminate_bill_cycle env race now c ref termination_at reference ob = Inr (b, ob')"
  obtains (already) "get_latest_bill_cycle ob ref = Some b" "bc_class b = c" "bc_next b = None" "ob' = ob"
  | (ends) latest instant ob1 where "get_latest_bill_cycle ob ref = Some latest" "bc_class latest = c" "bc_next latest \<noteq> None"
      "(case termination_at of Some t \<Rightarrow> Inr (Some t) | None \<Rightarrow> get_stop_renewal_instant env ob c ref reference) = Inr (Some instant)"
      "withdraw_untouched env race now c reference (concat (map (cycle_assessments ob) (scheduled_after ob c ref instant))) ob = Inr ob1"
      "b = terminal_cycle latest instant (race ob1)" "\<not> cycle_taken (race ob1) (bc_ref b) (bc_number b)" "ob' = append_cycle b [] (race ob1)"
  using assms by (auto simp: terminate_bill_cycle_def res_simps Let_def split: option.splits if_splits)

end
