(* ===== verification/Obligation_History.thy ===== *)
theory Obligation_History
  imports Obligation_Run
begin

text \<open>
  Histories of the Obligations domain and what they keep: each writer preserves the invariant, so every history
  does, and every history only adds rows.
\<close>

section \<open>Each writer keeps the invariant\<close>

lemma obligations_okD: "obligations_ok digest ob \<Longrightarrow> events_ok ob" "obligations_ok digest ob \<Longrightarrow> cycles_ok ob"
  "obligations_ok digest ob \<Longrightarrow> commands_ok digest ob"
  by (simp_all add: obligations_ok_def)

lemma append_event_ok: "obligations_ok digest ob \<Longrightarrow> events_ok (append_event e ob) \<Longrightarrow> obligations_ok digest (append_event e ob)"
  by (auto simp: obligations_ok_def cycles_ok_def intro: commands_ok_grow [where bs = "[]"])

lemma assess_ok:
  assumes "assess_obligation race now q ob = Inr (e, ob')" "obligations_ok digest ob" "obligations_ok digest (race ob)"
  shows "obligations_ok digest ob'"
  using assms(1)
proof (cases rule: assess_cases)
  case fresh
  have "events_ok (append_event e (race ob))"
    using obligations_okD(1) [OF assms(3)] fresh(1,2) by (intro events_ok_append) (simp_all add: assessment_row_def)
  then show ?thesis using append_event_ok [OF assms(3)] fresh(3) by simp
qed (use assms in auto)

lemma lineage_row_fields [simp]:
  "oe_id (lineage_row now k tx notes a ob) = next_event_row_id ob" "oe_kind (lineage_row now k tx notes a ob) = k"
  "oe_corr (lineage_row now k tx notes a ob) = oe_corr a" "oe_tx (lineage_row now k tx notes a ob) = tx"
  "oe_type (lineage_row now k tx notes a ob) = oe_type a" "oe_seat (lineage_row now k tx notes a ob) = oe_seat a"
  "oe_class (lineage_row now k tx notes a ob) = oe_class a" "oe_cycle (lineage_row now k tx notes a ob) = oe_cycle a"
  "oe_time (lineage_row now k tx notes a ob) = now" "of_lineage a (lineage_row now k tx notes a ob)"
  by (simp_all add: lineage_row_def of_lineage_def)

abbreviation satisfied_by :: "satisfy_request \<Rightarrow> event_kind" where
  "satisfied_by q \<equiv> (if sq_payment q then PAYMENT else WAIVED)"

lemma satisfy_ok:
  assumes "satisfy_obligation race now q ob = Inr (e, ob')" "obligations_ok digest ob" "obligations_ok digest (race ob)"
    and "obl_extends ob (race ob)" "quiet_for (satisfied_by q) (sq_corr q) (sq_tx q) ob (race ob)"
  shows "obligations_ok digest ob'"
  using assms(1)
proof (cases rule: satisfy_cases)
  case (fresh a k)
  note a = assessment_SomeD [OF fresh(1)] and quiet = quiet_reads [OF assms(4,5)]
  have "events_ok (append_event e (race ob))"
    using obligations_okD(1) [OF assms(3)] fresh a quiet
    by (intro events_ok_append) (auto split: if_splits)
  then show ?thesis using append_event_ok [OF assms(3)] fresh(9) by simp
qed (use assms in auto)

lemma withdraw_ok:
  assumes "withdraw_assessment env race now c corr reference notes ob = Inr (e, ob')" "obligations_ok digest ob"
    and "obligations_ok digest (race ob)" "obl_extends ob (race ob)" "quiet_for WITHDRAWN corr None ob (race ob)"
  shows "obligations_ok digest ob'"
  using assms(1)
proof (cases rule: withdraw_cases)
  case (fresh a b cancelling)
  note a = assessment_SomeD [OF fresh(1)] and quiet = quiet_reads [OF assms(4,5)]
  have "events_ok (append_event e (race ob))"
    using obligations_okD(1) [OF assms(3)] fresh a quiet by (intro events_ok_append) auto
  then show ?thesis using append_event_ok [OF assms(3)] fresh(9) by simp
qed (use assms in auto)

lemma withdraw_untouched_keeps:
  assumes "withdraw_untouched env race now c reference as ob = Inr ob'" "P ob"
    and "\<And>a ob1 e ob2. a \<in> set as \<Longrightarrow> P ob1 \<Longrightarrow> get_satisfaction_events ob1 (oe_corr a) = [] \<Longrightarrow>
      withdraw_assessment env race now c (oe_corr a) reference (Some ''Renewal ended before this period began'') ob1 = Inr (e, ob2)
      \<Longrightarrow> P ob2"
  shows "P ob'"
  using assms
proof (induction as arbitrary: ob)
  case (Cons a as)
  show ?case
  proof (cases "get_satisfaction_events ob (oe_corr a) = []")
    case False
    with Cons.prems(1) have "withdraw_untouched env race now c reference as ob = Inr ob'" by simp
    then show ?thesis using Cons.IH Cons.prems(2,3) by (meson list.set_intros(2))
  next
    case True
    with Cons.prems(1) obtain e ob1 where s:
      "withdraw_assessment env race now c (oe_corr a) reference (Some ''Renewal ended before this period began'') ob = Inr (e, ob1)"
      "withdraw_untouched env race now c reference as ob1 = Inr ob'" by (auto simp: res_simps)
    have "P ob1" using Cons.prems(3) [OF _ Cons.prems(2) True s(1)] by simp
    then show ?thesis using Cons.IH [OF s(2)] Cons.prems(3) by (meson list.set_intros(2))
  qed
qed simp

lemma withdraw_extends:
  "withdraw_assessment env race now c corr reference notes ob = Inr (e, ob') \<Longrightarrow> obl_extends ob (race ob) \<Longrightarrow> obl_extends ob ob'"
  by (cases rule: withdraw_cases; assumption?) (auto intro: obl_extends_trans)

text \<open>What a termination assumes of the sessions it runs beside: each is lawful, and none clashes with its withdrawals.\<close>

definition races_lawfully :: "(succession_terms \<Rightarrow> 'h) \<Rightarrow> ('h obligations \<Rightarrow> 'h obligations) \<Rightarrow> bool" where
  "races_lawfully digest race \<longleftrightarrow>
     (\<forall>ob. obligations_ok digest ob \<longrightarrow> obligations_ok digest (race ob) \<and> obl_extends ob (race ob))"

definition withdrawals_quiet :: "('h obligations \<Rightarrow> 'h obligations) \<Rightarrow> class_id \<Rightarrow> string \<Rightarrow> 'h obligations \<Rightarrow> bool" where
  "withdrawals_quiet race c ref ob \<longleftrightarrow> (\<forall>x. \<forall>b \<in> set (class_cycles ob c ref). \<forall>a \<in> set (cycle_assessments ob b).
     quiet_for WITHDRAWN (oe_corr a) None x (race x))"

lemma no_race [simp]: "races_lawfully digest (\<lambda>ob. ob)" "withdrawals_quiet (\<lambda>ob. ob) c ref ob"
  by (simp_all add: races_lawfully_def withdrawals_quiet_def)

lemma races_lawfullyD:
  assumes "races_lawfully digest race" "obligations_ok digest ob"
  shows "obligations_ok digest (race ob)" "obl_extends ob (race ob)"
  using assms by (simp_all add: races_lawfully_def)

text \<open>A fact \<open>Q\<close> that the races and new events leave alone survives the withdrawals.\<close>

lemma withdraw_untouched_ok:
  assumes "withdraw_untouched env race now c reference (concat (map (cycle_assessments ob) (scheduled_after ob c ref instant))) ob = Inr ob1"
    and "obligations_ok digest ob" "races_lawfully digest race" "withdrawals_quiet race c ref ob"
    and "\<forall>x. obligations_ok digest x \<and> Q x \<longrightarrow> Q (race x)" "\<forall>x e. Q x \<longrightarrow> Q (append_event e x)" "Q ob"
  shows "obligations_ok digest ob1 \<and> obl_extends ob ob1 \<and> Q ob1"
proof (rule withdraw_untouched_keeps [OF assms(1)])
  fix a x e y
  assume a: "a \<in> set (concat (map (cycle_assessments ob) (scheduled_after ob c ref instant)))"
    and x: "obligations_ok digest x \<and> obl_extends ob x \<and> Q x"
    and w: "withdraw_assessment env race now c (oe_corr a) reference (Some ''Renewal ended before this period began'') x = Inr (e, y)"
  note race = races_lawfullyD [OF assms(3) conjunct1 [OF x]]
  have "quiet_for WITHDRAWN (oe_corr a) None x (race x)"
    using a assms(4) by (auto simp: withdrawals_quiet_def scheduled_after_def)
  then have "obligations_ok digest y \<and> obl_extends ob y"
    using withdraw_ok [OF w conjunct1 [OF x] race] withdraw_extends [OF w race(2)] x obl_extends_trans by blast
  moreover have "Q y" using w by (cases rule: withdraw_cases) (use assms(5,6) x in auto)
  ultimately show "obligations_ok digest y \<and> obl_extends ob y \<and> Q y" by simp
qed (use assms(2,7) in simp)

lemma terminal_cycle_fields [simp]:
  "bc_id (terminal_cycle b i ob) = next_cycle_id ob" "bc_next (terminal_cycle b i ob) = None"
  "bc_ref (terminal_cycle b i ob) = bc_ref b" "bc_class (terminal_cycle b i ob) = bc_class b"
  "bc_number (terminal_cycle b i ob) = bc_number b + 1" "bc_boundary (terminal_cycle b i ob) = i"
  by (simp_all add: terminal_cycle_def)

lemma last_lineage_ref: "lineage ob ref \<noteq> [] \<Longrightarrow> bc_ref (last (lineage ob ref)) = ref"
  using last_in_set [of "lineage ob ref"] by (auto simp: lineage_def)

text \<open>If the position after the latest cycle is still free, no session added a cycle to the lineage.\<close>

lemma free_position:
  assumes "cycles_ok ob" "cycles_ok ob1" "obl_extends ob ob1" "lineage ob ref \<noteq> []"
    and "\<not> cycle_taken ob1 ref (bc_number (last (lineage ob ref)) + 1)"
  shows "lineage ob1 ref = lineage ob ref"
proof -
  obtain bs where "ob_cycles ob1 = ob_cycles ob @ bs" using assms(3) by (auto simp: obl_extends_def)
  then obtain es where ext: "lineage ob1 ref = lineage ob ref @ es" by (auto simp: lineage_def)
  have "lineage_ok (lineage ob ref)" using assms(1) by (simp add: cycles_ok_def)
  then have "bc_number (last (lineage ob ref)) = int (length (lineage ob ref))" using last_number assms(4) by blast
  with assms(5) have "es = []" by (cases es) (auto simp: cycle_taken_lineage [OF assms(2)] ext)
  then show ?thesis by (simp add: ext)
qed

lemma terminate_lineages:
  assumes "terminate_bill_cycle env race now c ref termination_at reference ob = Inr (b, ob')" "obligations_ok digest ob"
    and "races_lawfully digest race" "withdrawals_quiet race c ref ob"
    and "\<forall>x. obligations_ok digest x \<and> Q x \<longrightarrow> Q (race x)" "\<forall>x e. Q x \<longrightarrow> Q (append_event e x)" "Q ob"
  obtains (already) "get_latest_bill_cycle ob ref = Some b" "bc_class b = c" "bc_next b = None" "ob' = ob"
  | (ends) latest instant ob2 where "latest = last (lineage ob ref)" "lineage ob ref \<noteq> []" "bc_class latest = c" "bc_next latest \<noteq> None"
      "obligations_ok digest ob2" "obl_extends ob ob2" "lineage ob2 ref = lineage ob ref" "bc_ref latest = ref"
      "b = terminal_cycle latest instant ob2" "ob' = append_cycle b [] ob2" "Q ob2"
  using assms(1)
proof (cases rule: terminate_cases)
  case (ends latest instant ob1)
  note ok1 = withdraw_untouched_ok [where Q = Q, OF ends(5) assms(2-7)]
  note ok2 = races_lawfullyD [OF assms(3) conjunct1 [OF ok1]]
  have ext: "obl_extends ob (race ob1)" using ok1 ok2(2) obl_extends_trans by blast
  have last: "lineage ob ref \<noteq> []" "latest = last (lineage ob ref)"
    using ends(1) latest_bill_cycle [OF obligations_okD(2) [OF assms(2)], of ref] by (auto split: if_splits)
  have ref: "bc_ref latest = ref" using last last_lineage_ref by simp
  have "lineage (race ob1) ref = lineage ob ref"
    using free_position [OF obligations_okD(2) [OF assms(2)] obligations_okD(2) [OF ok2(1)] ext last(1)] ends(7) last(2) ref
    by (simp add: ends(6))
  moreover have "Q (race ob1)" using ok1 assms(5) by blast
  ultimately show thesis using that(2) [OF last(2,1) ends(2,3) ok2(1) ext _ ref ends(6,8)] by blast
qed (rule that(1))

lemma nothing_stays:
  "\<forall>x. obligations_ok digest x \<and> True \<longrightarrow> True" "\<forall>x :: 'h obligations. \<forall>e :: obl_event. True \<longrightarrow> True" "True"
  by simp_all

lemma terminate_ok:
  assumes "terminate_bill_cycle env race now c ref termination_at reference ob = Inr (b, ob')" "obligations_ok digest ob"
    and "races_lawfully digest race" "withdrawals_quiet race c ref ob"
  shows "obligations_ok digest ob' \<and> obl_extends ob ob'"
  using assms nothing_stays
proof (cases rule: terminate_lineages [where Q = "\<lambda>x. True"])
  case (ends latest instant ob2)
  have lok: "lineage_ok (lineage ob ref)" using obligations_okD(2) [OF assms(2)] by (simp add: cycles_ok_def)
  have "lineage_ok (lineage ob2 (bc_ref b) @ [b])"
    using ends(1-4,7,8) last_number [OF lok ends(2)]
    by (auto simp: ends(9) intro!: lineage_ok_snoc [OF lok])
  then have "cycles_ok (append_cycle b [] ob2)"
    using cycles_ok_append [OF obligations_okD(2) [OF ends(5)]] by (simp add: ends(9))
  then show ?thesis
    using ends(5,6) commands_ok_grow [of digest ob2 "append_cycle b [] ob2" "[b]"] events_ok_cong [of "append_cycle b [] ob2" ob2]
      obl_extends_trans [OF ends(6) obl_extends_append(2)]
    by (simp add: obligations_ok_def ends(10))
qed (use assms(2) in simp)

text \<open>
  The position derived before the race is still the next one after it, or it is taken.
\<close>

lemma insert_position:
  assumes "get_succession_eligibility env ob c ref (Some now) = Inr (el, latest)" "el \<noteq> TERMINAL" "el \<noteq> NOT_DUE"
    and "cycles_ok ob" "cycles_ok ob1" "obl_extends ob ob1"
    and "\<not> cycle_taken ob1 ref (case latest of None \<Rightarrow> 1 | Some b \<Rightarrow> bc_number b + 1)"
  shows "(case latest of None \<Rightarrow> 1 | Some b \<Rightarrow> bc_number b + 1) = int (Suc (length (lineage ob1 ref)))"
    "lineage ob1 ref \<noteq> [] \<Longrightarrow> bc_class (last (lineage ob1 ref)) = c \<and> bc_next (last (lineage ob1 ref)) \<noteq> None"
proof -
  obtain bs where "ob_cycles ob1 = ob_cycles ob @ bs" using assms(6) by (auto simp: obl_extends_def)
  then obtain es where ext: "lineage ob1 ref = lineage ob ref @ es" by (auto simp: lineage_def)
  have both: "(case latest of None \<Rightarrow> 1 | Some b \<Rightarrow> bc_number b + 1) = int (Suc (length (lineage ob1 ref)))
    \<and> (lineage ob1 ref \<noteq> [] \<longrightarrow> bc_class (last (lineage ob1 ref)) = c \<and> bc_next (last (lineage ob1 ref)) \<noteq> None)"
    using assms(1-3)
  proof (cases rule: eligibility_cases)
    case empty_lineage
    with assms(7) have "lineage ob1 ref = []" by (cases "lineage ob1 ref") (auto simp: cycle_taken_lineage [OF assms(5)])
    then show ?thesis using empty_lineage by simp
  next
    case (due b p)
    have ne: "class_cycles ob c ref = lineage ob ref" "lineage ob ref \<noteq> []" "bc_class (last (lineage ob ref)) = c"
      using due(2) class_cycles_lineage [OF assms(4), of c ref] by (auto simp: first_row_newest split: if_splits)
    have lok: "lineage_ok (lineage ob ref)" using assms(4) by (simp add: cycles_ok_def)
    have b: "b = last (lineage ob ref)" using due(2) ne newest_lineage [OF lok] by simp
    then have n: "bc_number b = int (length (lineage ob ref))" using last_number [OF lok ne(2)] by simp
    have "es = []" using assms(7) due(1) n by (cases es) (auto simp: cycle_taken_lineage [OF assms(5)] ext)
    then show ?thesis using due(1,3) n ne(3) b by (simp add: ext)
  qed
  then show "(case latest of None \<Rightarrow> 1 | Some b \<Rightarrow> bc_number b + 1) = int (Suc (length (lineage ob1 ref)))"
    "lineage ob1 ref \<noteq> [] \<Longrightarrow> bc_class (last (lineage ob1 ref)) = c \<and> bc_next (last (lineage ob1 ref)) \<noteq> None" by simp_all
qed

lemma schedule_ok:
  assumes "schedule_next_bill_cycle env digest race q ob = Inr (b, ob')" "obligations_ok digest ob"
    and "obligations_ok digest (race ob)" "obl_extends ob (race ob)"
  shows "obligations_ok digest ob'"
  using assms(1)
proof (cases rule: schedule_cases)
  case (replay r)
  then show ?thesis using assms(2) by (simp add: replay_succession_Inr)
next
  case (insert now boundary nxt latest el)
  from insert(10) show ?thesis
  proof (cases rule: insert_cases)
    case (replay r)
    then show ?thesis using assms(3) by (simp add: replay_succession_Inr)
  next
    case (fresh r)
    note pos = insert_position [OF insert(7-9) obligations_okD(2) [OF assms(2)] obligations_okD(2) [OF assms(3)] assms(4) fresh(2)]
    have "lineage_ok (lineage (race ob) (bc_ref b) @ [b])"
      using obligations_okD(2) [OF assms(3)] pos insert(6) fresh(4)
      by (intro lineage_ok_snoc) (auto simp: cycles_ok_def)
    then have cyc: "cycles_ok (append_cycle b [r] (race ob))"
      using cycles_ok_append [OF obligations_okD(2) [OF assms(3)]] fresh(4) by simp
    have "digest (cycle_terms b) = digest (cq_terms q)"
      using insert(4,5) fresh(4) by (cases "cq_terms q") (simp add: cycle_terms_def)
    then have "commands_ok digest (append_cycle b [r] (race ob))"
      using commands_ok_new [OF obligations_okD(3) [OF assms(3)] cyc] fresh(1,4,5) by simp
    then show ?thesis
      using cyc obligations_okD(1) [OF assms(3)] events_ok_cong [of "append_cycle b [r] (race ob)" "race ob"]
      by (simp add: obligations_ok_def fresh(3))
  qed
qed

section \<open>Histories\<close>

text \<open>
  The writers in any order. Between its reads and its insert each writer is raced by a history of its own; for a
  satisfaction or a withdrawal, which neither lock nor constraint protects, the race must not clash with it.
\<close>

text \<open>Policy submissions only add versions, and may take an old one out of use.\<close>

definition policies_saved :: "'h obligations \<Rightarrow> 'h obligations \<Rightarrow> bool" where
  "policies_saved ob ob' = (obl_extends ob ob' \<and> ob_events ob' = ob_events ob \<and> ob_cycles ob' = ob_cycles ob
     \<and> ob_commands ob' = ob_commands ob)"

inductive obl_history :: "(succession_terms \<Rightarrow> 'h) \<Rightarrow> 'h obligations \<Rightarrow> 'h obligations \<Rightarrow> bool" for digest where
  hist_none: "obl_history digest ob ob"
| hist_assess: "obl_history digest ob ob1 \<Longrightarrow> obl_history digest ob1 (race ob1) \<Longrightarrow>
    assess_obligation race now aq ob1 = Inr (e, ob2) \<Longrightarrow> obl_history digest ob ob2"
| hist_satisfy: "obl_history digest ob ob1 \<Longrightarrow> obl_history digest ob1 (race ob1) \<Longrightarrow>
    quiet_for (satisfied_by sq) (sq_corr sq) (sq_tx sq) ob1 (race ob1) \<Longrightarrow>
    satisfy_obligation race now sq ob1 = Inr (e, ob2) \<Longrightarrow> obl_history digest ob ob2"
| hist_withdraw: "obl_history digest ob ob1 \<Longrightarrow> obl_history digest ob1 (race ob1) \<Longrightarrow>
    quiet_for WITHDRAWN corr None ob1 (race ob1) \<Longrightarrow>
    withdraw_assessment env race now c corr reference notes ob1 = Inr (e, ob2) \<Longrightarrow> obl_history digest ob ob2"
| hist_schedule: "obl_history digest ob ob1 \<Longrightarrow> obl_history digest ob1 (race ob1) \<Longrightarrow>
    schedule_next_bill_cycle env digest race q ob1 = Inr (b, ob2) \<Longrightarrow> obl_history digest ob ob2"
| hist_terminate: "obl_history digest ob ob1 \<Longrightarrow> (\<And>x. obl_history digest x (race x)) \<Longrightarrow> withdrawals_quiet race c ref ob1 \<Longrightarrow>
    terminate_bill_cycle env race now c ref at_instant reference ob1 = Inr (b, ob2) \<Longrightarrow> obl_history digest ob ob2"
| hist_policies: "obl_history digest ob ob1 \<Longrightarrow> policies_saved ob1 ob2 \<Longrightarrow> obl_history digest ob ob2"

lemma policies_saved_ok:
  assumes "policies_saved ob ob'" "obligations_ok digest ob"
  shows "obligations_ok digest ob'"
proof -
  have "events_ok ob'" using assms events_ok_cong [of ob' ob] by (simp add: policies_saved_def obligations_ok_def)
  moreover have "cycles_ok ob'" using assms by (simp add: policies_saved_def obligations_ok_def cycles_ok_def lineage_def)
  moreover have "commands_ok digest ob'"
    by (rule commands_ok_grow [where bs = "[]" and ob = ob]) (use assms in \<open>simp_all add: policies_saved_def obligations_ok_def\<close>)
  ultimately show ?thesis by (simp add: obligations_ok_def)
qed

lemma assess_extends:
  "assess_obligation race now q ob = Inr (e, ob') \<Longrightarrow> obl_extends ob (race ob) \<Longrightarrow> obl_extends ob ob'"
  by (cases rule: assess_cases; assumption?) (auto intro: obl_extends_trans)

lemma schedule_extends:
  assumes "schedule_next_bill_cycle env digest race q ob = Inr (b, ob')" "obl_extends ob (race ob)"
  shows "obl_extends ob ob'"
  using assms(1)
proof (cases rule: schedule_cases)
  case (insert now boundary nxt latest el)
  from insert(10) show ?thesis
    by (cases rule: insert_cases) (use assms(2) in \<open>auto simp: replay_succession_Inr intro: obl_extends_trans\<close>)
qed (auto simp: replay_succession_Inr)

lemma satisfy_extends: "satisfy_obligation race now q ob = Inr (e, ob') \<Longrightarrow> obl_extends ob (race ob) \<Longrightarrow> obl_extends ob ob'"
  by (cases rule: satisfy_cases; assumption?) (auto intro: obl_extends_trans)

lemma history_keeps:
  "obl_history digest ob ob' \<Longrightarrow> obligations_ok digest ob \<Longrightarrow> obligations_ok digest ob' \<and> obl_extends ob ob'"
proof (induction rule: obl_history.induct)
  case (hist_assess ob ob1 race now aq e ob2)
  then show ?case using assess_ok assess_extends obl_extends_trans by blast
next
  case (hist_satisfy ob ob1 race sq now e ob2)
  then show ?case using satisfy_ok satisfy_extends obl_extends_trans by blast
next
  case (hist_withdraw ob ob1 race corr env now c reference nts e ob2)
  then have ok: "obligations_ok digest ob1" "obligations_ok digest (race ob1)" "obl_extends ob1 (race ob1)" "obl_extends ob ob1" by auto
  show ?case using withdraw_ok [OF hist_withdraw.hyps(4) ok(1-3) hist_withdraw.hyps(3)]
      withdraw_extends [OF hist_withdraw.hyps(4) ok(3)] ok(4) obl_extends_trans by blast
next
  case (hist_schedule ob ob1 race env q b ob2)
  then show ?case using schedule_ok schedule_extends obl_extends_trans by blast
next
  case (hist_terminate ob ob1 race c ref env now at_instant reference b ob2)
  then have "races_lawfully digest race" by (simp add: races_lawfully_def)
  then show ?case using terminate_ok [OF hist_terminate.hyps(4)] hist_terminate obl_extends_trans by blast
next
  case (hist_policies ob ob1 ob2)
  then show ?case using policies_saved_ok obl_extends_trans unfolding policies_saved_def by blast
qed simp

definition empty_obligations :: "rent_policy list \<Rightarrow> insurance_policy list \<Rightarrow> 'h obligations" where
  "empty_obligations rents insurance =
     \<lparr>ob_events = [], ob_cycles = [], ob_commands = [], ob_rents = rents, ob_insurance = insurance\<rparr>"

lemma empty_obligations_ok: "obligations_ok digest (empty_obligations rents insurance)"
  by (simp add: obligations_ok_def events_ok_def cycles_ok_def commands_ok_def lineage_def lineage_ok_def
      empty_obligations_def)

end
