(* ===== verification/Obligation_Claims.thy ===== *)
theory Obligation_Claims
  imports Obligation_History Attendance_Claims
begin

text \<open>
  Two properties of the Obligations domain over every history of its writers: its records stay lawful, and a lineage that
  was terminated stays ended; with a worked example of a class, one lineage and its bills.
\<close>

section \<open>A worked lineage\<close>

definition example_rent :: rent_policy where
  "example_rent = \<lparr>rp_id = 1, rp_uuid = ''r1'', rp_class = ''c1'', rp_in_use = True, rp_configured = 0, rp_amount = Some 5000,
     rp_frequency = Some ''monthly'', rp_custom_value = None, rp_custom_unit = None, rp_first_due = None, rp_due_day = Some 1,
     rp_grace_days = Some 3, rp_penalty = Some 1000, rp_penalty_type = Some ''once'', rp_penalty_days = None,
     rp_preview_enabled = True, rp_preview_days = Some 7, rp_incremental = False\<rparr>"

definition obl_after :: "obl_error + ('a \<times> 'h obligations) \<Rightarrow> 'h obligations" where
  "obl_after m = (case m of Inr (x, ob) \<Rightarrow> ob | Inl e \<Rightarrow> empty_obligations [] [])"

lemma obl_after_Inr: "\<not> isl m \<Longrightarrow> \<exists>x. m = Inr (x, obl_after m)"
  by (cases m) (auto simp: obl_after_def)

definition example_succession :: "string \<Rightarrow> date \<Rightarrow> date \<Rightarrow> succession_request" where
  "example_succession key d d' = \<lparr>cq_class = ''c1'', cq_terms = \<lparr>tm_ref = ''rent:c1'', tm_policy = Some ''r1'', tm_version = None,
     tm_boundary = Some (combine d 0), tm_next = Some (combine d' 0), tm_grace = None\<rparr>, cq_key = key,
     cq_reference = Some (combine d 0)\<rparr>"

definition example_assessment :: "string \<Rightarrow> nat \<Rightarrow> assessment_request" where
  "example_assessment corr cycle = \<lparr>aq_seat = 7, aq_class = ''c1'', aq_ref = ''rent:c1:7'', aq_corr = corr, aq_type = ''RENT'',
     aq_policy = Some ''r1'', aq_cycle = Some cycle, aq_source = None\<rparr>"

definition obl0 :: "succession_terms obligations" where "obl0 = empty_obligations [example_rent] []"

definition obl1 :: "succession_terms obligations" where
  "obl1 = obl_after (schedule_next_bill_cycle payroll_env (\<lambda>x. x) (\<lambda>x. x) (example_succession ''k1'' (Date 2026 9 1) (Date 2026 10 1)) obl0)"

definition obl2 :: "succession_terms obligations" where
  "obl2 = obl_after (assess_obligation (\<lambda>x. x) 1 (example_assessment ''a1'' 1) obl1)"

definition obl3 :: "succession_terms obligations" where
  "obl3 = obl_after (satisfy_obligation (\<lambda>x. x) 2 \<lparr>sq_corr = ''a1'', sq_class = ''c1'', sq_seat = 7, sq_payment = True, sq_tx = Some 5,
     sq_notes = None\<rparr> obl2)"

definition obl4 :: "succession_terms obligations" where
  "obl4 = obl_after (schedule_next_bill_cycle payroll_env (\<lambda>x. x) (\<lambda>x. x)
     ((example_succession ''k2'' (Date 2026 10 1) (Date 2026 11 1))\<lparr>cq_reference := Some (combine (Date 2026 9 25) 0)\<rparr>) obl3)"

definition obl5 :: "succession_terms obligations" where
  "obl5 = obl_after (assess_obligation (\<lambda>x. x) 3 (example_assessment ''a2'' 2) obl4)"

definition example_end :: "obl_error + (bill_cycle \<times> succession_terms obligations)" where
  "example_end = terminate_bill_cycle payroll_env (\<lambda>x. x) 4 ''c1'' ''rent:c1'' None (Some (combine (Date 2026 9 26) 0)) obl5"

text \<open>The states of the example, so that later ones are not computed from the start again.\<close>

definition example_obl_row :: "nat \<Rightarrow> string \<Rightarrow> event_kind \<Rightarrow> string option \<Rightarrow> int \<Rightarrow> nat \<Rightarrow> nat option \<Rightarrow> obl_event" where
  "example_obl_row i corr k policy t cycle tx = \<lparr>oe_id = i, oe_seat = 7, oe_class = ''c1'', oe_ref = ''rent:c1:7'', oe_corr = corr,
     oe_source = None, oe_kind = k, oe_type = ''RENT'', oe_policy = policy, oe_time = t, oe_cycle = Some cycle, oe_tx = tx,
     oe_notes = None\<rparr>"

definition example_bill_cycle :: "nat \<Rightarrow> int \<Rightarrow> int \<Rightarrow> bill_cycle" where
  "example_bill_cycle n boundary nxt = \<lparr>bc_id = n, bc_class = ''c1'', bc_ref = ''rent:c1'', bc_number = int n, bc_policy = Some ''r1'',
     bc_version = None, bc_boundary = boundary, bc_next = Some nxt, bc_grace = None\<rparr>"

definition example_succession_row :: "string \<Rightarrow> nat \<Rightarrow> int \<Rightarrow> int \<Rightarrow> succession_terms obl_command" where
  "example_succession_row key n boundary nxt = \<lparr>oc_class = ''c1'', oc_name = succession_name, oc_key = key, oc_ref = ''rent:c1'',
     oc_fingerprint = cycle_terms (example_bill_cycle n boundary nxt), oc_version = 1, oc_cycle = n\<rparr>"

lemma obl1_value [code]: "obl1 = \<lparr>ob_events = [],
     ob_cycles = [example_bill_cycle 1 63923817600000000 63926409600000000],
     ob_commands = [example_succession_row ''k1'' 1 63923817600000000 63926409600000000], ob_rents = [example_rent], ob_insurance = []\<rparr>"
  by code_simp

lemma obl2_value [code]: "obl2 = \<lparr>ob_events = [example_obl_row 1 ''a1'' ASSESSMENT (Some ''r1'') 1 1 None],
     ob_cycles = [example_bill_cycle 1 63923817600000000 63926409600000000],
     ob_commands = [example_succession_row ''k1'' 1 63923817600000000 63926409600000000], ob_rents = [example_rent], ob_insurance = []\<rparr>"
  by code_simp

lemma obl3_value [code]: "obl3 = \<lparr>ob_events = [example_obl_row 1 ''a1'' ASSESSMENT (Some ''r1'') 1 1 None,
     example_obl_row 2 ''a1'' PAYMENT None 2 1 (Some 5)],
     ob_cycles = [example_bill_cycle 1 63923817600000000 63926409600000000],
     ob_commands = [example_succession_row ''k1'' 1 63923817600000000 63926409600000000], ob_rents = [example_rent], ob_insurance = []\<rparr>"
  by code_simp

lemma obl4_value [code]: "obl4 = \<lparr>ob_events = [example_obl_row 1 ''a1'' ASSESSMENT (Some ''r1'') 1 1 None,
     example_obl_row 2 ''a1'' PAYMENT None 2 1 (Some 5)],
     ob_cycles = [example_bill_cycle 1 63923817600000000 63926409600000000, example_bill_cycle 2 63926409600000000 63929088000000000],
     ob_commands = [example_succession_row ''k1'' 1 63923817600000000 63926409600000000, example_succession_row ''k2'' 2 63926409600000000 63929088000000000], ob_rents = [example_rent], ob_insurance = []\<rparr>"
  by code_simp

lemma obl5_value [code]: "obl5 = \<lparr>ob_events = [example_obl_row 1 ''a1'' ASSESSMENT (Some ''r1'') 1 1 None,
     example_obl_row 2 ''a1'' PAYMENT None 2 1 (Some 5),
     example_obl_row 3 ''a2'' ASSESSMENT (Some ''r1'') 3 2 None],
     ob_cycles = [example_bill_cycle 1 63923817600000000 63926409600000000, example_bill_cycle 2 63926409600000000 63929088000000000],
     ob_commands = [example_succession_row ''k1'' 1 63923817600000000 63926409600000000, example_succession_row ''k2'' 2 63926409600000000 63929088000000000], ob_rents = [example_rent], ob_insurance = []\<rparr>"
  by code_simp

lemma obl1_made: "\<exists>b. schedule_next_bill_cycle payroll_env (\<lambda>x. x) (\<lambda>x. x) (example_succession ''k1'' (Date 2026 9 1) (Date 2026 10 1)) obl0 = Inr (b, obl1)"
  unfolding obl1_def by (rule obl_after_Inr) code_simp

lemma obl2_made: "\<exists>e. assess_obligation (\<lambda>x. x) 1 (example_assessment ''a1'' 1) obl1 = Inr (e, obl2)"
  unfolding obl2_def by (rule obl_after_Inr) code_simp

lemma obl3_made: "\<exists>e. satisfy_obligation (\<lambda>x. x) 2 \<lparr>sq_corr = ''a1'', sq_class = ''c1'', sq_seat = 7, sq_payment = True, sq_tx = Some 5,
     sq_notes = None\<rparr> obl2 = Inr (e, obl3)"
  unfolding obl3_def by (rule obl_after_Inr) code_simp

lemma obl4_made: "\<exists>b. schedule_next_bill_cycle payroll_env (\<lambda>x. x) (\<lambda>x. x)
     ((example_succession ''k2'' (Date 2026 10 1) (Date 2026 11 1))\<lparr>cq_reference := Some (combine (Date 2026 9 25) 0)\<rparr>) obl3 = Inr (b, obl4)"
  unfolding obl4_def by (rule obl_after_Inr) code_simp

lemma obl5_made: "\<exists>e. assess_obligation (\<lambda>x. x) 3 (example_assessment ''a2'' 2) obl4 = Inr (e, obl5)"
  unfolding obl5_def by (rule obl_after_Inr) code_simp

lemma example_end_made: "\<exists>b. example_end = Inr (b, obl_after example_end)"
  by (rule obl_after_Inr) code_simp

lemma example_obligation_history:
  "obl_history (\<lambda>x. x) obl0 obl3" "obl_history (\<lambda>x. x) obl0 obl5" "obl_history (\<lambda>x. x) obl0 (obl_after example_end)"
proof -
  note alone = hist_none [of "\<lambda>x. x :: succession_terms"]
  obtain b1 e2 e3 b4 e5 b6 where
    m: "schedule_next_bill_cycle payroll_env (\<lambda>x. x) (\<lambda>x. x) (example_succession ''k1'' (Date 2026 9 1) (Date 2026 10 1)) obl0 = Inr (b1, obl1)"
      "assess_obligation (\<lambda>x. x) 1 (example_assessment ''a1'' 1) obl1 = Inr (e2, obl2)"
      "satisfy_obligation (\<lambda>x. x) 2 \<lparr>sq_corr = ''a1'', sq_class = ''c1'', sq_seat = 7, sq_payment = True, sq_tx = Some 5,
         sq_notes = None\<rparr> obl2 = Inr (e3, obl3)"
      "schedule_next_bill_cycle payroll_env (\<lambda>x. x) (\<lambda>x. x)
         ((example_succession ''k2'' (Date 2026 10 1) (Date 2026 11 1))\<lparr>cq_reference := Some (combine (Date 2026 9 25) 0)\<rparr>) obl3 = Inr (b4, obl4)"
      "assess_obligation (\<lambda>x. x) 3 (example_assessment ''a2'' 2) obl4 = Inr (e5, obl5)"
      "terminate_bill_cycle payroll_env (\<lambda>x. x) 4 ''c1'' ''rent:c1'' None (Some (combine (Date 2026 9 26) 0)) obl5 = Inr (b6, obl_after example_end)"
    using obl1_made obl2_made obl3_made obl4_made obl5_made example_end_made [unfolded example_end_def] unfolding example_end_def by blast
  note h1 = hist_schedule [where race = "\<lambda>x. x", OF alone alone m(1)]
  note h2 = hist_assess [where race = "\<lambda>x. x", OF h1 alone m(2)]
  note h3 = hist_satisfy [where race = "\<lambda>x. x", OF h2 alone quiet_for_same m(3)]
  note h4 = hist_schedule [where race = "\<lambda>x. x", OF h3 alone m(4)]
  note h5 = hist_assess [where race = "\<lambda>x. x", OF h4 alone m(5)]
  show "obl_history (\<lambda>x. x) obl0 obl3" "obl_history (\<lambda>x. x) obl0 obl5" by (rule h3, rule h5)
  show "obl_history (\<lambda>x. x) obl0 (obl_after example_end)" by (rule hist_terminate [where race = "\<lambda>x. x", OF h5 alone no_race(2) m(6)])
qed

lemma example_later: "obl_history (\<lambda>x. x) obl3 (obl_after example_end)"
proof -
  obtain b4 e5 b6 where m: "schedule_next_bill_cycle payroll_env (\<lambda>x. x) (\<lambda>x. x)
      ((example_succession ''k2'' (Date 2026 10 1) (Date 2026 11 1))\<lparr>cq_reference := Some (combine (Date 2026 9 25) 0)\<rparr>) obl3 = Inr (b4, obl4)"
    "assess_obligation (\<lambda>x. x) 3 (example_assessment ''a2'' 2) obl4 = Inr (e5, obl5)"
    "terminate_bill_cycle payroll_env (\<lambda>x. x) 4 ''c1'' ''rent:c1'' None (Some (combine (Date 2026 9 26) 0)) obl5 = Inr (b6, obl_after example_end)"
    using obl4_made obl5_made example_end_made [unfolded example_end_def] unfolding example_end_def by blast
  note alone = hist_none [of "\<lambda>x. x :: succession_terms"]
  note h4 = hist_schedule [where race = "\<lambda>x. x", OF alone alone m(1)]
  note h5 = hist_assess [where race = "\<lambda>x. x", OF h4 alone m(2)]
  show ?thesis by (rule hist_terminate [where race = "\<lambda>x. x", OF h5 alone no_race(2) m(3)])
qed

section \<open>Lawful records\<close>

lemma obligation_records_stay_lawful_core:
  assumes "obligations_ok digest ob"
  shows "get_withdrawal_event ob corr = None \<or> get_satisfaction_events ob corr = []"
proof (cases "get_withdrawal_event ob corr")
  case (Some w)
  then have "w \<in> set (kind_rows WITHDRAWN (ob_events ob))" "oe_corr w = corr"
    by (auto simp: get_withdrawal_event_def find_Some_iff)
  then show ?thesis using obligations_okD(1) [OF assms] unfolding events_ok_def by metis
qed simp



section \<open>What concurrent sessions break\<close>

lemma raced_satisfaction:
  assumes "satisfy_obligation (\<lambda>x. x) now q ob = Inr (e, ob')" "e \<notin> set (ob_events ob)"
  obtains a where "get_assessment_for_correlation ob (sq_corr q) = Some a" "oe_corr e = sq_corr q" "oe_kind e = satisfied_by q"
    "ob' = append_event e ob" "get_withdrawal_event ob (sq_corr q) = None"
    "satisfy_obligation race t q ob =
       (let e' = lineage_row t (satisfied_by q) (if sq_payment q then sq_tx q else None) (sq_notes q) a (race ob)
        in Inr (e', append_event e' (race ob)))"
proof -
  obtain a where a: "get_assessment_for_correlation ob (sq_corr q) = Some a"
    using assms(1) by (auto simp: satisfy_obligation_def split: option.splits)
  let ?found = "if sq_payment q then get_payment_event_by_ledger ob (sq_tx q)
    else List.find (\<lambda>e. oe_corr e = sq_corr q \<and> oe_kind e = WAIVED) (ob_events ob)"
  note step = assms(1) [unfolded satisfy_obligation_def a option.case rbind_eq_Inr rguard_Inr]
  from step have g: "oe_class a = sq_class q \<and> oe_seat a = sq_seat q" "get_withdrawal_event ob (sq_corr q) = None"
    "sq_payment q \<or> oe_type a = ''RENT''" "\<not> sq_payment q \<or> (case sq_tx q of None \<Rightarrow> False | Some i \<Rightarrow> i \<noteq> 0)" by blast+
  have found: "?found = None"
  proof (cases ?found)
    case (Some x)
    with step have "e = x" by simp
    moreover have "x \<in> set (ob_events ob)"
      using Some by (auto simp: get_payment_event_by_ledger_def find_Some_iff split: if_splits option.splits)
    ultimately show ?thesis using assms(2) by simp
  qed simp
  have run: "satisfy_obligation others t' q ob =
      (let e' = lineage_row t' (satisfied_by q) (if sq_payment q then sq_tx q else None) (sq_notes q) a (others ob)
       in Inr (e', append_event e' (others ob)))" for others t'
    unfolding satisfy_obligation_def a option.case found using g by (simp add: rguard_def Let_def)
  from run [of "\<lambda>x. x" now] assms(1) show thesis
    using assessment_SomeD [OF a] by (intro that [OF a _ _ _ g(2) run]) (auto simp: Let_def)
qed

text \<open>
  Two waivers of one obligation can both be recorded. Whenever a waiver of an obligation records a new row, a second
  waiver of it that read before that row was committed also succeeds and records another: the obligation then has two
  waivers, which the command means to exclude and no constraint of the table refuses.
\<close>

theorem concurrent_waivers_are_both_recorded:
  assumes "satisfy_obligation (\<lambda>x. x) t1 q ob = Inr (e1, ob1)" "\<not> sq_payment q" "e1 \<notin> set (ob_events ob)"
  shows "\<exists>e2 ob2. satisfy_obligation (\<lambda>_. ob1) t2 q ob = Inr (e2, ob2) \<and> ob_events ob2 = ob_events ob @ [e1, e2] \<and> oe_id e1 \<noteq> oe_id e2
     \<and> oe_kind e1 = WAIVED \<and> oe_kind e2 = WAIVED \<and> oe_corr e1 = sq_corr q \<and> oe_corr e2 = sq_corr q"
proof -
  obtain a where a: "get_assessment_for_correlation ob (sq_corr q) = Some a" "oe_corr e1 = sq_corr q" "oe_kind e1 = satisfied_by q"
    "ob1 = append_event e1 ob" "satisfy_obligation (\<lambda>_. ob1) t2 q ob =
       (let e' = lineage_row t2 (satisfied_by q) (if sq_payment q then sq_tx q else None) (sq_notes q) a ob1
        in Inr (e', append_event e' ob1))"
    using raced_satisfaction [OF assms(1,3), where race = "\<lambda>_. ob1" and t = t2] by blast
  have "oe_id e1 < next_event_row_id ob1" using next_ids_fresh(1) [of e1 ob1] by (simp add: a(4))
  then show ?thesis using a assms(2) assessment_SomeD [OF a(1)] by (simp add: Let_def)
qed

definition example_waiver :: satisfy_request where
  "example_waiver = \<lparr>sq_corr = ''a1'', sq_class = ''c1'', sq_seat = 7, sq_payment = False, sq_tx = None, sq_notes = None\<rparr>"

lemma concurrent_waivers_are_both_recorded_witness:
  "\<exists>e1 e2 ob1 ob2. satisfy_obligation (\<lambda>x. x) 2 example_waiver obl2 = Inr (e1, ob1)
     \<and> satisfy_obligation (\<lambda>_. ob1) 3 example_waiver obl2 = Inr (e2, ob2) \<and> map oe_kind (ob_events ob2) = [ASSESSMENT, WAIVED, WAIVED]"
proof -
  have "case satisfy_obligation (\<lambda>x. x) 2 example_waiver obl2 of Inr (e, ob) \<Rightarrow> e \<notin> set (ob_events obl2) | Inl m \<Rightarrow> False" by code_simp
  then obtain e1 ob1 where e1: "satisfy_obligation (\<lambda>x. x) 2 example_waiver obl2 = Inr (e1, ob1)" "e1 \<notin> set (ob_events obl2)"
    by (auto split: sum.splits)
  have "map oe_kind (ob_events obl2) = [ASSESSMENT]" by code_simp
  then show ?thesis
    using concurrent_waivers_are_both_recorded [OF e1(1) _ e1(2), of 3] e1(1) by (fastforce simp: example_waiver_def)
qed

section \<open>Termination is final\<close>

lemma ended_lineage_unchanged:
  assumes "obl_history digest ob1 ob2" "obligations_ok digest ob1" "lineage ob1 ref \<noteq> []" "bc_next (last (lineage ob1 ref)) = None"
  shows "lineage ob2 ref = lineage ob1 ref"
  using assms
proof (induction rule: obl_history.induct)
  case (hist_assess ob ob1 race now aq e ob2)
  have ok: "obligations_ok digest ob1" using history_keeps hist_assess by blast
  have "lineage (race ob1) ref = lineage ob ref" using hist_assess ok by auto
  then show ?case using hist_assess ok by (cases rule: assess_cases [OF hist_assess.hyps(3)]) auto
next
  case (hist_satisfy ob ob1 race sq now e ob2)
  have ok: "obligations_ok digest ob1" using history_keeps hist_satisfy by blast
  have "lineage (race ob1) ref = lineage ob ref" using hist_satisfy ok by auto
  then show ?case using hist_satisfy ok by (cases rule: satisfy_cases [OF hist_satisfy.hyps(4)]) auto
next
  case (hist_withdraw ob ob1 race corr env now c reference nts e ob2)
  have ok: "obligations_ok digest ob1" using history_keeps hist_withdraw by blast
  have "lineage (race ob1) ref = lineage ob ref" using hist_withdraw ok by auto
  then show ?case using hist_withdraw ok by (cases rule: withdraw_cases [OF hist_withdraw.hyps(4)]) auto
next
  case (hist_schedule ob ob1 race env q b ob2)
  have ok: "obligations_ok digest ob1" using history_keeps hist_schedule by blast
  have l: "lineage ob1 ref = lineage ob ref" "lineage (race ob1) ref = lineage ob ref" using hist_schedule ok by auto
  from hist_schedule.hyps(3) show ?case
  proof (cases rule: schedule_cases)
    case (replay r)
    then show ?thesis using l by (simp add: replay_succession_Inr)
  next
    case (insert now boundary nxt latest el)
    from insert(10) show ?thesis
    proof (cases rule: insert_cases)
      case (replay r)
      then show ?thesis using l by (simp add: replay_succession_Inr)
    next
      case (fresh r)
      have "bc_ref b \<noteq> ref"
      proof
        assume r: "bc_ref b = ref"
        have k: "obligations_ok digest (race ob1)" "obl_extends ob1 (race ob1)" using history_keeps [OF hist_schedule.hyps(2) ok] by auto
        from insert_position(2) [OF insert(7-9) obligations_okD(2) [OF ok] obligations_okD(2) [OF k(1)] k(2) fresh(2)]
        show False using r fresh(4) l hist_schedule.prems by simp
      qed
      then show ?thesis using l by (simp add: fresh(3))
    qed
  qed
next
  case (hist_terminate ob ob1 race c r env now at_instant reference b ob2)
  have ok: "obligations_ok digest ob1" using history_keeps hist_terminate by blast
  have l: "lineage ob1 ref = lineage ob ref" using hist_terminate by simp
  have lawful: "races_lawfully digest race" using hist_terminate.hyps(2) history_keeps by (auto simp: races_lawfully_def)
  have alone: "\<forall>x. obligations_ok digest x \<and> lineage x ref = lineage ob ref \<longrightarrow> lineage (race x) ref = lineage ob ref"
    "\<forall>x e. lineage x ref = lineage ob ref \<longrightarrow> lineage (append_event e x) ref = lineage ob ref"
    using hist_terminate by simp_all
  from hist_terminate.hyps(4) ok lawful hist_terminate.hyps(3) alone l show ?case
  proof (cases rule: terminate_lineages [where Q = "\<lambda>x. lineage x ref = lineage ob ref"])
    case (ends latest instant ob')
    have "r \<noteq> ref" using ends(1,4) l hist_terminate.prems(3) by auto
    then show ?thesis using ends(8,11) by (simp add: ends(9,10))
  qed (use l in simp)
next
  case (hist_policies ob ob1 ob2)
  then show ?case by (simp add: policies_saved_def lineage_def)
qed simp

lemma terminated_last:
  assumes "terminate_bill_cycle env race now c ref at_instant reference ob = Inr (b, ob1)" "obligations_ok digest ob"
    and "races_lawfully digest race" "withdrawals_quiet race c ref ob"
  shows "lineage ob1 ref \<noteq> []" "last (lineage ob1 ref) = b" "bc_next b = None" "bc_class b = c"
proof -
  have "lineage ob1 ref \<noteq> [] \<and> last (lineage ob1 ref) = b \<and> bc_next b = None \<and> bc_class b = c"
    using assms nothing_stays
  proof (cases rule: terminate_lineages [where Q = "\<lambda>x. True"])
    case already
    then show ?thesis using latest_bill_cycle [OF obligations_okD(2) [OF assms(2)], of ref] by (auto split: if_splits)
  next
    case (ends latest instant ob2)
    then show ?thesis by (simp add: terminal_cycle_def)
  qed
  then show "lineage ob1 ref \<noteq> []" "last (lineage ob1 ref) = b" "bc_next b = None" "bc_class b = c" by simp_all
qed

lemma terminal_class_cycles:
  assumes "cycles_ok ob" "lineage ob ref \<noteq> []" "last (lineage ob ref) = b" "bc_next b = None"
  shows "first_row (newest_first bc_number (class_cycles ob (bc_class b) ref)) = Some b"
    "get_termination_instant ob (bc_class b) ref = Some (bc_boundary b)"
proof -
  have ok: "lineage_ok (lineage ob ref)" using assms(1) by (simp add: cycles_ok_def)
  have c: "class_cycles ob (bc_class b) ref = lineage ob ref" using class_cycles_lineage [OF assms(1)] assms(2,3) by simp
  show "first_row (newest_first bc_number (class_cycles ob (bc_class b) ref)) = Some b"
    using c newest_lineage [OF ok] assms(2,3) by simp
  have "filter (\<lambda>b. bc_next b = None) (lineage ob ref) = [b]"
  proof -
    have split: "lineage ob ref = butlast (lineage ob ref) @ [b]" using assms(2,3) append_butlast_last_id by metis
    have "filter (\<lambda>b. bc_next b = None) (butlast (lineage ob ref)) = []"
      using ok by (auto simp: lineage_ok_def filter_empty_conv)
    then have "filter (\<lambda>b. bc_next b = None) (butlast (lineage ob ref) @ [b]) = [b]" using assms(4) by simp
    then show ?thesis unfolding split [symmetric] .
  qed
  then show "get_termination_instant ob (bc_class b) ref = Some (bc_boundary b)"
    by (simp add: get_termination_instant_def c first_row_newest)
qed

text \<open>
  C12. A lineage that was terminated stays ended. Whatever other sessions did beside the termination (short of settling
  what it withdraws) and whatever happens afterwards, it gets no further cycle, no succession of
  it is accepted under a new identity, and from the termination instant on no period of it is current.
\<close>

theorem terminated_lineage_stays_ended:
  assumes "obl_history digest (empty_obligations rents ins) ob"
    and "terminate_bill_cycle env others now c ref at_instant reference ob = Inr (b, ob1)"
    and "\<forall>x. obl_history digest x (others x)" "withdrawals_quiet others c ref ob"
    and "obl_history digest ob1 ob2"
  shows "get_bill_cycles_for_internal_ref ob2 ref = get_bill_cycles_for_internal_ref ob1 ref
     \<and> (cq_class q = c \<longrightarrow> tm_ref (cq_terms q) = ref \<longrightarrow>
        get_obligation_command_reservation ob2 c succession_name (cq_key q) = None \<longrightarrow>
        isl (schedule_next_bill_cycle env2 digest race q ob2))
     \<and> (bc_boundary b \<le> t \<longrightarrow> get_current_bill_cycle env3 ob2 c ref (Some t) = Inr current \<longrightarrow> current = None)"
proof (intro conjI impI)
  have ok: "obligations_ok digest ob" using history_keeps [OF assms(1) empty_obligations_ok] by simp
  have lawful: "races_lawfully digest others" using assms(3) history_keeps by (auto simp: races_lawfully_def)
  have ok1: "obligations_ok digest ob1" using terminate_ok [OF assms(2) ok lawful assms(4)] by simp
  have ok2: "obligations_ok digest ob2" using history_keeps [OF assms(5) ok1] by simp
  note last = terminated_last [OF assms(2) ok lawful assms(4)]
  have same: "lineage ob2 ref = lineage ob1 ref" using ended_lineage_unchanged [OF assms(5) ok1 last(1)] last(2,3) by simp
  then show "get_bill_cycles_for_internal_ref ob2 ref = get_bill_cycles_for_internal_ref ob1 ref"
    by (simp add: get_bill_cycles_for_internal_ref_def lineage_def)
  note ended = terminal_class_cycles [OF obligations_okD(2) [OF ok2], of ref b, unfolded last(4), OF last(1) [folded same] last(2) [folded same] last(3)]
  show "isl (schedule_next_bill_cycle env2 digest race q ob2)"
    if "cq_class q = c" "tm_ref (cq_terms q) = ref" "get_obligation_command_reservation ob2 c succession_name (cq_key q) = None"
  proof (rule ccontr)
    assume "\<not> isl (schedule_next_bill_cycle env2 digest race q ob2)"
    then obtain b' ob3 where "schedule_next_bill_cycle env2 digest race q ob2 = Inr (b', ob3)"
      by (cases "schedule_next_bill_cycle env2 digest race q ob2") auto
    then show False
    proof (cases rule: schedule_cases)
      case (insert now boundary nxt latest el)
      then show False using that ended(1) last(3) by (simp add: get_succession_eligibility_def)
    qed (use that in simp)
  qed
  show "current = None" if "bc_boundary b \<le> t" "get_current_bill_cycle env3 ob2 c ref (Some t) = Inr current"
    using that ended(2)
    by (auto simp: get_current_bill_cycle_def res_simps dest!: class_now_value obl_later_than_value)
qed

lemma terminated_lineage_stays_ended_witness:
  "isl (schedule_next_bill_cycle payroll_env (\<lambda>x. x) (\<lambda>x. x) (example_succession ''k3'' (Date 2026 11 1) (Date 2026 12 1)) (obl_after example_end))
     \<and> get_current_bill_cycle payroll_env (obl_after example_end) ''c1'' ''rent:c1'' (Some (combine (Date 2026 10 5) 0)) = Inr None
     \<and> get_bill_cycles_for_internal_ref (obl_after example_end) ''rent:c1'' \<noteq> []"
proof -
  obtain b where b: "example_end = Inr (b, obl_after example_end)" using example_end_made by blast
  have alone: "\<forall>x. obl_history (\<lambda>x :: succession_terms. x) x x" by (simp add: hist_none)
  note ended = terminated_lineage_stays_ended
    [OF example_obligation_history(2) [unfolded obl0_def] b [unfolded example_end_def] alone no_race(2) hist_none]
  have boundary: "bc_boundary b \<le> combine (Date 2026 10 5) 0"
  proof -
    have "case example_end of Inr (b, ob) \<Rightarrow> bc_boundary b \<le> combine (Date 2026 10 5) 0 | Inl e \<Rightarrow> False" by code_simp
    then have "case (Inr (b, obl_after example_end) :: obl_error + bill_cycle \<times> succession_terms obligations) of
        Inr (b, ob) \<Rightarrow> bc_boundary b \<le> combine (Date 2026 10 5) 0 | Inl e \<Rightarrow> False"
      by (subst b [symmetric])
    then show ?thesis by simp
  qed
  have "\<not> isl (get_current_bill_cycle payroll_env (obl_after example_end) ''c1'' ''rent:c1'' (Some (combine (Date 2026 10 5) 0)))"
    by code_simp
  then obtain current where
    cur: "get_current_bill_cycle payroll_env (obl_after example_end) ''c1'' ''rent:c1'' (Some (combine (Date 2026 10 5) 0)) = Inr current"
    by (cases "get_current_bill_cycle payroll_env (obl_after example_end) ''c1'' ''rent:c1'' (Some (combine (Date 2026 10 5) 0))") auto
  have "get_obligation_command_reservation (obl_after example_end) ''c1'' succession_name ''k3'' = None" by code_simp
  then have "isl (schedule_next_bill_cycle payroll_env (\<lambda>x. x) (\<lambda>x. x)
      (example_succession ''k3'' (Date 2026 11 1) (Date 2026 12 1)) (obl_after example_end))"
    using ended [where q = "example_succession ''k3'' (Date 2026 11 1) (Date 2026 12 1)", folded example_end_def]
    by (simp add: example_succession_def)
  moreover have "get_bill_cycles_for_internal_ref (obl_after example_end) ''rent:c1'' \<noteq> []" by code_simp
  ultimately show ?thesis
    using ended [folded example_end_def] boundary cur by blast
qed

end
