(* ===== verification/Obligation_Settlement.thy ===== *)
theory Obligation_Settlement
  imports Obligation_Claims Ledger_Charges
begin

text \<open>
  What time cannot change: a settled obligation stays settled at the amount its policy version had, whatever is
  saved, assessed or posted later; a succession command takes effect once however often it is delivered; and the
  assessment point of a previewed period is the class-local midnight the preview names.
\<close>

section \<open>Paid amounts only grow\<close>

text \<open>What later Ledger activity does to the rows payments name: the old rows keep their cents, new ones follow.\<close>

definition ledger_grows :: "tx list \<Rightarrow> tx list \<Rightarrow> bool" where
  "ledger_grows ts ts' = (\<exists>us vs. ts' = us @ vs \<and> list_all2 same_effect ts us)"

lemma find_same_effect:
  "list_all2 same_effect ts us \<Longrightarrow> List.find (\<lambda>t. tx_id t = i) ts = Some t \<Longrightarrow>
     \<exists>u. List.find (\<lambda>t. tx_id t = i) us = Some u \<and> tx_cents u = tx_cents t"
  by (induction rule: list_all2_induct) (auto simp: same_effectD split: if_splits)

lemma magnitude_grows: "ledger_grows ts ts' \<Longrightarrow> payment_event_magnitude ts e \<le> payment_event_magnitude ts' e"
  unfolding ledger_grows_def payment_event_magnitude_def
  by (auto simp: find_append split: option.splits dest: find_same_effect)

lemma magnitude_nonneg: "0 \<le> payment_event_magnitude ts e"
  by (simp add: payment_event_magnitude_def split: option.splits)

lemma apply_all_satisfactions:
  "apply_satisfactions env ts c None es (p, w) =
     Inr (p + sum_list (map (payment_event_magnitude ts) es), w \<or> (\<exists>e \<in> set es. oe_kind e = WAIVED))"
proof (induction es arbitrary: p w)
  case (Cons e es)
  have "payment_event_magnitude ts e = 0" if "oe_kind e \<noteq> PAYMENT" using that by (simp add: payment_event_magnitude_def)
  then show ?case using Cons by (auto simp: recorded_by_def)
qed simp

lemma obligation_state_now:
  "get_obligation_state env ts ob corr None = Inr (case get_assessment_for_correlation ob corr of None \<Rightarrow> None
     | Some a \<Rightarrow> (let paid = get_paid_magnitude ts ob corr; waived = (\<exists>e \<in> set (get_satisfaction_events ob corr). oe_kind e = WAIVED);
           withdrawn = (get_withdrawal_event ob corr \<noteq> None); assessed = resolve_assessment_amount ob a;
           status = (if withdrawn then WITHDRAWN_STATUS else if waived \<or> assessed \<le> paid then SATISFIED else OUTSTANDING)
         in Some \<lparr>os_corr = corr, os_class = oe_class a, os_seat = oe_seat a, os_type = oe_type a, os_ref = oe_ref a,
               os_cycle = oe_cycle a, os_assessed = assessed, os_satisfied = paid,
               os_remaining = (if status = OUTSTANDING then assessed - paid else 0), os_waived = waived,
               os_withdrawn = withdrawn, os_status = status, os_due = resolve_assessment_due_at ob a\<rparr>))"
  by (cases "get_withdrawal_event ob corr")
    (simp_all add: get_obligation_state_def apply_all_satisfactions get_paid_magnitude_def recorded_by_def Let_def split: option.split)

lemma satisfaction_events_extend:
  assumes "obl_extends ob ob'"
  obtains es where "mset (get_satisfaction_events ob' corr) = mset (get_satisfaction_events ob corr) + mset es"
proof -
  obtain xs where "ob_events ob' = ob_events ob @ xs" using assms by (auto simp: obl_extends_def)
  then show thesis
    by (intro that [of "filter (\<lambda>e. oe_corr e = corr \<and> oe_kind e \<in> {PAYMENT, WAIVED}) xs"]) (simp add: get_satisfaction_events_def)
qed

lemma paid_grows:
  assumes "obl_extends ob ob'" "ledger_grows ts ts'"
  shows "get_paid_magnitude ts ob corr \<le> get_paid_magnitude ts' ob' corr"
proof -
  let ?m = "payment_event_magnitude"
  obtain es where es: "mset (get_satisfaction_events ob' corr) = mset (get_satisfaction_events ob corr) + mset es"
    using satisfaction_events_extend [OF assms(1)] by blast
  have "get_paid_magnitude ts ob corr \<le> sum_list (map (?m ts') (get_satisfaction_events ob corr))"
    unfolding get_paid_magnitude_def by (rule sum_list_mono) (rule magnitude_grows [OF assms(2)])
  also have "\<dots> = sum_mset (image_mset (?m ts') (mset (get_satisfaction_events ob corr)))"
    by (metis mset_map sum_mset_sum_list)
  also have "\<dots> \<le> sum_mset (image_mset (?m ts') (mset (get_satisfaction_events ob' corr)))"
    unfolding es using sum_list_nonneg [of "map (?m ts') es"] magnitude_nonneg
    by (auto simp: sum_mset_sum_list simp flip: mset_map)
  also have "\<dots> = get_paid_magnitude ts' ob' corr" unfolding get_paid_magnitude_def by (metis mset_map sum_mset_sum_list)
  finally show ?thesis .
qed

section \<open>Amounts are frozen\<close>

lemma find_rent_grows:
  assumes "rents_grow (ob_rents ob) (ob_rents ob')" "find_rent ob uuid = Some r"
  shows "\<exists>r'. find_rent ob' uuid = Some r' \<and> rp_amount r' = rp_amount r \<and> rp_penalty r' = rp_penalty r"
proof -
  obtain us vs where u: "ob_rents ob' = us @ vs"
    "list_all2 (\<lambda>r r'. r'\<lparr>rp_in_use := rp_in_use r\<rparr> = r) (ob_rents ob) us" using assms(1) by (auto simp: rents_grow_def)
  have "list_all2 (\<lambda>r r'. r'\<lparr>rp_in_use := rp_in_use r\<rparr> = r) rs us \<Longrightarrow> List.find (\<lambda>r. rp_uuid r = uuid) rs = Some r \<Longrightarrow>
      \<exists>r'. List.find (\<lambda>r. rp_uuid r = uuid) us = Some r' \<and> r'\<lparr>rp_in_use := rp_in_use r\<rparr> = r" for rs us
  proof (induction rule: list_all2_induct)
    case (Cons x xs y ys)
    have "rp_uuid y = rp_uuid x" using Cons.hyps(1) by (metis rent_policy.select_convs(2) rent_policy.surjective rent_policy.update_convs(4))
    then show ?case using Cons by (auto split: if_splits)
  qed simp
  from this [OF u(2) assms(2) [unfolded find_rent_def]] obtain r' where
    r': "List.find (\<lambda>r. rp_uuid r = uuid) us = Some r'" "r'\<lparr>rp_in_use := rp_in_use r\<rparr> = r" by blast
  have "find_rent ob' uuid = Some r'" using r'(1) by (simp add: find_rent_def u(1) find_append)
  moreover have "rp_amount (r'\<lparr>rp_in_use := rp_in_use r\<rparr>) = rp_amount r'" "rp_penalty (r'\<lparr>rp_in_use := rp_in_use r\<rparr>) = rp_penalty r'" by simp_all
  ultimately show ?thesis unfolding r'(2) by auto
qed

lemma insurance_grows:
  "obl_extends ob ob' \<Longrightarrow> get_insurance_definition ob uuid c = Some p \<Longrightarrow> get_insurance_definition ob' uuid c = Some p"
  by (auto simp: obl_extends_def get_insurance_definition_def find_append)

lemma amount_frozen:
  assumes "obl_extends ob ob'" "0 < resolve_assessment_amount ob a"
  shows "resolve_assessment_amount ob' a = resolve_assessment_amount ob a"
proof -
  obtain p ps where p: "str_or (oe_policy a) [] = p # ps"
    using assms(2) by (cases "str_or (oe_policy a) []") (auto simp: resolve_assessment_amount_def)
  have rents: "rents_grow (ob_rents ob) (ob_rents ob')" using assms(1) by (simp add: obl_extends_def)
  consider "oe_type a \<in> {''RENT'', ''LATE_FEE''}" | "oe_type a = ''INSURANCE_PREMIUM''"
    using assms(2) by (auto simp: resolve_assessment_amount_def p Let_def split: if_splits)
  then show ?thesis
  proof cases
    case 1
    then obtain r where r: "find_rent ob (p # ps) = Some r"
      using assms(2) by (auto simp: resolve_assessment_amount_def p Let_def split: option.splits)
    obtain r' where r': "find_rent ob' (p # ps) = Some r'" "rp_amount r' = rp_amount r" "rp_penalty r' = rp_penalty r"
      using find_rent_grows [OF rents r] by auto
    from 1 r r' show ?thesis by (auto simp: resolve_assessment_amount_def p Let_def)
  next
    case 2
    then obtain d where d: "get_insurance_definition ob (p # ps) (oe_class a) = Some d"
      using assms(2) by (auto simp: resolve_assessment_amount_def p Let_def split: option.splits)
    from insurance_grows [OF assms(1) d] 2 d show ?thesis by (simp add: resolve_assessment_amount_def p Let_def)
  qed
qed

lemma satisfied_has_events:
  assumes "get_obligation_state env ts ob corr None = Inr (Some os)" "os_status os = SATISFIED" "0 < os_assessed os"
  shows "get_satisfaction_events ob corr \<noteq> []"
proof
  assume "get_satisfaction_events ob corr = []"
  with assms show False
    by (auto simp: obligation_state_now get_paid_magnitude_def Let_def split: option.splits if_splits)
qed

section \<open>A withdrawal racing a payment\<close>

text \<open>
  C31. A withdrawal can land on a paid obligation. Whenever an obligation may be withdrawn and a payment or waiver of it is
  committed between the withdrawal's reads and its insert, the withdrawal still succeeds. The obligation then reads as
  withdrawn, with nothing remaining, while all that was paid for it stays recorded as paid.
\<close>

theorem withdrawal_can_land_on_a_satisfaction:
  assumes "satisfy_obligation (\<lambda>x. x) t1 q ob = Inr (e1, ob1)" "e1 \<notin> set (ob_events ob)"
    and "withdraw_assessment env (\<lambda>x. x) t2 c (sq_corr q) reference notes ob = Inr (e2, ob2)"
  shows "\<exists>e3 ob3 os. withdraw_assessment env (\<lambda>_. ob1) t2 c (sq_corr q) reference notes ob = Inr (e3, ob3)
     \<and> get_satisfaction_events ob3 (sq_corr q) \<noteq> []
     \<and> get_obligation_state env ts ob3 (sq_corr q) None = Inr (Some os) \<and> os_status os = WITHDRAWN_STATUS
     \<and> os_remaining os = 0 \<and> os_satisfied os = get_paid_magnitude ts ob1 (sq_corr q)"
proof -
  obtain a where a: "get_assessment_for_correlation ob (sq_corr q) = Some a" "oe_corr e1 = sq_corr q" "oe_kind e1 = satisfied_by q"
    "ob1 = append_event e1 ob" "get_withdrawal_event ob (sq_corr q) = None"
    using raced_satisfaction [OF assms(1,2)] by blast
  let ?e3 = "lineage_row t2 WITHDRAWN None notes a ob1"
  have raced: "withdraw_assessment env (\<lambda>_. ob1) t2 c (sq_corr q) reference notes ob = Inr (?e3, append_event ?e3 ob1)"
    using assms(3)
  proof (cases rule: withdraw_cases)
    case (fresh a' b cancelling)
    then obtain late where "obl_later_than env c cancelling (bc_boundary b) = Inr late"
      using assms(3) by (auto simp: withdraw_assessment_def rbind_eq_Inr)
    with fresh a(1) show ?thesis
      using obl_later_than_value by (fastforce simp: withdraw_assessment_def Let_def)
  qed (use a(5) in simp)
  have corr: "oe_corr ?e3 = sq_corr q" using assessment_SomeD [OF a(1)] by simp
  have paid: "get_satisfaction_events (append_event ?e3 ob1) (sq_corr q) = get_satisfaction_events ob1 (sq_corr q)"
    by (simp add: get_satisfaction_events_def)
  have "get_satisfaction_events ob1 (sq_corr q) \<noteq> []" using a(2,3) by (simp add: a(4) satisfaction_none_iff)
  moreover have "get_withdrawal_event (append_event ?e3 ob1) (sq_corr q) \<noteq> None" using corr by (simp add: withdrawal_None_iff)
  moreover have "get_assessment_for_correlation (append_event ?e3 ob1) (sq_corr q) = Some a"
    using find_assessment_append [OF a(1), of "append_event ?e3 ob1" "[e1, ?e3]"] by (simp add: a(4))
  ultimately show ?thesis using raced paid by (simp add: obligation_state_now get_paid_magnitude_def Let_def)
qed

definition example_racing_payment :: satisfy_request where
  "example_racing_payment = \<lparr>sq_corr = ''a2'', sq_class = ''c1'', sq_seat = 7, sq_payment = True, sq_tx = Some 6, sq_notes = None\<rparr>"

text \<open>
  C11. A settled obligation stays settled. Once an obligation with a positive amount is SATISFIED it is SATISFIED, at the
  same amount and with no less paid, after every later history in which no two sessions satisfy or withdraw one obligation
  at the same time: later assessments, cycles, withdrawals and terminations, new policy versions and a policy taken out of
  use change none of it. Nor do later Ledger rows, a reversal of the payment among them: the code adds up the rows payments
  name and never asks whether they were voided, although its comments say voided payments do not count.
\<close>

theorem settled_obligation_stays_settled:
  assumes "obl_history digest (empty_obligations rents ins) ob" "obl_history digest ob ob'" "ledger_grows ts ts'"
    and "get_obligation_state env ts ob corr None = Inr (Some os)" "os_status os = SATISFIED" "0 < os_assessed os"
  shows "\<exists>os'. get_obligation_state env' ts' ob' corr None = Inr (Some os') \<and> os_status os' = SATISFIED
     \<and> os_assessed os' = os_assessed os \<and> os_satisfied os \<le> os_satisfied os' \<and> os_remaining os' = 0"
proof -
  have ok: "obligations_ok digest ob" using history_keeps [OF assms(1) empty_obligations_ok] by simp
  have ok': "obligations_ok digest ob'" and ext: "obl_extends ob ob'" using history_keeps [OF assms(2) ok] by auto
  obtain a where a: "get_assessment_for_correlation ob corr = Some a"
    using assms(4) by (auto simp: obligation_state_now split: option.splits)
  obtain xs where "ob_events ob' = ob_events ob @ xs" using ext by (auto simp: obl_extends_def)
  note a' = find_assessment_append [OF a this]
  have os: "os_assessed os = resolve_assessment_amount ob a" "os_satisfied os = get_paid_magnitude ts ob corr"
    "(\<exists>e \<in> set (get_satisfaction_events ob corr). oe_kind e = WAIVED) \<or> resolve_assessment_amount ob a \<le> get_paid_magnitude ts ob corr"
    using assms(4,5) a by (auto simp: obligation_state_now Let_def split: if_splits)
  note amount = amount_frozen [OF ext, of a] and paid = paid_grows [OF ext assms(3), of corr]
  obtain es where es: "mset (get_satisfaction_events ob' corr) = mset (get_satisfaction_events ob corr) + mset es"
    using satisfaction_events_extend [OF ext] by blast
  have sub: "set (get_satisfaction_events ob corr) \<subseteq> set (get_satisfaction_events ob' corr)"
    using es by (metis Un_upper1 set_mset_mset set_mset_union)
  then have "get_satisfaction_events ob' corr \<noteq> []" using satisfied_has_events [OF assms(4-6)] by auto
  then have nw: "get_withdrawal_event ob' corr = None"
    using obligation_records_stay_lawful_core [OF ok'] by blast
  have "(\<exists>e \<in> set (get_satisfaction_events ob' corr). oe_kind e = WAIVED) \<or> resolve_assessment_amount ob' a \<le> get_paid_magnitude ts' ob' corr"
    using os(3) sub amount paid assms(6) os(1) by auto
  then show ?thesis
    using a' nw amount paid assms(6) os(1,2) by (simp add: obligation_state_now Let_def)
qed

definition paid_rows :: "tx list" where
  "paid_rows = [(tx.make 5 7 9 7 ''c1'' ''self'' (-5000) ''checking'' 0 ''rent_payment'' ''Rent'' (Some 1) None None None None None None
     ''c'' ''FEAT-OBL-001'' None 0 None)]"

lemma settled_obligation_stays_settled_witness:
  "\<exists>os'. get_obligation_state payroll_env paid_rows (obl_after example_end) ''a1'' None = Inr (Some os')
     \<and> os_status os' = SATISFIED \<and> os_assessed os' = 5000 \<and> 5000 \<le> os_satisfied os' \<and> os_remaining os' = 0"
proof -
  have "case get_obligation_state payroll_env paid_rows obl3 ''a1'' None of
      Inr (Some os) \<Rightarrow> os_status os = SATISFIED \<and> os_assessed os = 5000 \<and> os_satisfied os = 5000 | _ \<Rightarrow> False" by code_simp
  then obtain os where os: "get_obligation_state payroll_env paid_rows obl3 ''a1'' None = Inr (Some os)" "os_status os = SATISFIED"
    "os_assessed os = 5000" "os_satisfied os = 5000" by (auto split: sum.splits option.splits)
  have rows: "ledger_grows paid_rows paid_rows"
    unfolding ledger_grows_def by (rule exI [of _ paid_rows], rule exI [of _ "[]"]) simp
  from settled_obligation_stays_settled [OF example_obligation_history(1) [unfolded obl0_def] example_later rows os(1,2)] os(3,4)
  show ?thesis by simp
qed

definition racing_rows :: "tx list" where
  "racing_rows = paid_rows @ map (tx_id_update (\<lambda>_. 6)) paid_rows"

lemma withdrawal_can_land_on_a_satisfaction_witness:
  "\<exists>e3 ob1 ob3 os. withdraw_assessment payroll_env (\<lambda>_. ob1) 7 ''c1'' ''a2'' (Some (combine (Date 2026 9 26) 0)) None obl5 = Inr (e3, ob3)
     \<and> get_obligation_state payroll_env racing_rows ob3 ''a2'' None = Inr (Some os)
     \<and> os_status os = WITHDRAWN_STATUS \<and> os_satisfied os = 5000"
proof -
  have "case satisfy_obligation (\<lambda>x. x) 6 example_racing_payment obl5 of
      Inr (e, ob) \<Rightarrow> e \<notin> set (ob_events obl5) \<and> get_paid_magnitude racing_rows ob ''a2'' = 5000 | Inl m \<Rightarrow> False" by code_simp
  then obtain e1 ob1 where p: "satisfy_obligation (\<lambda>x. x) 6 example_racing_payment obl5 = Inr (e1, ob1)" "e1 \<notin> set (ob_events obl5)"
    "get_paid_magnitude racing_rows ob1 ''a2'' = 5000" by (auto split: sum.splits)
  have c: "sq_corr example_racing_payment = ''a2''" by (simp add: example_racing_payment_def)
  have "\<not> isl (withdraw_assessment payroll_env (\<lambda>x. x) 7 ''c1'' ''a2'' (Some (combine (Date 2026 9 26) 0)) None obl5)" by code_simp
  then obtain e2 ob2 where w: "withdraw_assessment payroll_env (\<lambda>x. x) 7 ''c1'' ''a2'' (Some (combine (Date 2026 9 26) 0)) None obl5 = Inr (e2, ob2)"
    using obl_after_Inr by blast
  from withdrawal_can_land_on_a_satisfaction [OF p(1,2), unfolded c, OF w, of racing_rows] p(3) show ?thesis by auto
qed

section \<open>A succession takes effect once\<close>

record 'h succession_env =
  se_time :: time_env
  se_race :: "'h obligations \<Rightarrow> 'h obligations"

definition run_succession ::
    "(succession_terms \<Rightarrow> 'h) \<Rightarrow> succession_request \<Rightarrow> 'h succession_env \<Rightarrow> 'h obligations \<Rightarrow> obl_error + (bill_cycle \<times> bool \<times> 'h obligations)" where
  "run_succession digest q en ob =
     rbind (schedule_next_bill_cycle (se_time en) digest (se_race en) q ob) (\<lambda>(b, ob').
       Inr (b, get_obligation_command_reservation ob (cq_class q) succession_name (cq_key q) = None, ob'))"

definition obl_later :: "(succession_terms \<Rightarrow> 'h) \<Rightarrow> 'h obligations \<Rightarrow> 'h obligations \<Rightarrow> bool" where
  "obl_later digest ob ob' = (obligations_ok digest ob \<and> obligations_ok digest ob' \<and> obl_extends ob ob')"

definition succession_env_ok :: "(succession_terms \<Rightarrow> 'h) \<Rightarrow> 'h succession_env \<Rightarrow> bool" where
  "succession_env_ok digest en = (\<forall>ob. obligations_ok digest ob \<longrightarrow> obl_later digest ob (se_race en ob))"

lemma run_succession_Inr:
  "run_succession digest q en ob = Inr (b, created, ob') \<longleftrightarrow>
     schedule_next_bill_cycle (se_time en) digest (se_race en) q ob = Inr (b, ob')
     \<and> created = (get_obligation_command_reservation ob (cq_class q) succession_name (cq_key q) = None)"
  by (auto simp: run_succession_def res_simps)

lemma run_succession_later:
  assumes "run_succession digest q en ob = Inr (b, created, ob')" "succession_env_ok digest en" "obligations_ok digest ob"
  shows "obl_later digest ob ob'"
proof -
  have r: "obligations_ok digest (se_race en ob)" "obl_extends ob (se_race en ob)"
    using assms(2,3) by (auto simp: succession_env_ok_def obl_later_def)
  note run = assms(1) [unfolded run_succession_Inr, THEN conjunct1]
  show ?thesis using schedule_ok [OF run assms(3) r] schedule_extends [OF run r(2)] assms(3) by (simp add: obl_later_def)
qed

text \<open>What a successful succession leaves behind: its reservation, with its terms, naming its cycle.\<close>

lemma succession_recorded:
  assumes "schedule_next_bill_cycle env digest race q ob = Inr (b, ob')" "cycles_ok ob'"
  shows "\<exists>r. get_obligation_command_reservation ob' (cq_class q) succession_name (cq_key q) = Some r
    \<and> replay_succession digest r q ob' = Inr (b, ob') \<and> validate_identity q = Inr ()"
  using assms(1)
proof (cases rule: schedule_cases)
  case (replay r)
  then show ?thesis by (auto simp: replay_succession_Inr)
next
  case (insert now boundary nxt latest el)
  from insert(10) show ?thesis
  proof (cases rule: insert_cases)
    case (replay r)
    then show ?thesis using insert(1) by (auto simp: replay_succession_Inr)
  next
    case (fresh r)
    have "get_obligation_command_reservation ob' (cq_class q) succession_name (cq_key q) = Some r"
      using fresh(1,3,5) by (simp add: get_obligation_command_reservation_def find_append)
    moreover have "find_cycle ob' (Some (bc_id b)) = Some b" using find_cycle_new assms(2) fresh(3) by metis
    ultimately show ?thesis
      using insert(1) fresh(5) by (simp add: replay_succession_Inr supported_succession_versions_def succession_version_def)
  qed
qed

lemma run_succession_replays:
  assumes "run_succession digest q en ob = Inr (b, created, ob')" "succession_env_ok digest en" "obligations_ok digest ob"
    and "obl_later digest ob' ob2"
  shows "run_succession digest q en2 ob2 = Inr (b, False, ob2)"
proof -
  have "cycles_ok ob'" using run_succession_later [OF assms(1-3)] by (simp add: obl_later_def obligations_ok_def)
  from succession_recorded [OF assms(1) [unfolded run_succession_Inr, THEN conjunct1] this] obtain r where
    r: "get_obligation_command_reservation ob' (cq_class q) succession_name (cq_key q) = Some r"
      "replay_succession digest r q ob' = Inr (b, ob')" "validate_identity q = Inr ()" by blast
  obtain bs rs where ext: "ob_cycles ob2 = ob_cycles ob' @ bs" "ob_commands ob2 = ob_commands ob' @ rs"
    using assms(4) by (auto simp: obl_later_def obl_extends_def)
  have "get_obligation_command_reservation ob2 (cq_class q) succession_name (cq_key q) = Some r"
    using r(1) by (simp add: get_obligation_command_reservation_def ext(2) find_append)
  moreover have "replay_succession digest r q ob2 = Inr (b, ob2)"
    using r(2) find_cycle_append [OF _ ext(1)] by (simp add: replay_succession_Inr)
  ultimately show ?thesis using r(3) by (simp add: run_succession_Inr schedule_next_bill_cycle_def)
qed

interpretation succession: replayable_command "run_succession digest" "succession_env_ok digest" "obl_later digest" "(=)"
  for digest :: "succession_terms \<Rightarrow> 'h"
proof
  show "obl_later digest st st2" if "obl_later digest st st1" "obl_later digest st1 st2" for st st1 st2 :: "'h obligations"
    using that obl_extends_trans by (auto simp: obl_later_def)
  show "obl_later digest st st'"
    if "run_succession digest x env st = Inr (rows, created, st')" "succession_env_ok digest env" "obl_later digest st st"
    for x env and st st' :: "'h obligations" and rows created
    using that(3) run_succession_later [OF that(1,2)] by (simp add: obl_later_def)
  show "\<exists>rows2. run_succession digest x env2 st2 = Inr (rows2, False, st2) \<and> rows = rows2"
    if "run_succession digest x env st = Inr (rows, created, st')" "succession_env_ok digest env" "obl_later digest st st"
      "obl_later digest st' st2" for x env env2 and st st' st2 :: "'h obligations" and rows created
    using that(3) run_succession_replays [OF that(1,2) _ that(4)] by (simp add: obl_later_def)
qed (auto simp: obl_later_def)

text \<open>
  C13. Repeated successions take effect once. Deliver succession commands any number of times and in any order, each
  delivery raced by other sessions: the tables end up as after the first delivery of each distinct command alone.
\<close>

theorem repeated_successions_take_effect_once:
  assumes "deliver_all (run_succession digest) ds ob = Inr (bs, ob')" "obligations_ok digest ob"
    and "\<forall>d \<in> set ds. succession_env_ok digest (snd d)"
  shows "\<exists>bs'. deliver_all (run_succession digest) (first_deliveries [] ds) ob = Inr (bs', ob')"
  by (rule succession.deliveries_take_effect_once [OF assms(1) _ assms(3)]) (use assms(2) in \<open>simp add: obl_later_def\<close>)

definition lone_env :: "'h succession_env" where
  "lone_env = \<lparr>se_time = payroll_env, se_race = (\<lambda>ob. ob)\<rparr>"

lemma repeated_successions_take_effect_once_witness:
  "let q = example_succession ''k1'' (Date 2026 9 1) (Date 2026 10 1) in
     \<exists>bs. deliver_all (run_succession (\<lambda>x. x)) [(q, lone_env)] obl0 = Inr (bs, obl1)"
proof -
  let ?q = "example_succession ''k1'' (Date 2026 9 1) (Date 2026 10 1)"
  obtain b where b: "schedule_next_bill_cycle payroll_env (\<lambda>x. x) (\<lambda>x. x) ?q obl0 = Inr (b, obl1)" using obl1_made by blast
  have env: "succession_env_ok (\<lambda>x. x) lone_env" by (simp add: succession_env_ok_def lone_env_def obl_later_def)
  have ok: "obligations_ok (\<lambda>x. x) obl0" by (simp add: obl0_def empty_obligations_ok)
  have run: "run_succession (\<lambda>x. x) ?q lone_env obl0
      = Inr (b, get_obligation_command_reservation obl0 (cq_class ?q) succession_name (cq_key ?q) = None, obl1)"
    using b by (simp add: run_succession_def lone_env_def)
  have later: "obl_later (\<lambda>x. x) obl1 obl1" using run_succession_later [OF run env ok] by (simp add: obl_later_def)
  have "deliver_all (run_succession (\<lambda>x. x)) [(?q, lone_env), (?q, lone_env)] obl0 = Inr ([b, b], obl1)"
    using run run_succession_replays [OF run env ok later] by simp
  from repeated_successions_take_effect_once [OF this ok] env show ?thesis by (auto simp: Let_def)
qed

section \<open>The assessment point\<close>

text \<open>
  UTC offsets are less than a day (Python's \<^verbatim>\<open>tzinfo\<close> requires it), and those a zone uses within \<open>n\<close> days of an instant
  differ by less than six hours: a daylight-saving change is an hour or two, only a move of the date line is more.
\<close>

definition steady_offset :: "tzinfo \<Rightarrow> instant \<Rightarrow> int \<Rightarrow> bool" where
  "steady_offset tz t n = ((\<forall>i. \<bar>utcoffset tz i\<bar> < day_us) \<and> (\<forall>i j. \<bar>i - t\<bar> \<le> (n + 4) * day_us \<longrightarrow> \<bar>j - t\<bar> \<le> (n + 4) * day_us \<longrightarrow>
     \<bar>utcoffset tz i - utcoffset tz j\<bar> < 6 * 3600 * second_us))"

lemma le_div_iff:
  fixes i :: int
  assumes "0 < d"
  shows "k \<le> i div d \<longleftrightarrow> k * d \<le> i"
proof
  have i: "i = i div d * d + i mod d" "0 \<le> i mod d" "i mod d < d" using assms by simp_all
  show "k * d \<le> i" if "k \<le> i div d" using mult_right_mono [OF that, of d] assms i by linarith
  show "k \<le> i div d" if "k * d \<le> i" using zdiv_mono1 [OF that assms] assms by simp
qed

lemma local_date_less_iff: "local_date tz i < fromordinal k \<longleftrightarrow> local_wall tz i < (k - 1) * day_us"
  using le_div_iff [of day_us "k - 1" "local_wall tz i"] by (auto simp: local_date_def wall_date_def)

lemma local_date_iff:
  "local_date tz i = fromordinal k \<longleftrightarrow> (k - 1) * day_us \<le> local_wall tz i \<and> local_wall tz i < k * day_us"
  using le_div_iff [of day_us "k - 1" "local_wall tz i"] le_div_iff [of day_us k "local_wall tz i"]
  by (auto simp: local_date_def wall_date_def)

text \<open>Noon of a day, measured from its start and moved back \<open>n\<close> days, falls on the day \<open>n\<close> days earlier.\<close>

lemma noon_falls_days_before:
  assumes "steady_offset tz t n" "0 \<le> n" "local_date tz t = fromordinal k" "local_date tz s = fromordinal k"
    and "local_date tz (s - 1) < fromordinal k"
  shows "local_date tz (s + 12 * 3600 * second_us - n * day_us) = fromordinal (k - n)"
proof -
  let ?m = "s + 12 * 3600 * second_us - n * day_us" let ?o = "utcoffset tz"
  have off: "\<bar>?o i\<bar> < day_us" for i using assms(1) by (simp add: steady_offset_def)
  have near: "\<bar>?o i - ?o j\<bar> < 6 * 3600 * second_us" if "\<bar>i - t\<bar> \<le> (n + 4) * day_us" "\<bar>j - t\<bar> \<le> (n + 4) * day_us" for i j
    using assms(1) that by (simp add: steady_offset_def)
  have t: "(k - 1) * day_us \<le> t + ?o t" "t + ?o t < k * day_us" and w: "(k - 1) * day_us \<le> s + ?o s" "s + ?o s < k * day_us"
    and u: "s - 1 + ?o (s - 1) < (k - 1) * day_us"
    using assms(3-5) by (simp_all add: local_date_iff local_date_less_iff local_wall_def)
  define N where "N = n * day_us"
  define K where "K = k * day_us"
  have N: "0 \<le> N" unfolding N_def using assms(2) by (rule mult_nonneg_nonneg [OF _ less_imp_le [OF us_pos(2)]])
  note K = K_def [symmetric] N_def [symmetric]
  have w4: "(n + 4) * day_us = N + 4 * day_us" and k1: "(k - 1) * day_us = K - day_us"
    unfolding K_def N_def by (simp_all only: distrib_right left_diff_distrib mult_1)
  have st: "\<bar>s - t\<bar> < 3 * day_us" using t w off [of s] off [of t] by (simp add: algebra_simps K)
  have "\<bar>?m - t\<bar> \<le> (n + 4) * day_us" "\<bar>s - t\<bar> \<le> (n + 4) * day_us" "\<bar>s - 1 - t\<bar> \<le> (n + 4) * day_us"
    using st N unfolding w4 K by (simp_all add: day_us_def second_us_def)
  then have ms: "\<bar>?o ?m - ?o s\<bar> < 6 * 3600 * second_us" and us: "\<bar>?o (s - 1) - ?o s\<bar> < 6 * 3600 * second_us" using near by auto
  have "(k - 1) * day_us - N \<le> local_wall tz ?m" "local_wall tz ?m < k * day_us - N"
    using ms us w u unfolding local_wall_def k1 K by (simp_all add: day_us_def second_us_def)
  then show ?thesis by (simp add: local_date_iff algebra_simps N_def)
qed

text \<open>
  C14. A previewed period is assessed at a class-local midnight: the start of the day exactly \<open>n\<close> calendar days before the
  day of its boundary, across daylight-saving changes in either direction, and not after the boundary.
\<close>

theorem assessment_point_is_a_class_midnight:
  assumes "class_zone env c = Some tz" "lawful_tz tz" "0 \<le> n" "steady_offset tz t n"
    and "start_of_class_day_before env c t n = Inr p"
  shows "p = midnight tz (fromordinal (toordinal (local_date tz t) - n)) \<and> p \<le> t"
proof -
  define k where "k = toordinal (local_date tz t)"
  from assms(5) obtain s e m p' e' where s: "day_bounds env c t = Inr (s, e)"
    "shift_seconds env c s (12 * 3600 - n * 24 * 3600) = Inr m" "day_bounds env c m = Inr (p', e')" "p = p'"
    by (auto simp: start_of_class_day_before_def res_simps)
  have m: "m = s + 12 * 3600 * second_us - n * day_us"
    using s(2) by (auto simp: shift_seconds_def cle_class_zone [OF assms(1)] p_shift_timestamp_def ensure_aware_utc_def no_kwargs_def
        res_simps day_us_def algebra_simps split: if_splits)
  have d: "local_date tz t = fromordinal k" by (simp add: k_def)
  have smid: "s = midnight tz (fromordinal k)" using day_bounds_zone [OF assms(1) s(1)] d by simp
  have "\<not> fromordinal k \<le> local_date tz (s - 1)" 
    unfolding lawful_midnight [OF assms(2) fromordinal_correct(1), symmetric] smid [symmetric] by linarith
  then have before: "local_date tz (s - 1) < fromordinal k" by simp
  note st = day_bounds_member [OF assms(1,2) s(1)]
  have sd: "local_date tz s = fromordinal k" using st(1) [of s] st(2,3) unfolding d by linarith
  have md: "local_date tz m = fromordinal (k - n)" unfolding m by (rule noon_falls_days_before [OF assms(4,3) d sd before])
  then have "p = midnight tz (fromordinal (k - n))" using day_bounds_zone [OF assms(1) s(3)] s(4) by simp
  moreover have "fromordinal (k - n) \<le> local_date tz t"
    using assms(3) fromordinal_less_iff [of k "k - n"] unfolding d by (simp add: not_less [symmetric] del: fromordinal_less_iff)
  ultimately show ?thesis using lawful_midnight [OF assms(2) fromordinal_correct(1), of "k - n" t] unfolding k_def by blast
qed

lemma assessment_point_is_a_class_midnight_witness:
  "start_of_class_day_before payroll_env ''c1'' (combine (Date 2026 10 1) 5) 7 = Inr (midnight (fixed_zone ''UTC'' 0) (Date 2026 9 24))"
proof -
  let ?t = "combine (Date 2026 10 1) 5"
  have "case start_of_class_day_before payroll_env ''c1'' ?t 7 of Inr p \<Rightarrow> True | Inl e \<Rightarrow> False" by code_simp
  then obtain p where p: "start_of_class_day_before payroll_env ''c1'' ?t 7 = Inr p" by (auto split: sum.splits)
  have d: "fromordinal (toordinal (local_date (fixed_zone ''UTC'' 0) ?t) - 7) = Date 2026 9 24" by code_simp
  have "steady_offset (fixed_zone ''UTC'' 0) ?t 7" by (simp add: steady_offset_def fixed_zone_def day_us_def second_us_def)
  from assessment_point_is_a_class_midnight [OF example_class_zone lawful_fixed_zone _ this p] p d show ?thesis by simp
qed

end
