(* ===== verification/Rent_Claims.thy ===== *)
theory Rent_Claims
  imports Rent_Payment Obligation_Settlement
begin

text \<open>
  Rent payments across the Ledger and the obligation tables: a payment that succeeds is one debit and one PAYMENT event of
  the same amount, and the joint state stays lawful; and the two ways a bill payment departs from its promise.
\<close>

section \<open>The joint state\<close>

text \<open>Both parts are lawful, and every payment names a row of the Ledger.\<close>

definition payments_named :: "tx list \<Rightarrow> 'k obligations \<Rightarrow> bool" where
  "payments_named ts ob = (\<forall>e \<in> set (ob_events ob). \<forall>i. oe_tx e = Some i \<longrightarrow> i \<in> tx_id ` set ts)"

definition rent_world_ok :: "(succession_terms \<Rightarrow> 'k) \<Rightarrow> ('h, 'k, 'e) rent_world \<Rightarrow> bool" where
  "rent_world_ok digest w = (ledger_ok (rw_ledger w) \<and> obligations_ok digest (rw_obl w)
     \<and> payments_named (txs (rw_ledger w)) (rw_obl w))"

text \<open>
  What the seat lock grants the payer: others still extend the Ledger, but leave this seat's balances and this command's
  key alone.
\<close>

definition quiet_races :: "('h, 'k, 'e) rent_env \<Rightarrow> rent_request \<Rightarrow> 'h ledger \<Rightarrow> bool" where
  "quiet_races en q st = (ledger_later st (re_race en st) \<and> ledger_later (re_race en st) (re_race2 en (re_race en st))
     \<and> (\<forall>a. scope_total (re_race2 en (re_race en st)) (rq_class q, rq_seat q, a) = scope_total (re_race en st) (rq_class q, rq_seat q, a))
     \<and> find_reservation (re_race2 en (re_race en st)) (rq_class q) (str_or (fc_name (re_ctx en)) []) (payment_key (rq_key q)) = None)"

text \<open>
  What the payer needs of the sessions the lock does not stop: they may assess, waive, satisfy and withdraw other
  obligations and even waive this one, but this one they neither pay nor withdraw.
\<close>

definition quiet_books :: "(succession_terms \<Rightarrow> 'k) \<Rightarrow> ('h, 'k, 'e) rent_env \<Rightarrow> rent_request \<Rightarrow> ('h, 'k, 'e) rent_world \<Rightarrow> bool" where
  "quiet_books digest en q w = (obligations_ok digest (re_orace en (rw_obl w)) \<and> obl_extends (rw_obl w) (re_orace en (rw_obl w))
     \<and> payments_named (txs (re_race2 en (re_race en (rw_ledger w)))) (re_orace en (rw_obl w))
     \<and> (\<forall>es. ob_events (re_orace en (rw_obl w)) = ob_events (rw_obl w) @ es \<longrightarrow>
          (\<forall>e \<in> set es. oe_corr e = rq_corr q \<longrightarrow> oe_kind e \<notin> {PAYMENT, WITHDRAWN})))"

lemma extends_grows: "extends st st' \<Longrightarrow> ledger_grows (txs st) (txs st')"
  by (auto simp: extends_def ledger_grows_def)

lemma named_grows:
  assumes "ledger_grows ts ts'" "payments_named ts ob"
  shows "payments_named ts' ob"
proof -
  obtain us vs where u: "ts' = us @ vs" "list_all2 same_effect ts us" using assms(1) by (auto simp: ledger_grows_def)
  from u(2) have "map tx_id us = map tx_id ts" by (induction rule: list_all2_induct) (auto simp: same_effectD)
  then have "tx_id ` set ts \<subseteq> tx_id ` set ts'" by (metis Un_upper1 image_Un list.set_map set_append u(1))
  then show ?thesis using assms(2) by (auto simp: payments_named_def)
qed

lemma magnitude_stable:
  assumes "ledger_grows ts ts'" "\<forall>i. oe_tx e = Some i \<longrightarrow> i \<in> tx_id ` set ts"
  shows "payment_event_magnitude ts' e = payment_event_magnitude ts e"
proof (cases "oe_tx e")
  case (Some i)
  have "List.find (\<lambda>t. tx_id t = i) ts \<noteq> None" using assms(2) Some by (auto simp: find_None_iff)
  then obtain t where t: "List.find (\<lambda>t. tx_id t = i) ts = Some t" by blast
  obtain us vs where u: "ts' = us @ vs" "list_all2 same_effect ts us" using assms(1) by (auto simp: ledger_grows_def)
  from find_same_effect [OF u(2) t] t Some show ?thesis by (auto simp: payment_event_magnitude_def u(1) find_append)
qed (simp add: payment_event_magnitude_def)

lemma sum_list_mset: "mset xs = mset ys \<Longrightarrow> sum_list (map f xs) = sum_list (map f ys)"
  for f :: "'a \<Rightarrow> int"
  by (simp only: sum_mset_sum_list [symmetric] mset_map)

lemma paid_as_filter:
  "get_paid_magnitude ts ob corr =
     (\<Sum>e\<leftarrow>filter (\<lambda>e. oe_corr e = corr \<and> oe_kind e \<in> {PAYMENT, WAIVED}) (ob_events ob). payment_event_magnitude ts e)"
  unfolding get_paid_magnitude_def by (rule sum_list_mset) (simp add: get_satisfaction_events_def)

lemma paid_stable:
  assumes "ledger_grows ts ts'" "payments_named ts ob"
  shows "get_paid_magnitude ts' ob corr = get_paid_magnitude ts ob corr"
  unfolding paid_as_filter
  by (rule arg_cong [where f = sum_list], rule map_cong [OF refl], rule magnitude_stable [OF assms(1)])
    (use assms(2) in \<open>auto simp: payments_named_def\<close>)

lemma paid_append:
  "oe_kind e = PAYMENT \<Longrightarrow> get_paid_magnitude ts (append_event e ob) corr =
     get_paid_magnitude ts ob corr + (if oe_corr e = corr then payment_event_magnitude ts e else 0)"
  by (simp add: paid_as_filter append_event_def)

text \<open>Events that pay nothing toward an obligation leave what it has been paid.\<close>

lemma paid_by_others:
  assumes "ob_events ob' = ob_events ob @ es" "\<forall>e \<in> set es. oe_corr e = corr \<longrightarrow> oe_kind e \<noteq> PAYMENT"
  shows "get_paid_magnitude ts ob' corr = get_paid_magnitude ts ob corr"
proof -
  have "payment_event_magnitude ts e = 0" if "e \<in> set es" "oe_corr e = corr" for e
    using that assms(2) by (simp add: payment_event_magnitude_def)
  then have "(\<Sum>e\<leftarrow>filter (\<lambda>e. oe_corr e = corr \<and> oe_kind e \<in> {PAYMENT, WAIVED}) es. payment_event_magnitude ts e) = 0"
    by (induction es) simp_all
  then show ?thesis by (simp add: paid_as_filter assms(1))
qed

text \<open>A row the Ledger holds is the one its id finds.\<close>

lemma find_row: "rows_ok ts \<Longrightarrow> t \<in> set ts \<Longrightarrow> List.find (\<lambda>u. tx_id u = tx_id t) ts = Some t"
proof -
  assume a: "rows_ok ts" "t \<in> set ts"
  then have "distinct (map tx_id ts)" by (simp add: rows_ok_def strict_sorted_iff)
  moreover obtain u where u: "List.find (\<lambda>u. tx_id u = tx_id t) ts = Some u"
    using a(2) by (cases "List.find (\<lambda>u. tx_id u = tx_id t) ts") (auto simp: find_None_iff)
  ultimately show ?thesis using a(2) by (auto simp: find_Some_iff distinct_map inj_on_def)
qed

section \<open>One payment\<close>

lemma funded_plan_cases:
  assumes "funded_plan en c seat description intent amount st = Inr resolved"
  obtains p d where "pl_debit p = amount" "pl_class p = c" "pl_seat p = seat" "pl_source p = ''checking''" "0 \<le> amount"
    "resolve_intended_ledger_plan p d ''NONE'' False st = Inr resolved"
proof -
  from assms obtain authority :: roster_seat and p where p: "build_intended_ledger_plan (of_cents amount) (payment_plan seat c description (st_id authority) intent) = Inr p"
    "resolve_intended_ledger_plan p (re_banking en c) ''NONE'' False st = Inr resolved"
    unfolding funded_plan_def rbind_eq_Inr obl_ledger_Inr by blast
  then show thesis
    by (intro that [of p]) (auto simp: build_intended_ledger_plan_def payment_plan_def split: if_splits)
qed

text \<open>The steps of an authorized payment that succeeds.\<close>

lemma record_payment_cases:
  assumes "record_payment en q a state settings assessed paid amount resolved w = Inr (r, w')"
  obtains applied debit e where
    "apply_resolved_ledger_plan (re_digest en) (re_funding en) (re_race en) (re_race2 en) (re_ctx en) (re_now en)
       resolved (payment_key (rq_key q)) (rw_ledger w) = Inr (applied, rw_ledger w')"
    "pr_principal applied = Some debit"
    "satisfy_obligation (re_orace en) (re_now en) \<lparr>sq_corr = rq_corr q, sq_class = rq_class q, sq_seat = rq_seat q, sq_payment = True,
       sq_tx = Some (tx_id debit), sq_notes = None\<rparr> (rw_obl w) = Inr (e, rw_obl w')"
    "rr_paid r = amount" "rr_remaining r = max 0 (assessed - (paid + amount))" "rr_fully r = (assessed \<le> paid + amount)"
    "rr_tx r = Some (tx_id debit)" "\<not> rr_already r"
proof -
  from assms obtain applied ledger where ap: "apply_resolved_ledger_plan (re_digest en) (re_funding en) (re_race en) (re_race2 en)
      (re_ctx en) (re_now en) resolved (payment_key (rq_key q)) (rw_ledger w) = Inr (applied, ledger)"
    unfolding record_payment_def rbind_eq_Inr obl_ledger_Inr by auto
  note run = assms [unfolded record_payment_def ap obl_ledger_simps rbind_Inr prod.case]
  obtain debit where d: "pr_principal applied = Some debit" using run by (cases "pr_principal applied") auto
  note run = run [unfolded d option.case]
  obtain e ob where s: "satisfy_obligation (re_orace en) (re_now en) \<lparr>sq_corr = rq_corr q, sq_class = rq_class q, sq_seat = rq_seat q,
      sq_payment = True, sq_tx = Some (tx_id debit), sq_notes = None\<rparr> (rw_obl w) = Inr (e, ob)"
    using run unfolding rbind_eq_Inr by auto
  note run = run [unfolded s rbind_Inr prod.case Let_def]
  obtain passes ent where "payment_perks en q a state settings (assessed \<le> paid + amount \<and> paid < assessed \<and> pr_created applied = Some True)
      (rw_ent w) = Inr (passes, ent)"
    using run unfolding rbind_eq_Inr by auto
  with run show thesis using that ap d s by auto
qed

lemma post_rent_payment_cases:
  assumes "post_rent_payment en q a state settings assessed paid amount w = Inr (r, w')" "rr_success r"
  obtains resolved where
    "funded_plan en (rq_class q) (rq_seat q) (re_describe en (rw_obl w) (rq_class q) a) (Some (payment_intent q)) amount (rw_ledger w) = Inr resolved"
    "0 \<le> rs_checking_after resolved" "record_payment en q a state settings assessed paid amount resolved w = Inr (r, w')"
  using assms by (auto simp: post_rent_payment_def rbind_eq_Inr refused_def split: if_splits)

text \<open>A new payment that succeeds: it passed every guard, its command was unknown, and it posts what remains or a lawful part.\<close>

lemma pay_rent_fresh:
  assumes "pay_rent en q w = Inr (r, w')" "rr_success r" "\<not> rr_already r"
    and "find_reservation (rw_ledger (re_wait en w)) (rq_class q) (str_or (fc_name (re_ctx en)) []) (payment_key (rq_key q)) = None"
  obtains a state settings amount where "get_assessment_for_correlation (rw_obl w) (rq_corr q) = Some a"
    "get_obligation_state (re_time en) (txs (rw_ledger w)) (rw_obl w) (rq_corr q) None = Inr (Some state)"
    "0 < amount"
    "amount \<le> resolve_assessment_amount (rw_obl (re_wait en w)) a - get_paid_magnitude (txs (rw_ledger (re_wait en w))) (rw_obl (re_wait en w)) (rq_corr q)"
    "post_rent_payment en q a state settings (resolve_assessment_amount (rw_obl (re_wait en w)) a)
       (get_paid_magnitude (txs (rw_ledger (re_wait en w))) (rw_obl (re_wait en w)) (rq_corr q)) amount (re_wait en w) = Inr (r, w')"
proof -
  let ?w = "re_wait en w"
  from assms(1,2) obtain a where a: "get_assessment_for_correlation (rw_obl w) (rq_corr q) = Some a"
    by (cases "get_assessment_for_correlation (rw_obl w) (rq_corr q)")
      (auto simp: pay_rent_def rbind_eq_Inr refused_def split: if_splits)
  note run = assms(1) [unfolded pay_rent_def a option.case]
  from run assms(2) obtain state where s: "get_obligation_state (re_time en) (txs (rw_ledger w)) (rw_obl w) (rq_corr q) None = Inr (Some state)"
    by (auto simp: rbind_eq_Inr refused_def split: if_splits option.splits)
  from run s assms(2,3) have locked: "pay_rent_locked en q a state ?w = Inr (r, w')"
    by (auto simp: rbind_eq_Inr refused_def already_settled_def Let_def split: if_splits)
  have lawful: "requested_amount_problem x = None" if "rq_amount q = Some x" for x
    using run assms(2) that by (cases "requested_amount_problem x") (auto simp: rbind_eq_Inr refused_def)
  have amount: "0 < n" if c: "cents_of_amount (rq_amount q) = Some n" for n
  proof -
    obtain x where x: "rq_amount q = Some (Finite x)" "n = cents_even x"
      using c by (auto simp: cents_of_amount_def split: option.splits dec.splits)
    have "0 < x" "x = of_cents n" using lawful [OF x(1)] x(2) by (auto simp: requested_amount_problem_def split: if_splits)
    then show ?thesis by (simp add: of_cents_def)
  qed
  have lock: "lock_recovery_scope (rq_class q) (rq_seat q) (rw_ledger ?w) = Inr ()"
    using locked by (auto simp: pay_rent_locked_def rbind_eq_Inr)
  have "replay_reserved_charge (re_digest en) (rq_class q) (str_or (fc_name (re_ctx en)) []) (payment_key (rq_key q))
      (rq_seat q) (rq_seat q) ''rent_payment'' (Some (payment_intent q)) (rw_ledger ?w) = Inr None"
    using assms(4) by (simp add: replay_reserved_charge_def)
  note go = locked [unfolded pay_rent_locked_def lock this obl_ledger_simps rbind_Inr option.case Let_def]
  obtain settings where settings: "payment_settings (rw_obl ?w) (rq_class q) a = Some settings"
    using go assms(2) by (cases "payment_settings (rw_obl ?w) (rq_class q) a") (auto simp: refused_def)
  let ?assessed = "resolve_assessment_amount (rw_obl ?w) a" and ?paid = "get_paid_magnitude (txs (rw_ledger ?w)) (rw_obl ?w) (rq_corr q)"
  note go = go [unfolded settings option.case]
  have pos: "\<not> ?assessed \<le> 0" "\<not> ?assessed - ?paid \<le> 0"
    using go assms(2,3) by (auto simp: refused_def already_settled_def split: if_splits)
  note go = go [unfolded if_not_P [OF pos(1)] if_not_P [OF pos(2)]]
  obtain n where n: "payment_slice settings (cents_of_amount (rq_amount q)) (?assessed - ?paid) = Some n"
    using go assms(2) by (cases "payment_slice settings (cents_of_amount (rq_amount q)) (?assessed - ?paid)") (auto simp: refused_def)
  have "0 < n" "n \<le> ?assessed - ?paid"
    using n pos(2) amount by (auto simp: payment_slice_def split: option.splits if_splits)
  then show thesis using that [OF a s] go n by simp
qed


text \<open>A payment by a row no payment names yet appends its event.\<close>

lemma satisfy_by_new_row:
  assumes "satisfy_obligation race now \<lparr>sq_corr = corr, sq_class = c, sq_seat = s, sq_payment = True, sq_tx = Some i, sq_notes = None\<rparr> ob = Inr (e, ob')"
    and "get_payment_event_by_ledger ob (Some i) = None"
  shows "ob' = append_event e (race ob) \<and> oe_corr e = corr \<and> oe_kind e = PAYMENT \<and> oe_tx e = Some i"
proof -
  obtain a where a: "get_assessment_for_correlation ob corr = Some a"
    using assms(1) by (auto simp: satisfy_obligation_def split: option.splits)
  have "oe_corr a = corr" using assessment_SomeD [OF a] by simp
  with assms a show ?thesis by (auto simp: satisfy_obligation_def rbind_eq_Inr Let_def lineage_row_def)
qed

text \<open>What recording an authorized payment leaves in both books.\<close>

lemma recorded_payment:
  assumes "record_payment en q a state settings assessed paid amount resolved w = Inr (r, w')" "0 < amount"
    and "funded_plan en (rq_class q) (rq_seat q) description intent amount (rw_ledger w) = Inr resolved"
    and "rent_world_ok digest w" "quiet_races en q (rw_ledger w)" "quiet_books digest en q w"
    and "find_reservation (rw_ledger w) (rq_class q) (str_or (fc_name (re_ctx en)) []) (payment_key (rq_key q)) = None"
  shows "rent_world_ok digest w'" "extends (re_race2 en (re_race en (rw_ledger w))) (rw_ledger w')"
    "get_paid_magnitude (txs (rw_ledger w')) (rw_obl w') (rq_corr q) = get_paid_magnitude (txs (rw_ledger w)) (rw_obl w) (rq_corr q) + amount"
    "get_available_balances (rw_ledger w') (rq_seat q) (rq_class q) = Inr (rs_checking_after resolved, rs_savings_after resolved)"
    "rs_checking_after resolved + rs_savings_after resolved =
       scope_total (rw_ledger w) (rq_class q, rq_seat q, ''checking'') + scope_total (rw_ledger w) (rq_class q, rq_seat q, ''savings'') - amount"
    "(c, s) \<noteq> (rq_class q, rq_seat q) \<Longrightarrow> scope_total (rw_ledger w') (c, s, x) = scope_total (re_race2 en (re_race en (rw_ledger w))) (c, s, x)"
    "obl_extends (rw_obl w) (rw_obl w')"
    "corr \<noteq> rq_corr q \<Longrightarrow> get_paid_magnitude (txs (rw_ledger w')) (rw_obl w') corr =
       get_paid_magnitude (txs (re_race2 en (re_race en (rw_ledger w)))) (re_orace en (rw_obl w)) corr"
proof -
  let ?L = "rw_ledger w" and ?L2 = "re_race2 en (re_race en (rw_ledger w))" and ?O = "re_orace en (rw_obl w)"
  from funded_plan_cases [OF assms(3)] obtain p d where p: "pl_debit p = amount" "pl_class p = rq_class q" "pl_seat p = rq_seat q"
    "pl_source p = ''checking''" "resolve_intended_ledger_plan p d ''NONE'' False ?L = Inr resolved" by metis
  from record_payment_cases [OF assms(1)] obtain applied debit e where ap:
    "apply_resolved_ledger_plan (re_digest en) (re_funding en) (re_race en) (re_race2 en) (re_ctx en) (re_now en)
       resolved (payment_key (rq_key q)) ?L = Inr (applied, rw_ledger w')"
    "pr_principal applied = Some debit"
    "satisfy_obligation (re_orace en) (re_now en) \<lparr>sq_corr = rq_corr q, sq_class = rq_class q, sq_seat = rq_seat q, sq_payment = True,
       sq_tx = Some (tx_id debit), sq_notes = None\<rparr> (rw_obl w) = Inr (e, rw_obl w')" by metis
  have races: "ledger_ok (re_race en ?L)" "ledger_ok ?L2" "extends ?L (re_race en ?L)" "extends (re_race en ?L) ?L2"
    "find_reservation ?L2 (rq_class q) (str_or (fc_name (re_ctx en)) []) (payment_key (rq_key q)) = None"
    "\<And>x. scope_total ?L2 (rq_class q, rq_seat q, x) = scope_total (re_race en ?L) (rq_class q, rq_seat q, x)"
    using assms(5) by (auto simp: quiet_races_def ledger_later_def)
  have known: "account_known (pl_source p)" by (simp add: p(4) account_known_def)
  note after = resolve_after [OF p(5) known]
  have fee: "rs_fee resolved = 0" and bal: "get_available_balances ?L (rq_seat q) (rq_class q) = Inr (rs_checking_before resolved, rs_savings_before resolved)"
    using p(5) by (cases rule: resolve_cases; simp add: p checking_plan_def Let_def charge_fee_def)+
  have created: "pr_created applied = Some True"
    by (rule apply_plan_first [OF ap(1)]) (use assms(2,7) races(4,5) p after in auto)
  note t = applied_plan_totals [OF p(5) known ap(1) created races(1,2)]
  from applied_principal [OF ap(1) created] obtain row where row: "pr_principal applied = Some row" "row \<in> set (pr_effects applied)"
    "tx_cents row = - amount" using p(1) after(1) assms(2) fee by auto
  have debit: "debit = row" using ap(2) row(1) by simp
  have ok: "ledger_ok ?L" "obligations_ok digest (rw_obl w)" "payments_named (txs ?L) (rw_obl w)" using assms(4) by (simp_all add: rent_world_ok_def)
  have rows: "rows_ok (txs (rw_ledger w'))" using t(1) by (simp add: ledger_ok_def)
  then have new: "tx_id debit \<notin> tx_id ` set (txs ?L2)"
    using row(2) by (auto simp: t(3) debit rows_ok_def strict_sorted_iff)
  have grows2: "ledger_grows (txs ?L) (txs ?L2)" by (rule extends_grows [OF extends_trans [OF races(3,4)]])
  have grows: "ledger_grows (txs ?L) (txs (rw_ledger w'))" by (rule extends_grows [OF extends_trans [OF extends_trans [OF races(3,4)] t(2)]])
  have "get_payment_event_by_ledger (rw_obl w) (Some (tx_id debit)) = None"
    using new named_grows [OF grows2 ok(3)] by (auto simp: get_payment_event_by_ledger_def payments_named_def find_None_iff)
  from satisfy_by_new_row [OF ap(3) this] have e: "rw_obl w' = append_event e ?O" "oe_corr e = rq_corr q" "oe_kind e = PAYMENT"
    "oe_tx e = Some (tx_id debit)" by auto
  have others: "obligations_ok digest ?O" "obl_extends (rw_obl w) ?O" "payments_named (txs ?L2) ?O"
    using assms(6) by (simp_all add: quiet_books_def)
  then obtain es where es: "ob_events ?O = ob_events (rw_obl w) @ es" by (auto simp: obl_extends_def)
  then have kinds: "\<forall>x \<in> set es. oe_corr x = rq_corr q \<longrightarrow> oe_kind x \<notin> {PAYMENT, WITHDRAWN}"
    using assms(6) by (simp add: quiet_books_def)
  have "oe_tx x \<noteq> Some (tx_id debit)" if "x \<in> set es" for x
    using that new others(3) es by (auto simp: payments_named_def)
  then have quiet: "quiet_for PAYMENT (rq_corr q) (Some (tx_id debit)) (rw_obl w) ?O"
    using kinds es by (auto simp: quiet_for_def)
  have grows3: "ledger_grows (txs ?L2) (txs (rw_ledger w'))" by (rule extends_grows [OF t(2)])
  have "obligations_ok digest (rw_obl w')"
    by (rule satisfy_ok [OF ap(3) ok(2) others(1,2)]) (use quiet in simp)
  then show "rent_world_ok digest w'"
    using t(1,3) named_grows [OF grows3 others(3)] row(2) e(4)
    by (auto simp: rent_world_ok_def payments_named_def e(1) append_event_def debit)
  show "extends ?L2 (rw_ledger w')" by (rule t(2))
  have "payment_event_magnitude (txs (rw_ledger w')) e = amount"
    using find_row [OF rows, of row] row(2,3) e(3,4) assms(2) by (simp add: payment_event_magnitude_def debit t(3))
  moreover have "get_paid_magnitude (txs (rw_ledger w')) ?O (rq_corr q) = get_paid_magnitude (txs ?L) (rw_obl w) (rq_corr q)"
    using paid_by_others [OF es] kinds paid_stable [OF grows ok(3)] by simp
  ultimately show "get_paid_magnitude (txs (rw_ledger w')) (rw_obl w') (rq_corr q) = get_paid_magnitude (txs ?L) (rw_obl w) (rq_corr q) + amount"
    using paid_append [OF e(3), of "txs (rw_ledger w')" ?O "rq_corr q"] e(2) by (simp add: e(1))
  show "get_paid_magnitude (txs (rw_ledger w')) (rw_obl w') corr = get_paid_magnitude (txs ?L2) ?O corr" if "corr \<noteq> rq_corr q"
    using that paid_append [OF e(3), of "txs (rw_ledger w')" ?O corr] e(2) paid_stable [OF grows3 others(3), of corr] by (simp add: e(1))
  note tot = t(5) [unfolded p(1-4) fee]
  note b = balances_total [OF races(1) t(4) [unfolded p]] and b0 = balances_total [OF ok(1) bal]
  show "get_available_balances (rw_ledger w') (rq_seat q) (rq_class q) = Inr (rs_checking_after resolved, rs_savings_after resolved)"
    unfolding balances_of_total [OF t(1) b(3,4)] tot races(6) after(2,3) p(1,4) fee b(1,2) by simp
  show "rs_checking_after resolved + rs_savings_after resolved =
      scope_total ?L (rq_class q, rq_seat q, ''checking'') + scope_total ?L (rq_class q, rq_seat q, ''savings'') - amount"
    unfolding after(2,3) p(1,4) fee b0(1,2) by simp
  show "scope_total (rw_ledger w') (c, s, x) = scope_total ?L2 (c, s, x)" if "(c, s) \<noteq> (rq_class q, rq_seat q)"
    using that by (auto simp: tot)
  show "obl_extends (rw_obl w) (rw_obl w')"
    unfolding e(1) by (rule obl_extends_trans [OF others(2) obl_extends_append(1)])
qed


text \<open>
  C18. A rent payment is recorded exactly. The first delivery of a payment command that succeeds takes a positive amount, at
  most what remained, from the payer's two accounts together, leaves checking without debt, and adds the same amount to what
  the obligation has been paid; to no other obligation does it add anything. It reports what then remains, and that the
  obligation is settled exactly when that is nothing. No other seat's account changes, and both books stay lawful.
\<close>

theorem rent_payment_is_recorded_exactly:
  assumes "pay_rent en q w = Inr (r, w')" "rr_success r" "\<not> rr_already r"
    and "w1 = re_wait en w" "rent_world_ok digest w1" "obl_extends (rw_obl w) (rw_obl w1)" "quiet_races en q (rw_ledger w1)"
    and "quiet_books digest en q w1"
    and "find_reservation (rw_ledger w1) (rq_class q) (str_or (fc_name (re_ctx en)) []) (payment_key (rq_key q)) = None"
    and "get_available_balances (rw_ledger w1) (rq_seat q) (rq_class q) = Inr (checking, savings)"
  shows "\<exists>a checking' savings'. get_assessment_for_correlation (rw_obl w') (rq_corr q) = Some a
     \<and> 0 < rr_paid r
     \<and> get_paid_magnitude (txs (rw_ledger w')) (rw_obl w') (rq_corr q) = get_paid_magnitude (txs (rw_ledger w1)) (rw_obl w1) (rq_corr q) + rr_paid r
     \<and> (\<forall>corr. corr \<noteq> rq_corr q \<longrightarrow> get_paid_magnitude (txs (rw_ledger w')) (rw_obl w') corr =
          get_paid_magnitude (txs (re_race2 en (re_race en (rw_ledger w1)))) (re_orace en (rw_obl w1)) corr)
     \<and> rr_remaining r = resolve_assessment_amount (rw_obl w') a - get_paid_magnitude (txs (rw_ledger w')) (rw_obl w') (rq_corr q)
     \<and> 0 \<le> rr_remaining r \<and> (rr_fully r \<longleftrightarrow> rr_remaining r = 0)
     \<and> get_available_balances (rw_ledger w') (rq_seat q) (rq_class q) = Inr (checking', savings')
     \<and> checking' + savings' = checking + savings - rr_paid r \<and> 0 \<le> checking'
     \<and> (\<forall>c s x. (c, s) \<noteq> (rq_class q, rq_seat q) \<longrightarrow>
          available_balance_expression (rw_ledger w') s c x = available_balance_expression (re_race2 en (re_race en (rw_ledger w1))) s c x)
     \<and> rent_world_ok digest w'"
proof -
  from pay_rent_fresh [OF assms(1-3) assms(9) [unfolded assms(4)]] obtain a state settings amount where
    a: "get_assessment_for_correlation (rw_obl w) (rq_corr q) = Some a"
    and amount: "0 < amount" "amount \<le> resolve_assessment_amount (rw_obl w1) a - get_paid_magnitude (txs (rw_ledger w1)) (rw_obl w1) (rq_corr q)"
    and run: "post_rent_payment en q a state settings (resolve_assessment_amount (rw_obl w1) a)
       (get_paid_magnitude (txs (rw_ledger w1)) (rw_obl w1) (rq_corr q)) amount w1 = Inr (r, w')"
    unfolding assms(4) by metis
  from post_rent_payment_cases [OF run assms(2)] obtain resolved where
    fund: "funded_plan en (rq_class q) (rq_seat q) (re_describe en (rw_obl w1) (rq_class q) a) (Some (payment_intent q)) amount (rw_ledger w1) = Inr resolved"
    and pos: "0 \<le> rs_checking_after resolved"
    and rec: "record_payment en q a state settings (resolve_assessment_amount (rw_obl w1) a)
       (get_paid_magnitude (txs (rw_ledger w1)) (rw_obl w1) (rq_corr q)) amount resolved w1 = Inr (r, w')" by metis
  note left = recorded_payment [OF rec amount(1) fund assms(5,7-9)]
  have res: "rr_paid r = amount"
    "rr_remaining r = max 0 (resolve_assessment_amount (rw_obl w1) a - (get_paid_magnitude (txs (rw_ledger w1)) (rw_obl w1) (rq_corr q) + amount))"
    "rr_fully r = (resolve_assessment_amount (rw_obl w1) a \<le> get_paid_magnitude (txs (rw_ledger w1)) (rw_obl w1) (rq_corr q) + amount)"
    using record_payment_cases [OF rec] by metis+
  have ext: "obl_extends (rw_obl w) (rw_obl w')" by (rule obl_extends_trans [OF assms(6) left(7)])
  then obtain es where "ob_events (rw_obl w') = ob_events (rw_obl w) @ es" by (auto simp: obl_extends_def)
  note a' = find_assessment_append [OF a this]
  have "0 \<le> get_paid_magnitude (txs (rw_ledger w1)) (rw_obl w1) (rq_corr q)"
    unfolding get_paid_magnitude_def by (rule sum_list_nonneg) (auto simp: magnitude_nonneg)
  then have same: "resolve_assessment_amount (rw_obl w') a = resolve_assessment_amount (rw_obl w1) a"
    using amount_frozen [OF left(7), of a] amount by simp
  have ok: "ledger_ok (rw_ledger w1)" "ledger_ok (rw_ledger w')" "ledger_ok (re_race2 en (re_race en (rw_ledger w1)))"
    using assms(5,7) left(1) by (auto simp: rent_world_ok_def quiet_races_def ledger_later_def)
  have others: "\<forall>c s x. (c, s) \<noteq> (rq_class q, rq_seat q) \<longrightarrow>
      available_balance_expression (rw_ledger w') s c x = available_balance_expression (re_race2 en (re_race en (rw_ledger w1))) s c x"
    using left(6) available_is_total [OF ledger_ok_core [OF ok(2)]] available_is_total [OF ledger_ok_core [OF ok(3)]] by auto
  show ?thesis
    using a' res amount left(1,3-5,8) pos same others balances_total(1,2) [OF ok(1) assms(10)] by auto
qed


section \<open>A worked bill\<close>

definition rent_ctx :: feat_ctx where
  "rent_ctx = \<lparr>fc_name = Some ''FEAT-OBL-001'', fc_correlation = ''corr-9'', fc_key = None\<rparr>"

definition rent_roster :: "fprint ledger" where
  "rent_roster = empty_ledger (\<lambda>s. if s = 7 \<or> s = 9 then Some ''c1'' else None) (\<lambda>c. c = ''c1'')"

definition wages :: effect where
  "wages = \<lparr>ef_seat = 7, ef_class = ''c1'', ef_target = 7, ef_actor = 9, ef_mechanism = ''system'', ef_amount = 100,
     ef_account = ''checking'', ef_type = ''payroll'', ef_description = ''Payroll'', ef_original = None, ef_policy = None,
     ef_subtype = None, ef_correlation = None, ef_comp_origin = None, ef_comp_cents = 0, ef_intent = None\<rparr>"

definition rent_bank :: "fprint ledger" where
  "rent_bank = (case create_reserved_effects (\<lambda>x. x) (\<lambda>st. st) rent_ctx 1 ''c1'' ''FEAT-PROD-002'' ''pay-1'' [wages] None rent_roster of
     Inr (rows, created, st) \<Rightarrow> st | Inl e \<Rightarrow> rent_roster)"

definition rent_request_of :: "string \<Rightarrow> string \<Rightarrow> string option \<Rightarrow> assessment_request" where
  "rent_request_of corr type source = \<lparr>aq_seat = 7, aq_class = ''c1'', aq_ref = ''rent:c1:7'', aq_corr = corr, aq_type = type,
     aq_policy = Some ''r1'', aq_cycle = None, aq_source = source\<rparr>"

definition rent_books0 :: "bool \<Rightarrow> succession_terms obligations" where
  "rent_books0 incremental = empty_obligations [example_rent\<lparr>rp_incremental := incremental\<rparr>] []"

definition rent_books1 :: "bool \<Rightarrow> succession_terms obligations" where
  "rent_books1 incremental = obl_after (assess_obligation (\<lambda>x. x) 1 (rent_request_of ''a1'' ''RENT'' None) (rent_books0 incremental))"

definition rent_books :: "bool \<Rightarrow> succession_terms obligations" where
  "rent_books incremental = obl_after (assess_obligation (\<lambda>x. x) 2 (rent_request_of ''f1'' ''LATE_FEE'' (Some ''a1'')) (rent_books1 incremental))"

definition rent_example_env :: "(fprint, succession_terms, nat) rent_env" where
  "rent_example_env = \<lparr>re_time = payroll_env, re_now = 3, re_ctx = rent_ctx, re_digest = (\<lambda>x. x), re_funding = (\<lambda>c f k. ''funding''),
     re_banking = (\<lambda>c. \<lparr>bd_class = c, bd_version = None, bd_protection = False, bd_flat_fee = None, bd_progressive = Some [],
       bd_cwi = None, bd_period_start = None\<rparr>),
     re_owner = (\<lambda>c. Some 1), re_seats = [\<lparr>st_id = 9, st_class = ''c1'', st_user = Some 1, st_role = ''teacher''\<rparr>],
     re_hash = (\<lambda>s. s), re_describe = (\<lambda>ob c a. ''Rent''), re_award = (\<lambda>r s corr n. Inr (2, n + 2)),
     re_wait = (\<lambda>w. w), re_race = (\<lambda>st. st), re_race2 = (\<lambda>st. st), re_orace = (\<lambda>ob. ob)\<rparr>"

text \<open>A class whose students hold 100.00 and owe a rent of 50.00 and a late fee of 10.00.\<close>

definition rent_start :: "bool \<Rightarrow> (fprint, succession_terms, nat) rent_world" where
  "rent_start incremental = \<lparr>rw_ledger = rent_bank, rw_obl = rent_books incremental, rw_ent = 0\<rparr>"

definition example_payment :: rent_request where
  "example_payment = \<lparr>rq_class = ''c1'', rq_seat = 7, rq_corr = ''a1'', rq_key = ''k1'', rq_amount = None\<rparr>"

lemma rent_bank_ok: "ledger_ok rent_bank"
proof -
  have ok: "ledger_ok rent_roster" unfolding rent_roster_def by (rule empty_ledger_ok)
  have "\<not> isl (create_reserved_effects (\<lambda>x. x) (\<lambda>st. st) rent_ctx 1 ''c1'' ''FEAT-PROD-002'' ''pay-1'' [wages] None rent_roster)"
    by code_simp
  then obtain rows created st where st:
    "create_reserved_effects (\<lambda>x. x) (\<lambda>st. st) rent_ctx 1 ''c1'' ''FEAT-PROD-002'' ''pay-1'' [wages] None rent_roster = Inr (rows, created, st)"
    by (cases "create_reserved_effects (\<lambda>x. x) (\<lambda>st. st) rent_ctx 1 ''c1'' ''FEAT-PROD-002'' ''pay-1'' [wages] None rent_roster") auto
  from create_reserved_effects_ok [OF this ok ok] show ?thesis by (simp add: rent_bank_def st)
qed

lemma rent_books_ok: "obligations_ok (\<lambda>x. x) (rent_books incremental)"
proof -
  have one: "\<exists>e. assess_obligation (\<lambda>x. x) 1 (rent_request_of ''a1'' ''RENT'' None) (rent_books0 incremental) = Inr (e, rent_books1 incremental)"
    unfolding rent_books1_def by (rule obl_after_Inr) (cases incremental; code_simp)
  have two: "\<exists>e. assess_obligation (\<lambda>x. x) 2 (rent_request_of ''f1'' ''LATE_FEE'' (Some ''a1'')) (rent_books1 incremental) = Inr (e, rent_books incremental)"
    unfolding rent_books_def by (rule obl_after_Inr) (cases incremental; code_simp)
  note alone = hist_none [of "\<lambda>x. x :: succession_terms"]
  from one two obtain e1 e2 where e: "assess_obligation (\<lambda>x. x) 1 (rent_request_of ''a1'' ''RENT'' None) (rent_books0 incremental) = Inr (e1, rent_books1 incremental)"
    "assess_obligation (\<lambda>x. x) 2 (rent_request_of ''f1'' ''LATE_FEE'' (Some ''a1'')) (rent_books1 incremental) = Inr (e2, rent_books incremental)" by blast
  note h1 = hist_assess [where race = "\<lambda>x. x", OF alone alone e(1)]
  note h2 = hist_assess [where race = "\<lambda>x. x", OF h1 alone e(2)]
  from history_keeps [OF h2] show ?thesis by (simp add: rent_books0_def empty_obligations_ok)
qed

lemma rent_start_ok: "rent_world_ok (\<lambda>x. x) (rent_start False)"
proof -
  have "filter (\<lambda>e. oe_tx e \<noteq> None) (ob_events (rent_books False)) = []" by code_simp
  then have "payments_named (txs rent_bank) (rent_books False)" by (auto simp: payments_named_def filter_empty_conv)
  then show ?thesis by (simp add: rent_world_ok_def rent_start_def rent_bank_ok rent_books_ok)
qed

definition rent_view :: "obl_error + (rent_result \<times> (fprint, succession_terms, nat) rent_world) \<Rightarrow> (bool \<times> bool \<times> int) option" where
  "rent_view m = (case m of Inr (r, w) \<Rightarrow> Some (rr_success r, rr_already r, rr_paid r) | Inl e \<Rightarrow> None)"

lemma rent_payment_is_recorded_exactly_witness:
  "\<exists>r w'. pay_rent rent_example_env example_payment (rent_start False) = Inr (r, w') \<and> rr_paid r = 5000 \<and> rr_remaining r \<ge> 0
     \<and> (\<exists>checking' savings'. get_available_balances (rw_ledger w') 7 ''c1'' = Inr (checking', savings') \<and> checking' + savings' = 5000)
     \<and> rent_world_ok (\<lambda>x. x) w'"
proof -
  let ?w = "rent_start False"
  have "rent_view (pay_rent rent_example_env example_payment ?w) = Some (True, False, 5000)" by code_simp
  then obtain r w' where run: "pay_rent rent_example_env example_payment ?w = Inr (r, w')" "rr_success r" "\<not> rr_already r" "rr_paid r = 5000"
    by (auto simp: rent_view_def split: sum.splits)
  have free: "find_reservation (rw_ledger ?w) (rq_class example_payment) (str_or (fc_name (re_ctx rent_example_env)) []) (payment_key (rq_key example_payment)) = None"
    by code_simp
  have ids: "re_wait rent_example_env = (\<lambda>w. w)" "re_race rent_example_env = (\<lambda>w. w)" "re_race2 rent_example_env = (\<lambda>w. w)"
    "re_orace rent_example_env = (\<lambda>ob. ob)"
    by (simp_all add: rent_example_env_def)
  have quiet: "quiet_races rent_example_env example_payment (rw_ledger ?w)"
    using free rent_bank_ok by (simp add: quiet_races_def ids ledger_later_def rent_start_def)
  have books: "quiet_books (\<lambda>x. x) rent_example_env example_payment ?w"
    using rent_start_ok by (simp add: quiet_books_def ids rent_world_ok_def)
  have bal: "get_available_balances (rw_ledger ?w) (rq_seat example_payment) (rq_class example_payment) = Inr (10000, 0)" by code_simp
  have wait: "?w = re_wait rent_example_env ?w" by (simp add: ids)
  have ext: "obl_extends (rw_obl ?w) (rw_obl ?w)" by (simp add: obl_extends_def)
  from rent_payment_is_recorded_exactly [OF run(1-3) wait rent_start_ok ext quiet books free bal] run show ?thesis
    by (auto simp: example_payment_def)
qed

section \<open>Where a bill payment breaks its promise\<close>

definition bill_view :: "obl_error + (bill_result \<times> (fprint, succession_terms, nat) rent_world)
    \<Rightarrow> (bool \<times> string option \<times> int \<times> int \<times> (led_error + int \<times> int)) option" where
  "bill_view m = (case m of Inl e \<Rightarrow> None
     | Inr (r, w) \<Rightarrow> Some (br_success r, br_error r, get_paid_magnitude (txs (rw_ledger w)) (rw_obl w) ''a1'',
         get_paid_magnitude (txs (rw_ledger w)) (rw_obl w) ''f1'', get_available_balances (rw_ledger w) 7 ''c1''))"

lemma bill_view_Some:
  "bill_view m = Some (ok, err, x, y, b) \<Longrightarrow> \<exists>r w. m = Inr (r, w) \<and> br_success r = ok \<and> br_error r = err
     \<and> get_paid_magnitude (txs (rw_ledger w)) (rw_obl w) ''a1'' = x \<and> get_paid_magnitude (txs (rw_ledger w)) (rw_obl w) ''f1'' = y
     \<and> get_available_balances (rw_ledger w) 7 ''c1'' = b"
  by (auto simp: bill_view_def split: sum.splits)

text \<open>
  C32. A bill payment can be refused after it took the money. In a class without partial payments, 55.00 offered on a bill of
  50.00 rent and 10.00 late fee passes the affordability check; the rent slice is debited and recorded, the late-fee slice
  is then refused as a partial payment, and the result says the whole payment failed while the debit stays.
\<close>

theorem refused_bill_payment_took_money:
  "\<exists>r w'. pay_rent_bill rent_example_env ''c1'' 7 ''a1'' ''k1'' (Some (Finite 55)) (rent_start False) = Inr (r, w')
     \<and> \<not> br_success r \<and> br_error r = Some ''PARTIAL_NOT_ALLOWED''
     \<and> get_paid_magnitude (txs (rw_ledger w')) (rw_obl w') ''a1'' = 5000 \<and> get_paid_magnitude (txs (rw_ledger w')) (rw_obl w') ''f1'' = 0
     \<and> get_available_balances (rw_ledger w') 7 ''c1'' = Inr (5000, 0)"
proof -
  have "bill_view (pay_rent_bill rent_example_env ''c1'' 7 ''a1'' ''k1'' (Some (Finite 55)) (rent_start False)) =
      Some (False, Some ''PARTIAL_NOT_ALLOWED'', 5000, 0, Inr (5000, 0))" by code_simp
  from bill_view_Some [OF this] show ?thesis by blast
qed

text \<open>
  A repeated bill payment can raise instead of replaying, when what remains is less than the command first paid of a
  slice. Where partial payments are allowed, there is such a run: 40.00 of the bill of 60.00 is accepted; the same command
  again finds 20.00 remaining, offers that to the slice it already paid, and the slice's command identity is refused
  because its recorded amount was 40.00.
\<close>

theorem repeated_bill_payment_is_refused:
  "\<exists>r w'. pay_rent_bill rent_example_env ''c1'' 7 ''a1'' ''k1'' (Some (Finite 40)) (rent_start True) = Inr (r, w')
     \<and> br_success r \<and> get_paid_magnitude (txs (rw_ledger w')) (rw_obl w') ''a1'' = 4000
     \<and> isl (pay_rent_bill rent_example_env ''c1'' 7 ''a1'' ''k1'' (Some (Finite 40)) w')"
proof -
  let ?pay = "pay_rent_bill rent_example_env ''c1'' 7 ''a1'' ''k1'' (Some (Finite 40))"
  have "case ?pay (rent_start True) of Inl e \<Rightarrow> False | Inr (r, w) \<Rightarrow> br_success r
      \<and> get_paid_magnitude (txs (rw_ledger w)) (rw_obl w) ''a1'' = 4000 \<and> isl (?pay w)" by code_simp
  then show ?thesis by (auto split: sum.splits)
qed

end
