(* ===== verification/Spec2Isabelle.thy ===== *)
theory Spec2Isabelle
  imports Temporal Ledger_Book Ledger_Transfer Ledger_Charges Payroll_Paydays Economic_Claims Class_Configuration Attendance_Claims Payroll_Cycle_Claims Payroll_Allocation Rent_Claims
begin

text \<open>
  Classroom Token Hub: the temporal and monetary core of a class economy (Python, Flask and PostgreSQL).

  \<^bold>\<open>The program.\<close> Students of a class earn tokens for attendance, hold a checking and a savings account, and pay
  rent, insurance, fines and purchases; a teacher configures the class. Six parts carry that logic, and they are
  the ones modelled here. The canonical temporal resolver answers every question about time, in the class's time
  zone. The Ledger is an append-only table of effects with balances read from snapshots plus what is pending. Class
  configuration is append-only too: the row in force at an instant is found by its effective date. Attendance pairs
  rows into intervals; Payroll prices the intervals and posts one credit per seat and run, freezing what it paid
  for. Obligations records what is assessed and how it was satisfied, and derives what is owed. The Economic Engine
  turns the class's wage index into the reference amounts and accrues savings interest. Every part asks the
  resolver for the time; Payroll reads Attendance and posts to the Ledger; charges resolve against the Ledger and
  class configuration; Obligations reads the Ledger rows its payments name and the policy versions its assessments
  froze.

  \<^bold>\<open>Theories and sources.\<close>
  \<^item> \<open>Prelude\<close>: results (\<open>error + value\<close> with \<open>rbind\<close>), Python strings, cents and rounding, list and order lemmas, the
    collections \<open>res_simps\<close> and \<open>res_elims\<close>. \<open>Calendar\<close>: Python's proleptic Gregorian calendar.
  \<^item> \<open>Temporal\<close>: \<^verbatim>\<open>app/utils/canonical_temporal_resolver.py\<close>. Instants and wall times are microseconds; a zone is a record
    \<open>tzinfo\<close> of what pytz answers, with \<open>lawful_tz\<close> as what the theorems assume of it (no clock put back over a local midnight); every primitive, the authority
    resolution and the dispatch with its argument checks.
  \<^item> \<open>Ledger_Core\<close> (\<^verbatim>\<open>ledger_posting_service.py\<close>, \<^verbatim>\<open>ledger_command_service.py\<close>, \<^verbatim>\<open>transaction_idempotency.py\<close>),
    \<open>Ledger_Settlement\<close> (\<^verbatim>\<open>ledger_settlement_service.py\<close>, \<^verbatim>\<open>ledger_balance_query_service.py\<close>), \<open>Ledger_Transfer\<close>
    (\<^verbatim>\<open>ledger_transfer_service.py\<close>, \<^verbatim>\<open>transfer_feat.py\<close>), \<open>Ledger_Plans\<close> (\<^verbatim>\<open>ledger_resolution_service.py\<close>,
    \<^verbatim>\<open>ledger_fee_service.py\<close>, \<^verbatim>\<open>ledger_penalty_service.py\<close>). The state is the record \<open>ledger\<close>: rows, snapshots,
    reservations and the roster. \<open>Ledger_Invariant\<close>, \<open>Ledger_Run\<close>, \<open>Ledger_Claims\<close> and \<open>Ledger_Charges\<close> hold its
    invariant, runs and properties; \<open>Ledger_Book\<close> the abstract account book it refines.
  \<^item> \<open>Effective_Dating\<close>, \<open>Class_Configuration\<close> (\<^verbatim>\<open>class_configuration_query_service.py\<close>), \<open>Economic_Policy\<close>
    (\<^verbatim>\<open>economy_policy.py\<close>), \<open>Economic_Engine\<close> and \<open>Economic_Claims\<close> (\<^verbatim>\<open>economic_engine.py\<close>).
  \<^item> \<open>Payroll_Settings\<close>, \<open>Payroll_Schedule\<close>, \<open>Payroll_Paydays\<close> (\<^verbatim>\<open>services/payroll/settings.py\<close>, \<^verbatim>\<open>schedule.py\<close>).
  \<^item> \<open>Attendance\<close>, \<open>Attendance_Claims\<close> (\<^verbatim>\<open>attendance_service.py\<close>, \<^verbatim>\<open>attendance_writer_service.py\<close>,
    \<^verbatim>\<open>hall_pass_status_service.py\<close>); \<open>Attendance_Payroll\<close>, \<open>Payroll_Membership\<close>, \<open>Payroll_Run\<close>, \<open>Payroll_Run_Claims\<close>,
    \<open>Payroll_Cycle_Claims\<close> (\<^verbatim>\<open>pricing.py\<close>, \<^verbatim>\<open>settlement.py\<close>, \<^verbatim>\<open>cycle_completion.py\<close>, \<^verbatim>\<open>feats/prod.py\<close>,
    \<^verbatim>\<open>feats/complete_payroll_cycle.py\<close>); \<open>Payroll_Allocation\<close> (\<^verbatim>\<open>ledger_payroll_allocation.py\<close>).
  \<^item> \<open>Obligations\<close> (\<^verbatim>\<open>obligations_service.py\<close>), \<open>Bill_Cycles\<close> (the five obligation FEATs that assess, satisfy, withdraw,
    schedule and terminate), \<open>Obligation_Invariant\<close>, \<open>Obligation_Run\<close>, \<open>Obligation_History\<close>, \<open>Obligation_Claims\<close>,
    \<open>Obligation_Settlement\<close>. \<open>Rent_Payment\<close>, \<open>Rent_Claims\<close> (\<^verbatim>\<open>feats/rent_payment_feat.py\<close>): the command over the Ledger and the
    obligations together, for one obligation and for a bill with its late fees.
  \<^item> \<open>Command_Interface\<close> and \<open>Refinement_Interface\<close> hold the two interfaces the parts share: a command whose success
    replays without effect (interpreted for reserved commands, transfers, overdraft fees and successions), and a forward
    simulation (interpreted for the ledger and its book).

  \<^bold>\<open>Conventions.\<close> An exception is \<open>Inl\<close> and discards the state, as the rolled-back transaction does. What other sessions
  commit between a read and the insert that follows is a parameter \<open>race\<close>, restricted by hypothesis to runs of the same
  program. Satisfactions and withdrawals of an obligation, which neither a lock nor a constraint protects, are raced too; what
  clashing ones break is proved, and histories exclude exactly those. A SHA-256 fingerprint is a parameter \<open>digest\<close> of its
  payload; only \<open>changed_payload_is_refused\<close> needs it to be free of collisions. Decimals are rationals with the code's quantization written out, or cents.

  \<^bold>\<open>What the lemmas show.\<close> The available balance is the whole history of an account, whatever is settled; commands take
  effect once, and the ledger refines the account book; transfers conserve money and do not overdraw; charges land on
  their preview or are refused, and protection is all or nothing. Every session is paid once provided the
  boundaries of runs do not go back, closed work on whole seconds is paid, and the credit is reproducible; two theorems show
  what a stale boundary and fractions of a second break. Recurrences and paydays do not drift. Attendance intervals do not overlap; a finished day stays
  finished. Obligation records stay lawful over every history without clashing sessions, what is settled stays settled at
  its frozen amount, a terminated lineage stays ended; a waiver or payment that races a waiver or withdrawal breaks the first. A rent payment debits what it reports, at most what remained, and counts toward its
  obligation alone; two theorems show how a bill of several obligations breaks its promises.

  \<^bold>\<open>Bounds.\<close> The payday search has the code's own bound of 10,000 boundaries as fuel; \<open>first_payday_after_instant\<close> shows at
  most three are used. Other loops recurse on lists. Row ids, sequences and amounts are unbounded here.

  \<^bold>\<open>Not modelled.\<close> Web routes, templates, view models, migrations, scheduled tasks' loops and the identity, store,
  entitlement, insurance-claim and interpretation domains. Of the modelled files: the overflow of
  \<^verbatim>\<open>Decimal.quantize\<close> past 28 digits, the floats of \<^verbatim>\<open>calculate_cwi\<close>, \<^verbatim>\<open>total_seconds\<close> and
  \<^verbatim>\<open>daily_limit_seconds\<close>, the 32-bit width of the amount column, the ends of the datetime range,
  trailing zeros of \<^verbatim>\<open>str(amount)\<close>, database constraints other than those the code relies on to settle races,
  collation, the integrity listeners of the ORM, free-text notes, the fractional power of the savings formula (a
  parameter), the interpretation step of a payroll cycle (a parameter), the hall-pass log command, payroll
  provenance reads, the lookup of the audited credit an allocation belongs to, and reads that extract dates in the
  time zone of the database session.
\<close>

end
